theory Spec2Isabelle
  imports Main "HOL-Library.Word"
begin

unbundle bit_operations_syntax

section \<open>Names, ranges and symbol classes\<close>

text \<open>
  An interned name (\<^verbatim>\<open>Name\<close>): the handle's hash and its display text. The source
  compares names with \<^verbatim>\<open>===\<close> (object identity of the interned handle); one handle
  exists per hash, so identity is equality of the value below. The interning table
  itself (which folds the case of the text) is not part of the sources.
\<close>

datatype Name = Name (hash: nat) (toString: string)

datatype Position = Position (line: nat) (character: nat)

text \<open>
  A source range. \<^verbatim>\<open>DEFAULT_RANGE\<close> is the one shared range object of intrinsic
  symbols; the source tests it by identity (\<^verbatim>\<open>symbol.id.range === DEFAULT_RANGE\<close>),
  so it is a constructor of its own: a range created from source tokens is never
  identical to it, whatever its positions.
\<close>

datatype Range = DEFAULT_RANGE | Range Position Position

text \<open>
  The classes of symbol objects, as far as the sources test them with \<^verbatim>\<open>instanceof\<close>
  (\<^verbatim>\<open>UCDocumentClassSymbol\<close> is a \<^verbatim>\<open>UCClassSymbol\<close>).
\<close>

datatype SymbolClass =
    UCPackage
  | UCSymbolReference
  | UCObjectTypeSymbol
  | UCClassSymbol
  | UCScriptStructSymbol
  | UCStateSymbol
  | UCEnumSymbol
  | UCMethodSymbol
  | UCDefaultPropertiesBlock
  | UCReplicationBlock
  | UCObjectSymbol
  | UCPropertySymbol
  | UCParamSymbol
  | UCLocalSymbol
  | UCConstSymbol
  | UCEnumMemberSymbol

definition instanceof_UCStructSymbol :: "SymbolClass \<Rightarrow> bool" where
  "instanceof_UCStructSymbol c =
     (c \<in> {UCClassSymbol, UCScriptStructSymbol, UCStateSymbol, UCEnumSymbol, UCMethodSymbol,
            UCDefaultPropertiesBlock, UCReplicationBlock, UCObjectSymbol})"

definition instanceof_UCFieldSymbol :: "SymbolClass \<Rightarrow> bool" where
  "instanceof_UCFieldSymbol c =
     (instanceof_UCStructSymbol c \<or>
      c \<in> {UCPropertySymbol, UCParamSymbol, UCLocalSymbol, UCConstSymbol, UCEnumMemberSymbol})"

type_synonym sid = nat

type_synonym UCTypeFlags = "32 word"

text \<open>\<^verbatim>\<open>enum UCTypeKind\<close> of TypeSymbol.ts, in the order of the source.\<close>

datatype UCTypeKind =
    TK_Float | TK_Int | TK_Byte | TK_String | TK_Name | TK_Bool | TK_Array | TK_Delegate
  | TK_Object | TK_Package | TK_Class | TK_Interface | TK_Enum | TK_State | TK_Struct
  | TK_Property | TK_Function | TK_Type | TK_None | TK_Error

text \<open>
  A type reference: \<^verbatim>\<open>UCObjectTypeSymbol\<close> with the name and the range of its
  identifier, its expected kind (\<^verbatim>\<open>validTypeKind\<close>), its resolved \<^verbatim>\<open>reference\<close> and
  its \<^verbatim>\<open>baseType\<close>, or \<^verbatim>\<open>UCQualifiedTypeSymbol\<close> with its \<^verbatim>\<open>type\<close> and \<^verbatim>\<open>left\<close>.
\<close>

datatype ITypeSymbol =
    ObjectType (type_id: Name) (type_id_range: Range) (validTypeKind: "UCTypeKind option")
               (reference: "sid option") (baseType: "ITypeSymbol option")
  | QualifiedType (qtype: ITypeSymbol) (left: "ITypeSymbol option")

text \<open>
  A \<^verbatim>\<open>UCSymbolReference\<close> of a state's \<^verbatim>\<open>ignoreRefs\<close>: the name and the range of its
  identifier and the symbol it refers to, once set.
\<close>

datatype SymbolReference =
  SymbolReference (ref_name: Name) (ref_range: Range) (ref_target: "sid option")

section \<open>The symbol graph\<close>

text \<open>
  A symbol object. \<open>nextSym\<close> is the field \<^verbatim>\<open>next\<close>, \<open>sym_class\<close> the object's class,
  \<open>id_name\<close> and \<open>id_range\<close> are \<^verbatim>\<open>id.name\<close> and \<^verbatim>\<open>id.range\<close>, \<open>getTypeFlags\<close> and
  \<open>isType\<close> are what the methods of these names return for the object, \<open>enum_value\<close>
  is the field \<^verbatim>\<open>value\<close> of an enum member, \<open>overriddenState\<close> and \<open>ignoreRefs\<close> are
  the fields of a state. Fields a class does not have stay \<open>None\<close>.
\<close>

record UCSymbol =
  sym_class :: SymbolClass
  id_name :: Name
  id_range :: Range
  getTypeFlags :: UCTypeFlags
  isType :: bool
  outer :: "sid option"
  nextSym :: "sid option"
  containingStruct :: "sid option"
  children :: "sid option"
  super :: "sid option"
  extendsType :: "ITypeSymbol option"
  overriddenState :: "sid option"
  ignoreRefs :: "SymbolReference list option"
  enum_value :: "nat option"

text \<open>The object store: every reference \<open>sid\<close> denotes an object.\<close>

type_synonym heap = "sid \<Rightarrow> UCSymbol"

text \<open>A freshly constructed symbol: \<^verbatim>\<open>new C(name, range)\<close>.\<close>

definition new_symbol :: "SymbolClass \<Rightarrow> Name \<Rightarrow> Range \<Rightarrow> UCTypeFlags \<Rightarrow> UCSymbol" where
  "new_symbol c n r flags =
     \<lparr>sym_class = c, id_name = n, id_range = r, getTypeFlags = flags, isType = False,
      outer = None, nextSym = None, containingStruct = None, children = None, super = None,
      extendsType = None, overriddenState = None, ignoreRefs = None, enum_value = None\<rparr>"

subsection \<open>StructSymbol.ts\<close>

definition addSymbol :: "sid \<Rightarrow> sid \<Rightarrow> heap \<Rightarrow> heap" where
  "addSymbol this symbol h =
     (let h1 = h(symbol := (h symbol)\<lparr>outer := Some this\<rparr>);
          h2 = h1(symbol := (h1 symbol)\<lparr>nextSym := children (h1 this)\<rparr>);
          h3 = h2(symbol := (h2 symbol)\<lparr>containingStruct := Some this\<rparr>)
      in h3(this := (h3 this)\<lparr>children := Some symbol\<rparr>))"

text \<open>The \<^verbatim>\<open>for\<close> loop of \<^verbatim>\<open>removeSymbol\<close>; \<open>None\<close> when it never ends (a cyclic chain).\<close>

partial_function (option) removeSymbol_loop :: "sid \<Rightarrow> sid option \<Rightarrow> heap \<Rightarrow> heap option" where
  "removeSymbol_loop symbol child h =
     (case child of
        None \<Rightarrow> Some h
      | Some c \<Rightarrow>
          if nextSym (h c) = Some symbol
          then Some (h(c := (h c)\<lparr>nextSym := nextSym (h symbol)\<rparr>))
          else removeSymbol_loop symbol (nextSym (h c)) h)"

declare removeSymbol_loop.simps [code]

definition removeSymbol :: "sid \<Rightarrow> sid \<Rightarrow> heap \<Rightarrow> heap option" where
  "removeSymbol this symbol h =
     (if children (h this) = Some symbol
      then (let h1 = h(this := (h this)\<lparr>children := nextSym (h symbol)\<rparr>)
            in Some (h1(symbol := (h1 symbol)\<lparr>nextSym := None\<rparr>)))
      else removeSymbol_loop symbol (children (h this)) h)"

text \<open>
  The test \<^verbatim>\<open>kind !== undefined && (child.getTypeFlags() & kind) === 0\<close> of
  \<^verbatim>\<open>getSymbol\<close>.
\<close>

definition kind_excludes :: "UCTypeFlags option \<Rightarrow> UCTypeFlags \<Rightarrow> bool" where
  "kind_excludes kind flags = (case kind of None \<Rightarrow> False | Some k \<Rightarrow> flags AND k = 0)"

text \<open>
  \<^verbatim>\<open>getSymbol\<close>: the outer \<open>option\<close> is \<open>None\<close> when the loop never ends, the inner one
  is the \<^verbatim>\<open>undefined\<close> of the source.
\<close>

partial_function (option) getSymbol_loop ::
  "heap \<Rightarrow> sid option \<Rightarrow> Name \<Rightarrow> UCTypeFlags option \<Rightarrow> sid option option" where
  "getSymbol_loop h child ident kind =
     (case child of
        None \<Rightarrow> Some None
      | Some c \<Rightarrow>
          if id_name (h c) = ident
          then (if kind_excludes kind (getTypeFlags (h c))
                then getSymbol_loop h (nextSym (h c)) ident kind
                else Some (Some c))
          else getSymbol_loop h (nextSym (h c)) ident kind)"

declare getSymbol_loop.simps [code]

definition getSymbol :: "heap \<Rightarrow> sid \<Rightarrow> Name \<Rightarrow> UCTypeFlags option \<Rightarrow> sid option option" where
  "getSymbol h this ident kind = getSymbol_loop h (children (h this)) ident kind"

text \<open>
  The enumeration \<^verbatim>\<open>for (let child = this.children; child; child = child.next)\<close> that
  \<^verbatim>\<open>childrenCount\<close>, \<^verbatim>\<open>getCompletionSymbols\<close> and the other loops of StructSymbol.ts
  run: the symbols in the order they are visited, \<open>None\<close> when the loop never ends.
\<close>

partial_function (option) chain :: "heap \<Rightarrow> sid option \<Rightarrow> sid list option" where
  "chain h child =
     (case child of
        None \<Rightarrow> Some []
      | Some c \<Rightarrow> Option.bind (chain h (nextSym (h c))) (\<lambda>cs. Some (c # cs)))"

declare chain.simps [code]

definition childrenCount :: "heap \<Rightarrow> sid \<Rightarrow> nat option" where
  "childrenCount h this = map_option length (chain h (children (h this)))"

datatype JSError = TypeError

text \<open>
  \<^verbatim>\<open>findSuperSymbol\<close>, with the dispatch on the receiver's class: a struct searches
  its own children and then its \<^verbatim>\<open>super\<close> (StructSymbol.ts); a state then goes on in
  its \<^verbatim>\<open>outer\<close> (StateSymbol.ts). The method exists on struct symbols only, and a
  state reads \<^verbatim>\<open>this.outer\<close> without a check: both failures are a \<open>TypeError\<close>. \<open>None\<close>
  is a search that never ends (a cyclic chain).
\<close>

partial_function (option) findSuperSymbol ::
  "heap \<Rightarrow> sid \<Rightarrow> Name \<Rightarrow> UCTypeFlags option \<Rightarrow> (JSError + sid option) option" where
  "findSuperSymbol h this ident kind =
     (if \<not> instanceof_UCStructSymbol (sym_class (h this)) then Some (Inl TypeError)
      else case getSymbol h this ident kind of
        None \<Rightarrow> None
      | Some (Some c) \<Rightarrow> Some (Inr (Some c))
      | Some None \<Rightarrow>
          Option.bind
            (case super (h this) of
               None \<Rightarrow> Some (Inr None)
             | Some parent \<Rightarrow> findSuperSymbol h parent ident kind)
            (\<lambda>r. case r of
               Inl e \<Rightarrow> Some (Inl e)
             | Inr (Some c) \<Rightarrow> Some (Inr (Some c))
             | Inr None \<Rightarrow>
                 if sym_class (h this) = UCStateSymbol
                 then (case outer (h this) of
                         None \<Rightarrow> Some (Inl TypeError)
                       | Some out \<Rightarrow> findSuperSymbol h out ident kind)
                 else Some (Inr None)))"

declare findSuperSymbol.simps [code]

section \<open>Rename preparation (server.ts, connection.onPrepareRename)\<close>

datatype ErrorCodes = InvalidRequest | InvalidParams

datatype ResponseError = ResponseError ErrorCodes string

definition is_id_start :: "char \<Rightarrow> bool" where
  "is_id_start c = (c \<in> set ''abcdefghijklmnopqrstuvwxyzABCDEFGHIJKLMNOPQRSTUVWXYZ_'')"

definition is_id_part :: "char \<Rightarrow> bool" where
  "is_id_part c = (is_id_start c \<or> c \<in> set ''0123456789'')"

text \<open>\<^verbatim>\<open>VALID_ID_REGEXP = /^([a-zA-Z_][a-zA-Z_0-9]*)$/\<close>, as \<^verbatim>\<open>VALID_ID_REGEXP.test\<close>.\<close>

fun VALID_ID_REGEXP_test :: "string \<Rightarrow> bool" where
  "VALID_ID_REGEXP_test [] = False"
| "VALID_ID_REGEXP_test (c # cs) = (is_id_start c \<and> list_all is_id_part cs)"

text \<open>
  The handler. Its first argument is the constant \<^verbatim>\<open>UCTypeFlags.Error\<close> (the enum is
  not part of the sources); the second is what \<^verbatim>\<open>getSymbolDefinition\<close> returned. A
  thrown \<^verbatim>\<open>ResponseError\<close> is \<open>Inl\<close>, the returned range is \<open>Inr\<close>.
\<close>

definition onPrepareRename :: "UCTypeFlags \<Rightarrow> UCSymbol option \<Rightarrow> ResponseError + Range" where
  "onPrepareRename UCTypeFlags_Error found =
     (case found of
        None \<Rightarrow> Inl (ResponseError InvalidRequest ''You cannot rename this element!'')
      | Some symbol \<Rightarrow>
          if getTypeFlags symbol = UCTypeFlags_Error
          then Inl (ResponseError InvalidRequest ''You cannot rename this element!'')
          else if instanceof_UCFieldSymbol (sym_class symbol)
          then (if sym_class symbol = UCClassSymbol
                then Inl (ResponseError InvalidRequest ''You cannot rename a class!'')
                else if id_range symbol = DEFAULT_RANGE
                then Inl (ResponseError InvalidRequest ''You cannot rename this element!'')
                else if \<not> VALID_ID_REGEXP_test (toString (id_name symbol))
                then Inl (ResponseError InvalidParams ''You cannot rename this element!'')
                else Inr (id_range symbol))
          else Inl (ResponseError InvalidRequest ''You cannot rename this element!''))"

section \<open>The Reference Index and the document (document.ts)\<close>

text \<open>
  A reference record \<^verbatim>\<open>ISymbolReference\<close>: \<open>ref_oid\<close> is the identity of the object (a
  \<^verbatim>\<open>Set\<close> holds objects by identity), the location is a document and a range, and
  \<open>ref_symbol\<close> names the referencing symbol.
\<close>

record ISymbolReference =
  ref_oid :: nat
  location_uri :: string
  location_range :: Range
  ref_symbol :: "Name option"

text \<open>\<^verbatim>\<open>IndexedReferences = new Map<string, Set<ISymbolReference>>()\<close>.\<close>

type_synonym ReferenceIndex = "string \<rightharpoonup> ISymbolReference set"

definition getIndexedReferences :: "ReferenceIndex \<Rightarrow> string \<Rightarrow> ISymbolReference set" where
  "getIndexedReferences G qualifiedId = (case G qualifiedId of Some refs \<Rightarrow> refs | None \<Rightarrow> {})"

definition addIndexedReference :: "string \<Rightarrow> ISymbolReference \<Rightarrow> ReferenceIndex \<Rightarrow> ReferenceIndex" where
  "addIndexedReference qualifiedId ref G =
     G(qualifiedId \<mapsto> insert ref (getIndexedReferences G qualifiedId))"

definition unsetIndexedReferences ::
  "string \<Rightarrow> ISymbolReference set \<Rightarrow> ReferenceIndex \<Rightarrow> ReferenceIndex" where
  "unsetIndexedReferences qualifiedId refs G =
     (case G qualifiedId of
        None \<Rightarrow> G
      | Some indexedRefs \<Rightarrow>
          if indexedRefs - refs = {} then G(qualifiedId := None)
          else G(qualifiedId \<mapsto> indexedRefs - refs))"

datatype IDiagnosticNode =
    SyntaxErrorNode Range string
  | UnrecognizedTypeNode ITypeSymbol
  | SemanticErrorNode ITypeSymbol string

text \<open>
  The fields of \<^verbatim>\<open>UCDocument\<close>: \<open>doc_class\<close> is the field \<^verbatim>\<open>class\<close>;
  \<open>indexReferencesMade\<close> is a \<^verbatim>\<open>Map\<close>, kept as its entries in insertion order since
  \<^verbatim>\<open>invalidate\<close> iterates over it.
\<close>

record UCDocument =
  doc_uri :: string
  doc_class :: "sid option"
  nodes :: "IDiagnosticNode list"
  indexReferencesMade :: "(string \<times> ISymbolReference set) list"

text \<open>\<^verbatim>\<open>UCDocument.invalidate\<close>, on the document and the global index.\<close>

definition invalidate :: "UCDocument \<Rightarrow> ReferenceIndex \<Rightarrow> UCDocument \<times> ReferenceIndex" where
  "invalidate d G =
     (let d1 = d\<lparr>doc_class := None\<rparr>;
          d2 = d1\<lparr>nodes := []\<rparr>;
          G' = fold (\<lambda>(key, refs). unsetIndexedReferences key refs) (indexReferencesMade d2) G
      in (d2\<lparr>indexReferencesMade := []\<rparr>, G'))"

subsection \<open>What invalidation is to achieve\<close>

text \<open>The records a references-made map holds under a key.\<close>

definition recorded :: "(string \<times> ISymbolReference set) list \<Rightarrow> string \<Rightarrow> ISymbolReference set" where
  "recorded made key = \<Union> (set (map snd (filter (\<lambda>e. fst e = key) made)))"

text \<open>
  The index with exactly the recorded records removed, an entry being deleted when the
  removal leaves it empty.
\<close>

definition retracted ::
  "(string \<times> ISymbolReference set) list \<Rightarrow> ReferenceIndex \<Rightarrow> ReferenceIndex" where
  "retracted made G = (\<lambda>key.
     case G key of
       None \<Rightarrow> None
     | Some refs \<Rightarrow>
         if key \<in> fst ` set made \<and> refs - recorded made key = {} then None
         else Some (refs - recorded made key))"

text \<open>
  Reference-index consistency for a document: every record of the global index whose
  location is in the document is recorded in the document's own map under the same key.
\<close>

definition index_consistent :: "UCDocument \<Rightarrow> ReferenceIndex \<Rightarrow> bool" where
  "index_consistent d G =
     (\<forall>key refs r. G key = Some refs \<and> r \<in> refs \<and> location_uri r = doc_uri d
        \<longrightarrow> r \<in> recorded (indexReferencesMade d) key)"

section \<open>The structural builder (document.ts)\<close>

text \<open>
  The parse tree of an enum declaration, as \<^verbatim>\<open>enterEnumDecl\<close> reads it: the identifier
  (absent in a malformed declaration) with the range of its token, and the members,
  each with its identifier and the range of its first token. An identifier is given
  as the name that the symbol's constructor makes of its text.
\<close>

record EnumMemberContext =
  member_identifier :: Name
  member_start :: Range

record EnumDeclContext =
  enum_identifier :: "(Name \<times> Range) option"
  enumMember :: "EnumMemberContext list"

text \<open>
  The state of the listener during a walk: the object store with the next free
  reference (for \<^verbatim>\<open>new\<close>), the stack \<^verbatim>\<open>this.context\<close> (its top is its last element),
  \<^verbatim>\<open>this.classPackage\<close> and the global \<^verbatim>\<open>EnumMemberMap\<close>.
\<close>

record Builder =
  b_heap :: heap
  b_fresh :: sid
  b_context :: "sid list"
  classPackage :: sid
  EnumMemberMap :: "Name \<rightharpoonup> sid"

definition alloc :: "UCSymbol \<Rightarrow> Builder \<Rightarrow> sid \<times> Builder" where
  "alloc obj b = (b_fresh b, b\<lparr>b_heap := (b_heap b)(b_fresh b := obj), b_fresh := Suc (b_fresh b)\<rparr>)"

definition push :: "sid \<Rightarrow> Builder \<Rightarrow> Builder" where
  "push newContext b = b\<lparr>b_context := b_context b @ [newContext]\<rparr>"

definition pop :: "Builder \<Rightarrow> Builder" where
  "pop b = b\<lparr>b_context := butlast (b_context b)\<rparr>"

definition get :: "Builder \<Rightarrow> sid" where
  "get b = (if length (b_context b) > 0 then last (b_context b) else classPackage b)"

text \<open>
  \<^verbatim>\<open>declare\<close>: \<^verbatim>\<open>this.get().addSymbol(symbol)\<close>. The container is a struct or the
  package; \<^verbatim>\<open>UCPackage.addSymbol\<close> is not part of the sources and is a parameter.
\<close>

definition declare_symbol :: "(sid \<Rightarrow> sid \<Rightarrow> heap \<Rightarrow> heap) \<Rightarrow> sid \<Rightarrow> Builder \<Rightarrow> Builder" where
  "declare_symbol UCPackage_addSymbol symbol b =
     (let context = get b
      in if sym_class (b_heap b context) = UCPackage
         then b\<lparr>b_heap := UCPackage_addSymbol context symbol (b_heap b)\<rparr>
         else b\<lparr>b_heap := addSymbol context symbol (b_heap b)\<rparr>)"

definition setEnumMember :: "sid \<Rightarrow> Builder \<Rightarrow> Builder" where
  "setEnumMember member b =
     b\<lparr>EnumMemberMap := (EnumMemberMap b)(id_name (b_heap b member) \<mapsto> member)\<rparr>"

text \<open>
  The body of the loop over the members, on the builder and the counter \<^verbatim>\<open>count\<close>.
  \<open>flags\<close> gives \<^verbatim>\<open>getTypeFlags()\<close> of a class (the constants are not part of the
  sources).
\<close>

definition enterEnumDecl_member ::
  "(sid \<Rightarrow> sid \<Rightarrow> heap \<Rightarrow> heap) \<Rightarrow> (SymbolClass \<Rightarrow> UCTypeFlags) \<Rightarrow> sid \<Rightarrow> EnumMemberContext
     \<Rightarrow> Builder \<times> nat \<Rightarrow> Builder \<times> nat" where
  "enterEnumDecl_member UCPackage_addSymbol flags enumSymbol memberNode = (\<lambda>(b, count).
     (let (memberSymbol, b1) =
            alloc (new_symbol UCEnumMemberSymbol (member_identifier memberNode)
                     (member_start memberNode) (flags UCEnumMemberSymbol)) b;
          b2 = declare_symbol UCPackage_addSymbol memberSymbol b1;
          b3 = b2\<lparr>b_heap := (b_heap b2)
                  (memberSymbol := (b_heap b2 memberSymbol)\<lparr>outer := Some enumSymbol\<rparr>)\<rparr>;
          b4 = b3\<lparr>b_heap := (b_heap b3)
                  (memberSymbol := (b_heap b3 memberSymbol)\<lparr>enum_value := Some count\<rparr>)\<rparr>
      in (setEnumMember memberSymbol b4, count + 1)))"

definition enterEnumDecl ::
  "(sid \<Rightarrow> sid \<Rightarrow> heap \<Rightarrow> heap) \<Rightarrow> (SymbolClass \<Rightarrow> UCTypeFlags) \<Rightarrow> EnumDeclContext
     \<Rightarrow> Builder \<Rightarrow> Builder" where
  "enterEnumDecl UCPackage_addSymbol flags ctx b =
     (case enum_identifier ctx of
        None \<Rightarrow> b
      | Some (idText, idRange) \<Rightarrow>
          (let (enumSymbol, b1) =
                 alloc (new_symbol UCEnumSymbol idText idRange (flags UCEnumSymbol)) b;
               b2 = declare_symbol UCPackage_addSymbol enumSymbol b1;
               b3 = push enumSymbol b2
           in fst (fold (enterEnumDecl_member UCPackage_addSymbol flags enumSymbol)
                        (enumMember ctx) (b3, 0))))"

definition exitEnumDecl :: "Builder \<Rightarrow> Builder" where
  "exitEnumDecl b = pop b"


section \<open>Statements (statements.ts)\<close>

text \<open>
  The context info object, as far as the statements read and write it: the field
  \<^verbatim>\<open>typeFlags\<close> (a number or \<^verbatim>\<open>undefined\<close>). A parameter \<open>info\<close> of type
  \<open>IContextInfo option\<close> is \<open>None\<close> when no object is passed and else the content of
  the object that caller and callee share; a call returns the content the object
  has afterwards.

  Expressions are not part of the sources: an expression is given by what its
  \<^verbatim>\<open>index\<close> does to the rest of the state \<open>'w\<close> and to the info object it receives,
  and by the type flags of its \<^verbatim>\<open>getType()\<close> (if it has a type).
\<close>

datatype IContextInfo = IContextInfo (typeFlags: "UCTypeFlags option")

datatype 'w IExpression =
  IExpression (expr_index: "'w \<Rightarrow> IContextInfo option \<Rightarrow> 'w \<times> IContextInfo")
              (expr_getType: "'w \<Rightarrow> UCTypeFlags option")

text \<open>
  The statement classes: \<^verbatim>\<open>UCExpressionStatement\<close> stands for the classes that inherit
  its \<^verbatim>\<open>index\<close> (assert, labeled, goto), \<^verbatim>\<open>UCThenStatement\<close> for those that inherit
  that one (do-until, while, case and default clauses, for-each).
\<close>

datatype 'w IStatement =
    UCExpressionStatement "'w IExpression option"
  | UCThenStatement "'w IExpression option" "'w IStatement option"
  | UCBlock "'w IStatement option list"
  | UCIfStatement "'w IExpression option" "'w IStatement option" "'w IStatement option"
  | UCSwitchStatement "'w IExpression option" "'w IStatement option"
  | UCForStatement "'w IExpression option" "'w IStatement option"
                   "'w IExpression option" "'w IExpression option"
  | UCReturnStatement "'w IExpression option"

definition expression_index ::
  "'w IExpression option \<Rightarrow> 'w \<Rightarrow> IContextInfo option \<Rightarrow> 'w \<times> IContextInfo option" where
  "expression_index expression w info =
     (case expression of
        None \<Rightarrow> (w, info)
      | Some e \<Rightarrow> (let (w1, content) = expr_index e w info in (w1, map_option (\<lambda>_. content) info)))"

text \<open>\<^verbatim>\<open>if (type) { info = { typeFlags: type.getTypeFlags() }; }\<close>: a new object.\<close>

definition new_info :: "UCTypeFlags option \<Rightarrow> IContextInfo option \<Rightarrow> IContextInfo option" where
  "new_info type info = (case type of None \<Rightarrow> info | Some flags \<Rightarrow> Some (IContextInfo (Some flags)))"

text \<open>
  After a call that was given such a new object, the caller's own object has the
  content it had before the call.
\<close>

definition after_call ::
  "UCTypeFlags option \<Rightarrow> IContextInfo option \<Rightarrow> 'w \<times> IContextInfo option \<Rightarrow> 'w \<times> IContextInfo option" where
  "after_call type info r = (case type of None \<Rightarrow> r | Some flags \<Rightarrow> (fst r, info))"

text \<open>
  \<^verbatim>\<open>index(document, context, info)\<close> of a statement, by its class. The first argument
  is \<^verbatim>\<open>context.getType()\<close> of \<^verbatim>\<open>UCReturnStatement\<close> (not part of the sources).
  \<^verbatim>\<open>UCBlock.index\<close> passes its \<^verbatim>\<open>arguments\<close> on, so a statement receives the info
  object exactly when the block did.
\<close>

fun statement_index ::
  "('w \<Rightarrow> UCTypeFlags option) \<Rightarrow> 'w IStatement \<Rightarrow> 'w \<Rightarrow> IContextInfo option
     \<Rightarrow> 'w \<times> IContextInfo option" where
  "statement_index ctype (UCExpressionStatement expression) w info =
     expression_index expression w info"
| "statement_index ctype (UCThenStatement expression then_stmt) w info =
     (let (w1, info1) = expression_index expression w info
      in case then_stmt of None \<Rightarrow> (w1, info1)
         | Some s \<Rightarrow> statement_index ctype s w1 info1)"
| "statement_index ctype (UCBlock statements) w info =
     (let typeFlags = (case info of None \<Rightarrow> None | Some i \<Rightarrow> typeFlags i)
      in fold (\<lambda>statement (w1, info1).
                 case statement of
                   None \<Rightarrow> (w1, info1)
                 | Some s \<Rightarrow>
                     (let (w2, info2) = statement_index ctype s w1 info1
                      in (w2, map_option (\<lambda>_. IContextInfo typeFlags) info)))
              statements (w, info))"
| "statement_index ctype (UCIfStatement expression then_stmt else_stmt) w info =
     (let (w1, info1) = expression_index expression w info;
          (w2, info2) = (case then_stmt of None \<Rightarrow> (w1, info1)
                         | Some s \<Rightarrow> statement_index ctype s w1 info1)
      in case else_stmt of None \<Rightarrow> (w2, info2)
         | Some s \<Rightarrow> statement_index ctype s w2 info2)"
| "statement_index ctype (UCSwitchStatement expression then_stmt) w info =
     (case expression of
        None \<Rightarrow> (case then_stmt of None \<Rightarrow> (w, info) | Some s \<Rightarrow> statement_index ctype s w info)
      | Some e \<Rightarrow>
          (let (w1, info1) = expression_index (Some e) w info;
               type = expr_getType e w1
           in case then_stmt of None \<Rightarrow> (w1, info1)
              | Some s \<Rightarrow> after_call type info1 (statement_index ctype s w1 (new_info type info1))))"
| "statement_index ctype (UCForStatement expression then_stmt init next_expr) w info =
     (let (w1, info1) = expression_index expression w info;
          (w2, info2) = (case then_stmt of None \<Rightarrow> (w1, info1)
                         | Some s \<Rightarrow> statement_index ctype s w1 info1);
          (w3, info3) = expression_index init w2 info2
      in expression_index next_expr w3 info3)"
| "statement_index ctype (UCReturnStatement expression) w info =
     (let type = ctype w
      in after_call type info (expression_index expression w (new_info type info)))"

section \<open>Indexing (TypeSymbol.ts, StructSymbol.ts, StateSymbol.ts)\<close>

text \<open>
  How a call ends: it returns (\<open>Normal\<close>) or it throws (\<open>Throw\<close>); either way with the
  state it has reached. A call that never returns has no outcome at all: the functions
  below return an \<open>option\<close>, and \<open>None\<close> is such a call.
\<close>

datatype 'a completion = Normal 'a | Throw JSError 'a

fun state_of :: "'a completion \<Rightarrow> 'a" where
  "state_of (Normal s) = s"
| "state_of (Throw e s) = s"

text \<open>
  The state that indexing one document works on: the object store, the document, the
  global \<^verbatim>\<open>IndexedReferences\<close>, and the identity of the next reference record created.
\<close>

record World =
  w_heap :: heap
  w_document :: UCDocument
  w_index :: ReferenceIndex
  w_oid :: nat

text \<open>
  What indexing uses and the sources do not contain, as parameters: the lookups of
  the two global tables (\<^verbatim>\<open>PackagesTable.findSymbol\<close>, \<^verbatim>\<open>SymbolsTable.findSymbol\<close>, each
  with the name and the \<^verbatim>\<open>deepSearch\<close> flag), the index key of a symbol
  (\<^verbatim>\<open>getHash\<close>), the \<^verbatim>\<open>filePath\<close> of a document (TypeSymbol.ts reads
  \<^verbatim>\<open>document.filePath\<close>; the document class of the sources has the field \<^verbatim>\<open>uri\<close>
  only), \<^verbatim>\<open>UCFieldSymbol.index\<close> (the \<^verbatim>\<open>super.index\<close> of
  \<^verbatim>\<open>UCStructSymbol.index\<close>), and the \<^verbatim>\<open>index\<close> methods of the classes of children
  other than \<^verbatim>\<open>UCStateSymbol\<close>: \<open>child_index\<close> is the state that
  \<^verbatim>\<open>child.index(document, this)\<close> leaves for such a child, inside the \<^verbatim>\<open>try\<close>/\<^verbatim>\<open>catch\<close>
  of the loop that calls it.
\<close>

record Env =
  PackagesTable_findSymbol :: "Name \<Rightarrow> bool \<Rightarrow> sid option"
  SymbolsTable_findSymbol :: "Name \<Rightarrow> bool \<Rightarrow> sid option"
  getHash :: "UCSymbol \<Rightarrow> string"
  filePath :: "UCDocument \<Rightarrow> string"
  UCFieldSymbol_index :: "sid \<Rightarrow> sid \<Rightarrow> World \<Rightarrow> World"
  child_index :: "sid \<Rightarrow> sid \<Rightarrow> World \<Rightarrow> World"

text \<open>
  Modelled from the spec: \<^verbatim>\<open>UCDocument.indexReference\<close> is called by the sources but is
  not part of them. By the spec, a resolved reference registers itself both under the
  target's hash in the global Reference Index and under the owning document's
  references-made map. \<open>record_made\<close> is the update of that map (a \<^verbatim>\<open>Map\<close> keeps the
  position of a key it already has).
\<close>

fun record_made ::
  "string \<Rightarrow> ISymbolReference \<Rightarrow> (string \<times> ISymbolReference set) list
     \<Rightarrow> (string \<times> ISymbolReference set) list" where
  "record_made key ref [] = [(key, {ref})]"
| "record_made key ref ((k, refs) # made) =
     (if k = key then (k, insert ref refs) # made else (k, refs) # record_made key ref made)"

definition indexReference :: "string \<Rightarrow> ISymbolReference \<Rightarrow> World \<Rightarrow> World" where
  "indexReference key ref w =
     w\<lparr>w_document := (w_document w)
          \<lparr>indexReferencesMade := record_made key ref (indexReferencesMade (w_document w))\<rparr>,
       w_index := addIndexedReference key ref (w_index w)\<rparr>"

text \<open>\<^verbatim>\<open>getReference\<close> of the two type symbol classes.\<close>

fun getReference :: "ITypeSymbol \<Rightarrow> sid option" where
  "getReference (ObjectType ident rng kind ref base) = ref"
| "getReference (QualifiedType t l) = getReference t"

text \<open>A new reference record with the location \<^verbatim>\<open>Location.create(file, range)\<close>.\<close>

definition new_reference ::
  "string \<Rightarrow> Name option \<Rightarrow> Range \<Rightarrow> World \<Rightarrow> ISymbolReference \<times> World" where
  "new_reference file ident rng w =
     (\<lparr>ref_oid = w_oid w, location_uri = file, location_range = rng,
       ref_symbol = ident\<rparr>,
      w\<lparr>w_oid := Suc (w_oid w)\<rparr>)"

text \<open>
  \<^verbatim>\<open>UCObjectTypeSymbol.setReference(symbol, document)\<close>, the part after the assignment
  of \<^verbatim>\<open>this.reference\<close>: the record is located at \<^verbatim>\<open>document.filePath\<close> and
  \<^verbatim>\<open>this.id.range\<close>, and names this type symbol. Every object of the store is a
  \<^verbatim>\<open>UCSymbol\<close>.
\<close>

definition setReference :: "Env \<Rightarrow> sid \<Rightarrow> Name \<Rightarrow> Range \<Rightarrow> World \<Rightarrow> World" where
  "setReference env symbol ident rng w =
     (let (ref, w1) = new_reference (filePath env (w_document w)) (Some ident) rng w
      in indexReference (getHash env (w_heap w1 symbol)) ref w1)"

text \<open>\<^verbatim>\<open>if (!(symbol instanceof UCFieldSymbol && symbol.isType())) symbol = undefined\<close>.\<close>

definition usable_as_type :: "heap \<Rightarrow> sid option \<Rightarrow> sid option" where
  "usable_as_type h symbol =
     (case symbol of
        None \<Rightarrow> None
      | Some s \<Rightarrow> if instanceof_UCFieldSymbol (sym_class (h s)) \<and> isType (h s) then Some s else None)"

text \<open>
  The lookup of \<^verbatim>\<open>UCObjectTypeSymbol.index\<close>: the \<^verbatim>\<open>switch\<close> on \<^verbatim>\<open>validTypeKind\<close> and
  the check for the kind \<^verbatim>\<open>Type\<close> after it. \<open>None\<close> is a lookup that never returns,
  \<open>Inl\<close> one that throws.
\<close>

definition resolve_reference ::
  "Env \<Rightarrow> heap \<Rightarrow> sid \<Rightarrow> Name \<Rightarrow> UCTypeKind option \<Rightarrow> (JSError + sid option) option" where
  "resolve_reference env h context ident kind =
     Option.bind
       (case kind of
          Some TK_Package \<Rightarrow> Some (Inr (PackagesTable_findSymbol env ident False))
        | Some TK_Class \<Rightarrow> Some (Inr (SymbolsTable_findSymbol env ident True))
        | Some TK_Interface \<Rightarrow> Some (Inr (SymbolsTable_findSymbol env ident True))
        | Some TK_Enum \<Rightarrow> findSuperSymbol h context ident None
        | Some TK_Struct \<Rightarrow> findSuperSymbol h context ident None
        | Some TK_State \<Rightarrow> findSuperSymbol h context ident None
        | _ \<Rightarrow> (case SymbolsTable_findSymbol env ident True of
                  Some s \<Rightarrow> Some (Inr (Some s))
                | None \<Rightarrow> findSuperSymbol h context ident None))
       (\<lambda>r. case r of
          Inl e \<Rightarrow> Some (Inl e)
        | Inr symbol \<Rightarrow>
            Some (Inr (if kind = Some TK_Type then usable_as_type h symbol else symbol)))"

text \<open>The type symbol with its \<^verbatim>\<open>baseType\<close> as indexed.\<close>

fun with_baseType :: "ITypeSymbol \<Rightarrow> ITypeSymbol option \<Rightarrow> ITypeSymbol" where
  "with_baseType (ObjectType ident rng kind ref base) b = ObjectType ident rng kind ref b"
| "with_baseType (QualifiedType t l) b = QualifiedType t l"

text \<open>
  \<^verbatim>\<open>index(document, context)\<close> of \<^verbatim>\<open>UCObjectTypeSymbol\<close> and of
  \<^verbatim>\<open>UCQualifiedTypeSymbol\<close>: the type symbol as it is afterwards, and the state.
\<close>

fun ITypeSymbol_index ::
  "Env \<Rightarrow> sid option \<Rightarrow> ITypeSymbol \<Rightarrow> World \<Rightarrow> (ITypeSymbol \<times> World) completion option" where
  "ITypeSymbol_index env context (ObjectType ident rng kind ref base) w =
     (let this = ObjectType ident rng kind ref base in
      case context of
        None \<Rightarrow> Some (Normal (this, w))
      | Some ctx \<Rightarrow>
          if ref \<noteq> None then Some (Normal (this, w))
          else
            case resolve_reference env (w_heap w) ctx ident kind of
              None \<Rightarrow> None
            | Some (Inl e) \<Rightarrow> Some (Throw e (this, w))
            | Some (Inr symbol) \<Rightarrow>
                (let (this1, w1) =
                       (case symbol of
                          None \<Rightarrow> (this, w)
                        | Some s \<Rightarrow> (ObjectType ident rng kind (Some s) base,
                                     setReference env s ident rng w))
                 in case base of
                      None \<Rightarrow> Some (Normal (this1, w1))
                    | Some b \<Rightarrow>
                        (case ITypeSymbol_index env context b w1 of
                           None \<Rightarrow> None
                         | Some (Normal (b', w2)) \<Rightarrow> Some (Normal (with_baseType this1 (Some b'), w2))
                         | Some (Throw e (b', w2)) \<Rightarrow> Some (Throw e (with_baseType this1 (Some b'), w2)))))"
| "ITypeSymbol_index env context (QualifiedType t l) w =
     (case l of
        None \<Rightarrow>
          (case ITypeSymbol_index env context t w of
             None \<Rightarrow> None
           | Some (Normal (t', w1)) \<Rightarrow> Some (Normal (QualifiedType t' None, w1))
           | Some (Throw e (t', w1)) \<Rightarrow> Some (Throw e (QualifiedType t' None, w1)))
      | Some lft \<Rightarrow>
          (case ITypeSymbol_index env context lft w of
             None \<Rightarrow> None
           | Some (Throw e (l', w1)) \<Rightarrow> Some (Throw e (QualifiedType t (Some l'), w1))
           | Some (Normal (l', w1)) \<Rightarrow>
               (case ITypeSymbol_index env (getReference l') t w1 of
                  None \<Rightarrow> None
                | Some (Normal (t', w2)) \<Rightarrow> Some (Normal (QualifiedType t' (Some l'), w2))
                | Some (Throw e (t', w2)) \<Rightarrow> Some (Throw e (QualifiedType t' (Some l'), w2)))))"


subsection \<open>Analysis\<close>

text \<open>\<^verbatim>\<open>document.nodes.push(node)\<close>.\<close>

definition push_node :: "IDiagnosticNode \<Rightarrow> World \<Rightarrow> World" where
  "push_node node w = w\<lparr>w_document := (w_document w)\<lparr>nodes := nodes (w_document w) @ [node]\<rparr>\<rparr>"

text \<open>
  \<^verbatim>\<open>analyze(document, context)\<close> of \<^verbatim>\<open>UCObjectTypeSymbol\<close> and of
  \<^verbatim>\<open>UCQualifiedTypeSymbol\<close>.
\<close>

fun ITypeSymbol_analyze :: "ITypeSymbol \<Rightarrow> World \<Rightarrow> World" where
  "ITypeSymbol_analyze (ObjectType ident rng kind ref base) w =
     (let this = ObjectType ident rng kind ref base;
          w1 = (case base of None \<Rightarrow> w | Some b \<Rightarrow> ITypeSymbol_analyze b w)
      in case ref of
           None \<Rightarrow> push_node (UnrecognizedTypeNode this) w1
         | Some symbol \<Rightarrow>
             (case kind of
                Some TK_Class \<Rightarrow>
                  if sym_class (w_heap w1 symbol) \<noteq> UCClassSymbol
                  then push_node (SemanticErrorNode this ''Expected a class!'') w1 else w1
              | Some TK_State \<Rightarrow>
                  if sym_class (w_heap w1 symbol) \<noteq> UCStateSymbol
                  then push_node (SemanticErrorNode this ''Expected a state!'') w1 else w1
              | Some TK_Enum \<Rightarrow>
                  if sym_class (w_heap w1 symbol) \<noteq> UCEnumSymbol
                  then push_node (SemanticErrorNode this ''Expected an enum!'') w1 else w1
              | Some TK_Struct \<Rightarrow>
                  if sym_class (w_heap w1 symbol) \<noteq> UCScriptStructSymbol
                  then push_node (SemanticErrorNode this ''Expected a struct!'') w1 else w1
              | _ \<Rightarrow> w1))"
| "ITypeSymbol_analyze (QualifiedType t l) w =
     (let w1 = (case l of None \<Rightarrow> w | Some lft \<Rightarrow> ITypeSymbol_analyze lft w)
      in ITypeSymbol_analyze t w1)"

text \<open>
  \<^verbatim>\<open>UCDocument.getNodes\<close>: one diagnostic per node, made by \<^verbatim>\<open>Diagnostic.create\<close> from
  the node's range and text (the node classes are not part of the sources: \<open>create\<close>
  is a parameter).
\<close>

definition getNodes :: "(IDiagnosticNode \<Rightarrow> 'd) \<Rightarrow> UCDocument \<Rightarrow> 'd list" where
  "getNodes create d = map create (nodes d)"

text \<open>
  \<^verbatim>\<open>UCDocument.analyze\<close>. The walk \<^verbatim>\<open>this.class.analyze(this, this.class)\<close> is not part
  of the sources; \<open>visited\<close> are the type references it reaches in the symbol tree, in
  the order of the walk, each of which it analyzes.
\<close>

definition UCDocument_analyze ::
  "(IDiagnosticNode \<Rightarrow> 'd) \<Rightarrow> ITypeSymbol list \<Rightarrow> World \<Rightarrow> World \<times> 'd list option" where
  "UCDocument_analyze create visited w =
     (case doc_class (w_document w) of
        None \<Rightarrow> (w, None)
      | Some c \<Rightarrow>
          (let w1 = fold ITypeSymbol_analyze visited w
           in (w1, Some (getNodes create (w_document w1)))))"

subsection \<open>Struct and state symbols\<close>

text \<open>The type symbol \<^verbatim>\<open>this.extendsType\<close> is an object of its own; here it is kept
  in the struct, and written back after it was indexed.\<close>

definition set_extendsType :: "sid \<Rightarrow> ITypeSymbol \<Rightarrow> World \<Rightarrow> World" where
  "set_extendsType this t w =
     w\<lparr>w_heap := (w_heap w)(this := (w_heap w this)\<lparr>extendsType := Some t\<rparr>)\<rparr>"

text \<open>
  \<^verbatim>\<open>UCStructSymbol.index\<close>, the part on \<^verbatim>\<open>this.extendsType\<close>: the type is indexed, and
  its referent becomes \<^verbatim>\<open>this.super\<close> if \<^verbatim>\<open>this.super\<close> is not set.
\<close>

definition UCStructSymbol_index_extends ::
  "Env \<Rightarrow> sid \<Rightarrow> sid \<Rightarrow> World \<Rightarrow> World completion option" where
  "UCStructSymbol_index_extends env this context w =
     (case extendsType (w_heap w this) of
        None \<Rightarrow> Some (Normal w)
      | Some t \<Rightarrow>
          (case ITypeSymbol_index env (Some context) t w of
             None \<Rightarrow> None
           | Some (Throw e (t', w1)) \<Rightarrow> Some (Throw e (set_extendsType this t' w1))
           | Some (Normal (t', w1)) \<Rightarrow>
               (let w2 = set_extendsType this t' w1
                in if super (w_heap w2 this) = None
                   then Some (Normal (w2\<lparr>w_heap := (w_heap w2)
                                  (this := (w_heap w2 this)\<lparr>super := getReference t'\<rparr>)\<rparr>))
                   else Some (Normal w2))))"

text \<open>
  \<^verbatim>\<open>UCStateSymbol.index\<close>, the part before \<^verbatim>\<open>super.index\<close>: the search for an
  overridden state. The reference record has a location only, at \<^verbatim>\<open>document.uri\<close> and
  \<^verbatim>\<open>this.id.range\<close>.
\<close>

definition UCStateSymbol_index_override ::
  "Env \<Rightarrow> sid \<Rightarrow> sid \<Rightarrow> World \<Rightarrow> World completion option" where
  "UCStateSymbol_index_override env this context w =
     (case (super (w_heap w this), super (w_heap w context)) of
        (None, Some context_super) \<Rightarrow>
          (case findSuperSymbol (w_heap w) context_super (id_name (w_heap w this)) None of
             None \<Rightarrow> None
           | Some (Inl e) \<Rightarrow> Some (Throw e w)
           | Some (Inr found) \<Rightarrow>
               (case found of
                  None \<Rightarrow> Some (Normal w)
                | Some overridden \<Rightarrow>
                    if sym_class (w_heap w overridden) = UCStateSymbol
                    then (let (ref, w1) = new_reference (doc_uri (w_document w)) None
                                            (id_range (w_heap w this)) w;
                              w2 = indexReference (getHash env (w_heap w1 overridden)) ref w1;
                              w3 = w2\<lparr>w_heap := (w_heap w2)
                                     (this := (w_heap w2 this)\<lparr>overriddenState := Some overridden\<rparr>)\<rparr>
                          in Some (Normal (w3\<lparr>w_heap := (w_heap w3)
                                     (this := (w_heap w3 this)\<lparr>super := Some overridden\<rparr>)\<rparr>)))
                    else Some (Normal w)))
      | _ \<Rightarrow> Some (Normal w))"

text \<open>
  Modelled from the spec: the class \<^verbatim>\<open>UCSymbolReference\<close> of a state's \<^verbatim>\<open>ignoreRefs\<close> is
  not part of the sources. By the spec a resolved reference registers itself in the
  Reference Index and in the document's map; its \<^verbatim>\<open>setReference\<close> is taken to do what
  the one of \<^verbatim>\<open>UCObjectTypeSymbol\<close> does: it sets the referent of element \<open>i\<close> of
  \<^verbatim>\<open>this.ignoreRefs\<close> and records the reference.
\<close>

definition set_ignoreRef :: "sid \<Rightarrow> nat \<Rightarrow> sid \<Rightarrow> World \<Rightarrow> World" where
  "set_ignoreRef this i symbol w =
     w\<lparr>w_heap := (w_heap w)(this := (w_heap w this)
          \<lparr>ignoreRefs := map_option
             (\<lambda>refs. refs[i := SymbolReference (ref_name (refs ! i)) (ref_range (refs ! i)) (Some symbol)])
             (ignoreRefs (w_heap w this))\<rparr>)\<rparr>"

definition UCSymbolReference_setReference :: "Env \<Rightarrow> sid \<Rightarrow> nat \<Rightarrow> sid \<Rightarrow> World \<Rightarrow> World" where
  "UCSymbolReference_setReference env this i symbol w =
     (case ignoreRefs (w_heap w this) of
        None \<Rightarrow> w
      | Some refs \<Rightarrow>
          setReference env symbol (ref_name (refs ! i)) (ref_range (refs ! i))
            (set_ignoreRef this i symbol w))"

text \<open>The loop of \<^verbatim>\<open>UCStateSymbol.index\<close> over \<^verbatim>\<open>this.ignoreRefs\<close>.\<close>

fun index_ignoreRefs ::
  "Env \<Rightarrow> sid \<Rightarrow> (nat \<times> SymbolReference) list \<Rightarrow> World \<Rightarrow> World completion option" where
  "index_ignoreRefs env this [] w = Some (Normal w)"
| "index_ignoreRefs env this ((i, ref) # refs) w =
     (case findSuperSymbol (w_heap w) this (ref_name ref) None of
        None \<Rightarrow> None
      | Some (Inl e) \<Rightarrow> Some (Throw e w)
      | Some (Inr None) \<Rightarrow> index_ignoreRefs env this refs w
      | Some (Inr (Some symbol)) \<Rightarrow>
          index_ignoreRefs env this refs (UCSymbolReference_setReference env this i symbol w))"

text \<open>
  The \<^verbatim>\<open>index\<close> methods of the sources call each other: \<^verbatim>\<open>UCStateSymbol.index\<close> calls
  \<^verbatim>\<open>UCStructSymbol.index\<close> (its \<^verbatim>\<open>super.index\<close>), whose loop calls
  \<^verbatim>\<open>child.index(document, this)\<close> for every child, and that call is
  \<^verbatim>\<open>UCStateSymbol.index\<close> again when the child is a state. They are one recursive
  function of the call that is made:

  \<^item> \<open>StateIndex this context\<close> is \<^verbatim>\<open>UCStateSymbol.index(document, context)\<close>;
  \<^item> \<open>StructIndex this context\<close> is \<^verbatim>\<open>UCStructSymbol.index(document, context)\<close>;
  \<^item> \<open>ChildrenLoop this child\<close> is the \<^verbatim>\<open>for\<close> loop of \<^verbatim>\<open>UCStructSymbol.index\<close>
    from \<open>child\<close> on; it reads \<^verbatim>\<open>child.next\<close> after the child was indexed, and what
    the child's \<^verbatim>\<open>index\<close> throws is caught and logged, so the loop goes on either way;
  \<^item> \<open>ChildIndex child context\<close> is \<^verbatim>\<open>child.index(document, this)\<close>, dispatched on the
    class of the child.

  \<open>None\<close> is a call that never returns.
\<close>

datatype IndexCall =
    StateIndex sid sid
  | StructIndex sid sid
  | ChildrenLoop sid "sid option"
  | ChildIndex sid sid

partial_function (option) index_call :: "Env \<Rightarrow> IndexCall \<Rightarrow> World \<Rightarrow> World completion option" where
  "index_call env call w =
     (case call of
        StateIndex this context \<Rightarrow>
          (case UCStateSymbol_index_override env this context w of
             None \<Rightarrow> None
           | Some (Throw e w1) \<Rightarrow> Some (Throw e w1)
           | Some (Normal w1) \<Rightarrow>
               Option.bind (index_call env (StructIndex this context) w1)
                 (\<lambda>r. case r of
                    Throw e w2 \<Rightarrow> Some (Throw e w2)
                  | Normal w2 \<Rightarrow>
                      (case ignoreRefs (w_heap w2 this) of
                         None \<Rightarrow> Some (Normal w2)
                       | Some refs \<Rightarrow> index_ignoreRefs env this (enumerate 0 refs) w2)))
      | StructIndex this context \<Rightarrow>
          (let w0 = UCFieldSymbol_index env this context w
           in case UCStructSymbol_index_extends env this context w0 of
                None \<Rightarrow> None
              | Some (Throw e w1) \<Rightarrow> Some (Throw e w1)
              | Some (Normal w1) \<Rightarrow>
                  index_call env (ChildrenLoop this (children (w_heap w1 this))) w1)
      | ChildrenLoop this child \<Rightarrow>
          (case child of
             None \<Rightarrow> Some (Normal w)
           | Some c \<Rightarrow>
               Option.bind (index_call env (ChildIndex c this) w)
                 (\<lambda>r. index_call env (ChildrenLoop this (nextSym (w_heap (state_of r) c)))
                        (state_of r)))
      | ChildIndex child context \<Rightarrow>
          if sym_class (w_heap w child) = UCStateSymbol
          then index_call env (StateIndex child context) w
          else Some (Normal (child_index env child context w)))"

declare index_call.simps [code]

text \<open>\<^verbatim>\<open>UCStructSymbol.index(document, context)\<close> and its loop over the children.\<close>

definition UCStructSymbol_index :: "Env \<Rightarrow> sid \<Rightarrow> sid \<Rightarrow> World \<Rightarrow> World completion option" where
  "UCStructSymbol_index env this context w = index_call env (StructIndex this context) w"

definition index_children ::
  "Env \<Rightarrow> sid \<Rightarrow> sid option \<Rightarrow> World \<Rightarrow> World completion option" where
  "index_children env this child w = index_call env (ChildrenLoop this child) w"

text \<open>\<^verbatim>\<open>UCStateSymbol.index(document, context)\<close>.\<close>

definition UCStateSymbol_index :: "Env \<Rightarrow> sid \<Rightarrow> sid \<Rightarrow> World \<Rightarrow> World completion option" where
  "UCStateSymbol_index env this context w = index_call env (StateIndex this context) w"

subsection \<open>Notions of the statements\<close>

text \<open>The diagnostics that the analysis of a type reference adds, by the same cases.\<close>

fun type_diagnostics :: "heap \<Rightarrow> ITypeSymbol \<Rightarrow> IDiagnosticNode list" where
  "type_diagnostics h (ObjectType ident rng kind ref base) =
     (case base of None \<Rightarrow> [] | Some b \<Rightarrow> type_diagnostics h b) @
     (let this = ObjectType ident rng kind ref base
      in case ref of
           None \<Rightarrow> [UnrecognizedTypeNode this]
         | Some symbol \<Rightarrow>
             if kind = Some TK_Class \<and> sym_class (h symbol) \<noteq> UCClassSymbol
             then [SemanticErrorNode this ''Expected a class!'']
             else if kind = Some TK_State \<and> sym_class (h symbol) \<noteq> UCStateSymbol
             then [SemanticErrorNode this ''Expected a state!'']
             else if kind = Some TK_Enum \<and> sym_class (h symbol) \<noteq> UCEnumSymbol
             then [SemanticErrorNode this ''Expected an enum!'']
             else if kind = Some TK_Struct \<and> sym_class (h symbol) \<noteq> UCScriptStructSymbol
             then [SemanticErrorNode this ''Expected a struct!'']
             else [])"
| "type_diagnostics h (QualifiedType t l) =
     (case l of None \<Rightarrow> [] | Some lft \<Rightarrow> type_diagnostics h lft) @ type_diagnostics h t"

text \<open>The state with further nodes at the end of the document's list.\<close>

definition append_nodes :: "IDiagnosticNode list \<Rightarrow> World \<Rightarrow> World" where
  "append_nodes ns w = w\<lparr>w_document := (w_document w)\<lparr>nodes := nodes (w_document w) @ ns\<rparr>\<rparr>"

text \<open>The diagnostics that one run of the analysis adds to a document.\<close>

definition analysis_diagnostics :: "ITypeSymbol list \<Rightarrow> World \<Rightarrow> IDiagnosticNode list" where
  "analysis_diagnostics visited w =
     (case doc_class (w_document w) of
        None \<Rightarrow> []
      | Some c \<Rightarrow> concat (map (type_diagnostics (w_heap w)) visited))"

text \<open>
  Code that is not part of the sources leaves the \<^verbatim>\<open>super\<close> and \<^verbatim>\<open>overriddenState\<close>
  of the symbol \<open>this\<close> as they are.
\<close>

definition keeps_links :: "(sid \<Rightarrow> sid \<Rightarrow> World \<Rightarrow> World) \<Rightarrow> sid \<Rightarrow> bool" where
  "keeps_links f this =
     (\<forall>c x v. super (w_heap (f c x v) this) = super (w_heap v this)
            \<and> overriddenState (w_heap (f c x v) this) = overriddenState (w_heap v this))"

text \<open>Code that is not part of the sources leaves the object store as it is.\<close>

definition keeps_store :: "(sid \<Rightarrow> sid \<Rightarrow> World \<Rightarrow> World) \<Rightarrow> bool" where
  "keeps_store f = (\<forall>c x v. w_heap (f c x v) = w_heap v)"

text \<open>What \<^verbatim>\<open>getSymbol\<close> and \<^verbatim>\<open>findSuperSymbol\<close> read of an object.\<close>

definition lookup_fields ::
  "UCSymbol \<Rightarrow> SymbolClass \<times> Name \<times> UCTypeFlags \<times> sid option \<times> sid option \<times> sid option \<times> sid option" where
  "lookup_fields s = (sym_class s, id_name s, getTypeFlags s, children s, nextSym s, super s, outer s)"

section \<open>Example objects\<close>

definition blank_heap :: heap where
  "blank_heap = (\<lambda>_. new_symbol UCPackage (Name 0 []) DEFAULT_RANGE 0)"

text \<open>
  Class \<open>Child\<close> (object 1) extends class \<open>Base\<close> (object 2); each declares a property
  \<open>Health\<close> (objects 3 and 4); objects 5 and 6 are properties not yet declared anywhere.
\<close>

definition shadow_heap :: heap where
  "shadow_heap = blank_heap
     (1 := (new_symbol UCClassSymbol (Name 1 ''Child'') (Range (Position 0 6) (Position 0 11)) 1)
             \<lparr>children := Some 3, super := Some 2\<rparr>,
      2 := (new_symbol UCClassSymbol (Name 2 ''Base'') (Range (Position 0 6) (Position 0 10)) 1)
             \<lparr>children := Some 4\<rparr>,
      3 := (new_symbol UCPropertySymbol (Name 3 ''Health'') (Range (Position 1 8) (Position 1 14)) 2)
             \<lparr>outer := Some 1, containingStruct := Some 1\<rparr>,
      4 := (new_symbol UCPropertySymbol (Name 3 ''Health'') (Range (Position 1 8) (Position 1 14)) 2)
             \<lparr>outer := Some 2, containingStruct := Some 2\<rparr>,
      5 := new_symbol UCPropertySymbol (Name 3 ''Health'') (Range (Position 2 8) (Position 2 14)) 2,
      6 := new_symbol UCPropertySymbol (Name 4 ''Armor'') (Range (Position 3 8) (Position 3 13)) 2)"

text \<open>
  The same classes, but \<open>Child\<close> declares a state \<open>Health\<close> (object 3, type flags 8)
  where \<open>Base\<close> declares the property \<open>Health\<close> (object 4, type flags 2).
\<close>

definition kind_heap :: heap where
  "kind_heap = shadow_heap
     (3 := (new_symbol UCStateSymbol (Name 3 ''Health'') (Range (Position 1 6) (Position 1 12)) 8)
             \<lparr>outer := Some 1, containingStruct := Some 1\<rparr>)"

text \<open>
  The document of \<open>Child.uc\<close> after indexing: it refers to \<open>Base.Foo\<close> and to \<open>Base\<close>;
  another document refers to \<open>Base.Foo\<close> as well.
\<close>

definition ref_in_Child :: ISymbolReference where
  "ref_in_Child = \<lparr>ref_oid = 1, location_uri = ''Child.uc'',
     location_range = Range (Position 2 4) (Position 2 7), ref_symbol = Some (Name 7 ''Foo'')\<rparr>"

definition ref_in_Other :: ISymbolReference where
  "ref_in_Other = \<lparr>ref_oid = 2, location_uri = ''Other.uc'',
     location_range = Range (Position 5 0) (Position 5 3), ref_symbol = Some (Name 7 ''Foo'')\<rparr>"

definition ref_to_Base :: ISymbolReference where
  "ref_to_Base = \<lparr>ref_oid = 3, location_uri = ''Child.uc'',
     location_range = Range (Position 0 20) (Position 0 24), ref_symbol = Some (Name 2 ''Base'')\<rparr>"

definition Child_document :: UCDocument where
  "Child_document = \<lparr>doc_uri = ''Child.uc'', doc_class = Some 1, nodes = [],
     indexReferencesMade = [(''Base.Foo'', {ref_in_Child}), (''Base'', {ref_to_Base})]\<rparr>"

definition example_index :: ReferenceIndex where
  "example_index = [''Base.Foo'' \<mapsto> {ref_in_Child, ref_in_Other}, ''Base'' \<mapsto> {ref_to_Base}]"

text \<open>An intrinsic class and an operator, as rename targets.\<close>

definition intrinsic_property :: UCSymbol where
  "intrinsic_property = new_symbol UCPropertySymbol (Name 8 ''Tag'') DEFAULT_RANGE 2"

definition operator_method :: UCSymbol where
  "operator_method =
     new_symbol UCMethodSymbol (Name 9 ''+='') (Range (Position 4 24) (Position 4 26)) 4"

text \<open>
  The enum of the repository's test \<open>EnumTest.uc\<close>, declared in class \<open>EnumTest\<close>
  (object 1): \<^verbatim>\<open>enum EEnumTest { ET_None, ET_Other }\<close>, and the name \<open>EnumCount\<close>.
\<close>

definition NAME_ENUMCOUNT :: Name where
  "NAME_ENUMCOUNT = Name 100 ''EnumCount''"

definition EnumTest_builder :: Builder where
  "EnumTest_builder =
     \<lparr>b_heap = blank_heap(1 := new_symbol UCClassSymbol (Name 10 ''EnumTest'')
                                  (Range (Position 0 6) (Position 0 14)) 1),
      b_fresh = 2, b_context = [1], classPackage = 0, EnumMemberMap = Map.empty\<rparr>"

definition EEnumTest_decl :: EnumDeclContext where
  "EEnumTest_decl =
     \<lparr>enum_identifier = Some (Name 11 ''EEnumTest'', Range (Position 2 5) (Position 2 14)),
      enumMember =
        [\<lparr>member_identifier = Name 12 ''ET_None'', member_start = Range (Position 3 4) (Position 3 11)\<rparr>,
         \<lparr>member_identifier = Name 13 ''ET_Other'', member_start = Range (Position 4 4) (Position 4 12)\<rparr>]\<rparr>"

definition EnumTest_built :: heap where
  "EnumTest_built = b_heap (enterEnumDecl (\<lambda>p s h. h) (\<lambda>c. 0) EEnumTest_decl EnumTest_builder)"


text \<open>
  An expression that records the type flags it is indexed with and then sets the
  shared \<^verbatim>\<open>typeFlags\<close> to 7; a block of two such statements around an empty slot.
\<close>

definition probe :: "UCTypeFlags option list IExpression" where
  "probe = IExpression
     (\<lambda>seen info. (seen @ [case info of None \<Rightarrow> None | Some i \<Rightarrow> typeFlags i],
                    IContextInfo (Some 7)))
     (\<lambda>seen. None)"

definition probe_block :: "UCTypeFlags option list IStatement" where
  "probe_block = UCBlock [Some (UCExpressionStatement (Some probe)), None,
                          Some (UCExpressionStatement (Some probe))]"

text \<open>
  Class \<open>Pickup\<close> (object 10) with the states \<open>Idle\<close> (11) and \<open>Sleeping\<close> (13), and
  class \<open>Ammo\<close> (20), which extends \<open>Pickup\<close> and declares a state \<open>Idle\<close> (21) of its
  own. In \<open>extends_heap\<close> that state is declared \<^verbatim>\<open>state Idle extends Sleeping\<close>; in
  \<open>linked_heap\<close> it is linked to the state it overrides; in \<open>unlinked_heap\<close> the class
  \<open>Ammo\<close> is not yet indexed. In \<open>shadowed_heap\<close> the state \<open>Idle\<close> is declared by
  \<open>Inventory\<close> (30, 31), the super class of \<open>Pickup\<close>, and \<open>Pickup\<close> declares a property
  \<open>Idle\<close> (14) instead.
\<close>

definition link_heap :: heap where
  "link_heap = blank_heap
     (10 := (new_symbol UCClassSymbol (Name 30 ''Pickup'') (Range (Position 0 6) (Position 0 12)) 1)
              \<lparr>children := Some 11\<rparr>,
      11 := (new_symbol UCStateSymbol (Name 31 ''Idle'') (Range (Position 2 6) (Position 2 10)) 8)
              \<lparr>outer := Some 10, containingStruct := Some 10, nextSym := Some 13\<rparr>,
      13 := (new_symbol UCStateSymbol (Name 32 ''Sleeping'') (Range (Position 1 6) (Position 1 14)) 8)
              \<lparr>outer := Some 10, containingStruct := Some 10\<rparr>,
      20 := (new_symbol UCClassSymbol (Name 33 ''Ammo'') (Range (Position 0 6) (Position 0 10)) 1)
              \<lparr>children := Some 21, super := Some 10,
               extendsType := Some (ObjectType (Name 30 ''Pickup'')
                                     (Range (Position 0 19) (Position 0 25)) (Some TK_Class)
                                     (Some 10) None)\<rparr>,
      21 := (new_symbol UCStateSymbol (Name 31 ''Idle'') (Range (Position 1 6) (Position 1 10)) 8)
              \<lparr>outer := Some 20, containingStruct := Some 20\<rparr>)"

definition extends_heap :: heap where
  "extends_heap = link_heap
     (21 := (link_heap 21)\<lparr>extendsType :=
        Some (ObjectType (Name 32 ''Sleeping'') (Range (Position 1 19) (Position 1 27))
                (Some TK_State) None None)\<rparr>)"

definition shadowed_heap :: heap where
  "shadowed_heap = link_heap
     (10 := (link_heap 10)\<lparr>children := Some 14, super := Some 30\<rparr>,
      14 := (new_symbol UCPropertySymbol (Name 31 ''Idle'') (Range (Position 1 8) (Position 1 12)) 2)
              \<lparr>outer := Some 10, containingStruct := Some 10\<rparr>,
      30 := (new_symbol UCClassSymbol (Name 34 ''Inventory'') (Range (Position 0 6) (Position 0 15)) 1)
              \<lparr>children := Some 31\<rparr>,
      31 := (new_symbol UCStateSymbol (Name 31 ''Idle'') (Range (Position 2 6) (Position 2 10)) 8)
              \<lparr>outer := Some 30, containingStruct := Some 30\<rparr>)"

text \<open>
  The classes of \<open>link_heap\<close>, where the state \<open>Idle\<close> of \<open>Ammo\<close> declares a function
  \<open>Touch\<close> (22) and has the clause \<^verbatim>\<open>ignores Touch, Bump;\<close>.
\<close>

definition member_heap :: heap where
  "member_heap = link_heap
     (21 := (link_heap 21)\<lparr>children := Some 22,
               ignoreRefs := Some [SymbolReference (Name 35 ''Touch'')
                                     (Range (Position 2 12) (Position 2 17)) None,
                                   SymbolReference (Name 36 ''Bump'')
                                     (Range (Position 2 19) (Position 2 23)) None]\<rparr>,
      22 := (new_symbol UCMethodSymbol (Name 35 ''Touch'') (Range (Position 3 13) (Position 3 18)) 4)
              \<lparr>outer := Some 21, containingStruct := Some 21\<rparr>)"

text \<open>
  The same with the class \<open>Ammo\<close> as the builder leaves it: its extends clause is not
  resolved and its \<^verbatim>\<open>super\<close> is not set.
\<close>

definition fresh_heap :: heap where
  "fresh_heap = member_heap
     (20 := (member_heap 20)\<lparr>super := None,
        extendsType := Some (ObjectType (Name 30 ''Pickup'') (Range (Position 0 19) (Position 0 25))
                               (Some TK_Class) None None)\<rparr>)"

definition Ammo_document :: UCDocument where
  "Ammo_document = \<lparr>doc_uri = ''Ammo.uc'', doc_class = Some 20, nodes = [],
                     indexReferencesMade = []\<rparr>"

definition world_of :: "heap \<Rightarrow> World" where
  "world_of h = \<lparr>w_heap = h, w_document = Ammo_document, w_index = Map.empty, w_oid = 0\<rparr>"

definition plain_env :: Env where
  "plain_env =
     \<lparr>PackagesTable_findSymbol = (\<lambda>name deep. None),
      SymbolsTable_findSymbol = (\<lambda>name deep. if name = Name 30 ''Pickup'' then Some 10 else None),
      getHash = (\<lambda>symbol. toString (id_name symbol)),
      filePath = (\<lambda>document. ''Classes/'' @ doc_uri document),
      UCFieldSymbol_index = (\<lambda>this ctx w. w),
      child_index = (\<lambda>child ctx w. w)\<rparr>"

definition linked_heap :: heap where
  "linked_heap = extends_heap
     (21 := (extends_heap 21)\<lparr>overriddenState := Some 11, super := Some 11\<rparr>)"

definition unlinked_heap :: heap where
  "unlinked_heap = link_heap
     (20 := (link_heap 20)\<lparr>super := None,
        extendsType := Some (ObjectType (Name 30 ''Pickup'') (Range (Position 0 19) (Position 0 25))
                               (Some TK_Class) None None)\<rparr>)"

text \<open>The tables with a package that has the name of the class \<open>Pickup\<close>.\<close>

definition table_env :: Env where
  "table_env = plain_env\<lparr>PackagesTable_findSymbol :=
     (\<lambda>name deep. if name = Name 30 ''Pickup'' \<and> \<not> deep then Some 50 else None)\<rparr>"

text \<open>A type reference that no symbol resolves, in the document of \<open>Child.uc\<close>.\<close>

definition unresolved_type :: ITypeSymbol where
  "unresolved_type = ObjectType (Name 20 ''Foo'') (Range (Position 3 4) (Position 3 7)) None None None"

definition analysis_world :: World where
  "analysis_world = \<lparr>w_heap = shadow_heap, w_document = Child_document, w_index = example_index,
                      w_oid = 4\<rparr>"

section \<open>Theorems\<close>

subsection \<open>Children chains\<close>

lemma chain_None: "chain h None = Some []"
  by (subst chain.simps) simp

lemma chain_Some: "chain h (Some c) = Option.bind (chain h (nextSym (h c))) (\<lambda>cs. Some (c # cs))"
  by (subst chain.simps) simp

lemma chain_next_cong:
  "chain h start = Some cs \<Longrightarrow> \<forall>c\<in>set cs. nextSym (h' c) = nextSym (h c) \<Longrightarrow> chain h' start = Some cs"
proof (induction cs arbitrary: start)
  case Nil
  then show ?case by (cases start) (auto simp: chain_None chain_Some split: Option.bind_splits)
next
  case (Cons a cs)
  then show ?case
    by (cases start) (auto simp: chain_None chain_Some split: Option.bind_splits)
qed

lemma chain_suffix:
  "chain h start = Some cs \<Longrightarrow> a \<in> set cs \<Longrightarrow>
   \<exists>pre suf. cs = pre @ a # suf \<and> chain h (Some a) = Some (a # suf)"
proof (induction cs arbitrary: start)
  case Nil
  then show ?case by simp
next
  case (Cons b cs)
  then obtain start: "start = Some b" and rest: "chain h (nextSym (h b)) = Some cs"
    by (cases start) (auto simp: chain_None chain_Some split: Option.bind_splits)
  show ?case
  proof (cases "a = b")
    case True
    with Cons.prems(1) start have "b # cs = [] @ a # cs \<and> chain h (Some a) = Some (a # cs)" by simp
    then show ?thesis by blast
  next
    case False
    with Cons.prems(2) have "a \<in> set cs" by simp
    from Cons.IH [OF rest this] obtain pre suf where "cs = pre @ a # suf"
      and "chain h (Some a) = Some (a # suf)" by blast
    then have "b # cs = (b # pre) @ a # suf \<and> chain h (Some a) = Some (a # suf)" by simp
    then show ?thesis by blast
  qed
qed

lemma chain_distinct: "chain h start = Some cs \<Longrightarrow> distinct cs"
proof (induction cs arbitrary: start)
  case Nil
  show ?case by simp
next
  case (Cons b cs)
  then obtain start: "start = Some b" and rest: "chain h (nextSym (h b)) = Some cs"
    by (cases start) (auto simp: chain_None chain_Some split: Option.bind_splits)
  have "b \<notin> set cs"
  proof
    assume "b \<in> set cs"
    from chain_suffix [OF rest this] obtain pre suf where cs: "cs = pre @ b # suf"
      and "chain h (Some b) = Some (b # suf)" by blast
    with Cons.prems start have "b # cs = b # suf" by simp
    with cs show False by simp
  qed
  with Cons.IH [OF rest] show ?case by simp
qed

lemma addSymbol_this_children: "children (addSymbol this x h this) = Some x"
  by (simp add: addSymbol_def Let_def)

lemma addSymbol_next_new: "nextSym (addSymbol this x h x) = children (h this)"
  by (simp add: addSymbol_def Let_def)

lemma addSymbol_next_other: "c \<noteq> x \<Longrightarrow> nextSym (addSymbol this x h c) = nextSym (h c)"
  by (simp add: addSymbol_def Let_def)

lemma addSymbol_name: "id_name (addSymbol this x h c) = id_name (h c)"
  by (simp add: addSymbol_def Let_def)

lemma addSymbol_flags: "getTypeFlags (addSymbol this x h c) = getTypeFlags (h c)"
  by (simp add: addSymbol_def Let_def)

lemma addSymbol_chain:
  assumes "chain h (children (h this)) = Some cs" and "x \<notin> set cs"
  shows "chain (addSymbol this x h) (children (addSymbol this x h this)) = Some (x # cs)"
proof -
  have "\<forall>c\<in>set cs. nextSym (addSymbol this x h c) = nextSym (h c)"
    using assms(2) by (auto intro!: addSymbol_next_other)
  with assms(1) have "chain (addSymbol this x h) (children (h this)) = Some cs"
    by (rule chain_next_cong)
  then show ?thesis
    by (simp add: addSymbol_this_children chain_Some addSymbol_next_new)
qed

lemma fold_addSymbol_chain:
  "chain h (children (h this)) = Some cs \<Longrightarrow> distinct xs \<Longrightarrow> set xs \<inter> set cs = {} \<Longrightarrow>
   chain (fold (addSymbol this) xs h) (children (fold (addSymbol this) xs h this)) = Some (rev xs @ cs)"
proof (induction xs arbitrary: h cs)
  case Nil
  then show ?case by simp
next
  case (Cons x xs)
  have "chain (addSymbol this x h) (children (addSymbol this x h this)) = Some (x # cs)"
    using Cons.prems by (intro addSymbol_chain) auto
  from Cons.IH [OF this] Cons.prems show ?case by auto
qed

lemma remove_after_add:
  "removeSymbol this x (addSymbol this x h) =
     Some (h(x := (h x)\<lparr>outer := Some this, nextSym := None, containingStruct := Some this\<rparr>))"
  by (cases "x = this") (auto simp: removeSymbol_def addSymbol_def Let_def fun_eq_iff)

lemma getSymbol_after_add:
  "\<not> kind_excludes kind (getTypeFlags (h x)) \<Longrightarrow>
   getSymbol (addSymbol this x h) this (id_name (h x)) kind = Some (Some x)"
  unfolding getSymbol_def addSymbol_this_children
  by (subst getSymbol_loop.simps) (simp add: addSymbol_name addSymbol_flags)

lemma getSymbol_loop_find:
  "chain h start = Some cs \<Longrightarrow>
   getSymbol_loop h start ident kind =
     Some (find (\<lambda>c. id_name (h c) = ident \<and> \<not> kind_excludes kind (getTypeFlags (h c))) cs)"
proof (induction cs arbitrary: start)
  case Nil
  then show ?case
    by (cases start) (auto simp: chain_None chain_Some getSymbol_loop.simps split: Option.bind_splits)
next
  case (Cons a cs)
  then obtain "start = Some a" and "chain h (nextSym (h a)) = Some cs"
    by (cases start) (auto simp: chain_None chain_Some split: Option.bind_splits)
  with Cons.IH [of "nextSym (h a)"] show ?case
    by (subst getSymbol_loop.simps) auto
qed

lemma findSuperSymbol_local:
  assumes "instanceof_UCStructSymbol (sym_class (h this))"
    and "getSymbol h this ident kind = Some (Some c)"
  shows "findSuperSymbol h this ident kind = Some (Inr (Some c))"
  using assms by (subst findSuperSymbol.simps) simp

lemma findSuperSymbol_inherited:
  assumes "instanceof_UCStructSymbol (sym_class (h this))"
    and "getSymbol h this ident kind = Some None"
    and "super (h this) = Some parent"
    and "findSuperSymbol h parent ident kind = Some (Inr (Some c))"
  shows "findSuperSymbol h this ident kind = Some (Inr (Some c))"
  using assms by (subst findSuperSymbol.simps) simp

lemma getSymbol_find:
  "chain h (children (h this)) = Some cs \<Longrightarrow>
   getSymbol h this ident kind =
     Some (find (\<lambda>c. id_name (h c) = ident \<and> \<not> kind_excludes kind (getTypeFlags (h c))) cs)"
  unfolding getSymbol_def by (rule getSymbol_loop_find)

lemma findSuperSymbol_absent:
  assumes "instanceof_UCStructSymbol (sym_class (h this))"
    and "sym_class (h this) \<noteq> UCStateSymbol"
    and "getSymbol h this ident kind = Some None"
    and "super (h this) = None"
  shows "findSuperSymbol h this ident kind = Some (Inr None)"
  using assms by (subst findSuperSymbol.simps) simp

lemma findSuperSymbol_inherited_absent:
  assumes "instanceof_UCStructSymbol (sym_class (h this))"
    and "sym_class (h this) \<noteq> UCStateSymbol"
    and "getSymbol h this ident kind = Some None"
    and "super (h this) = Some parent"
    and "findSuperSymbol h parent ident kind = Some (Inr None)"
  shows "findSuperSymbol h this ident kind = Some (Inr None)"
  using assms by (subst findSuperSymbol.simps) simp

lemma shadow_heap_chain_Child: "chain shadow_heap (children (shadow_heap 1)) = Some [3]"
  by (simp add: shadow_heap_def blank_heap_def new_symbol_def chain_Some chain_None)

subsection \<open>Rename preparation\<close>

text \<open>
  C7. A rename preparation on a class symbol, on an intrinsic symbol (identifier range
  \<^verbatim>\<open>DEFAULT_RANGE\<close>) or on a symbol whose name is not a valid identifier is rejected
  with a \<^verbatim>\<open>ResponseError\<close> that carries a message; no range is returned.
\<close>

theorem onPrepareRename_rejects:
  assumes "sym_class symbol = UCClassSymbol \<or> id_range symbol = DEFAULT_RANGE
           \<or> \<not> VALID_ID_REGEXP_test (toString (id_name symbol))"
  shows "(\<exists>code msg. onPrepareRename UCTypeFlags_Error (Some symbol) = Inl (ResponseError code msg)
                     \<and> msg \<noteq> [])
         \<and> (\<forall>r. onPrepareRename UCTypeFlags_Error (Some symbol) \<noteq> Inr r)"
  using assms by (auto simp: onPrepareRename_def)

theorem onPrepareRename_rejects_witness:
  "sym_class (shadow_heap 1) = UCClassSymbol
   \<and> onPrepareRename 0 (Some (shadow_heap 1))
       = Inl (ResponseError InvalidRequest ''You cannot rename a class!'')
   \<and> id_range intrinsic_property = DEFAULT_RANGE
   \<and> onPrepareRename 0 (Some intrinsic_property)
       = Inl (ResponseError InvalidRequest ''You cannot rename this element!'')
   \<and> \<not> VALID_ID_REGEXP_test (toString (id_name operator_method))
   \<and> onPrepareRename 0 (Some operator_method)
       = Inl (ResponseError InvalidParams ''You cannot rename this element!'')"
proof -
  have a: "sym_class (shadow_heap 1) = UCClassSymbol"
    by (simp add: shadow_heap_def new_symbol_def)
  have b: "id_range intrinsic_property = DEFAULT_RANGE"
    by (simp add: intrinsic_property_def new_symbol_def)
  have c: "\<not> VALID_ID_REGEXP_test (toString (id_name operator_method))"
    by (simp add: operator_method_def new_symbol_def is_id_start_def)
  have "\<forall>r. onPrepareRename 0 (Some (shadow_heap 1)) \<noteq> Inr r"
    using onPrepareRename_rejects [of "shadow_heap 1" 0] a by simp
  moreover have "\<forall>r. onPrepareRename 0 (Some intrinsic_property) \<noteq> Inr r"
    using onPrepareRename_rejects [of intrinsic_property 0] b by simp
  moreover have "\<forall>r. onPrepareRename 0 (Some operator_method) \<noteq> Inr r"
    using onPrepareRename_rejects [of operator_method 0] c by simp
  moreover have "onPrepareRename 0 (Some (shadow_heap 1))
       = Inl (ResponseError InvalidRequest ''You cannot rename a class!'')"
    by (simp add: onPrepareRename_def shadow_heap_def new_symbol_def instanceof_UCFieldSymbol_def
        instanceof_UCStructSymbol_def)
  moreover have "onPrepareRename 0 (Some intrinsic_property)
       = Inl (ResponseError InvalidRequest ''You cannot rename this element!'')"
    by (simp add: onPrepareRename_def intrinsic_property_def new_symbol_def
        instanceof_UCFieldSymbol_def instanceof_UCStructSymbol_def)
  moreover have "onPrepareRename 0 (Some operator_method)
       = Inl (ResponseError InvalidParams ''You cannot rename this element!'')"
    by (simp add: onPrepareRename_def operator_method_def new_symbol_def is_id_start_def
        instanceof_UCFieldSymbol_def instanceof_UCStructSymbol_def)
  ultimately show ?thesis using a b c by simp
qed

subsection \<open>Adding and removing children\<close>

text \<open>
  C10. Let the children chain of \<open>this\<close> be \<open>cs\<close> and \<open>x\<close> a symbol that is not in it.
  \<^verbatim>\<open>addSymbol(x)\<close> followed by \<^verbatim>\<open>removeSymbol(x)\<close> returns, and it leaves every
  object but \<open>x\<close> as it was (\<open>x\<close> keeps its new \<^verbatim>\<open>outer\<close> and has no \<^verbatim>\<open>next\<close>), so
  the head of the chain and the chain itself are the prior ones. \<^verbatim>\<open>addSymbol\<close> puts
  \<open>x\<close> at the head of the chain; adding the symbols \<open>xs\<close> in declaration order makes
  the enumeration visit them in reverse order, before the old children; and a lookup
  of the name of \<open>x\<close> right after \<open>x\<close> was added finds \<open>x\<close>.
\<close>

theorem addSymbol_removeSymbol_chain:
  assumes "chain h (children (h this)) = Some cs" and "x \<notin> set cs"
    and "distinct xs" and "set xs \<inter> set cs = {}"
  shows "(\<exists>h'. removeSymbol this x (addSymbol this x h) = Some h'
            \<and> h' = h(x := (h x)\<lparr>outer := Some this, nextSym := None, containingStruct := Some this\<rparr>)
            \<and> children (h' this) = children (h this)
            \<and> chain h' (children (h' this)) = Some cs)
       \<and> chain (addSymbol this x h) (children (addSymbol this x h this)) = Some (x # cs)
       \<and> chain (fold (addSymbol this) xs h) (children (fold (addSymbol this) xs h this))
           = Some (rev xs @ cs)
       \<and> getSymbol (addSymbol this x h) this (id_name (h x)) None = Some (Some x)"
proof -
  let ?h' = "h(x := (h x)\<lparr>outer := Some this, nextSym := None, containingStruct := Some this\<rparr>)"
  have c: "children (?h' this) = children (h this)" by simp
  have "\<forall>c\<in>set cs. nextSym (?h' c) = nextSym (h c)"
    using assms(2) by auto
  with assms(1) have "chain ?h' (children (h this)) = Some cs"
    by (rule chain_next_cong)
  with c have "chain ?h' (children (?h' this)) = Some cs" by simp
  moreover have "getSymbol (addSymbol this x h) this (id_name (h x)) None = Some (Some x)"
    by (rule getSymbol_after_add) (simp add: kind_excludes_def)
  ultimately show ?thesis
    using addSymbol_chain [OF assms(1,2)] fold_addSymbol_chain [OF assms(1,3,4)] c
    by (simp add: remove_after_add)
qed

theorem addSymbol_removeSymbol_chain_witness:
  "chain shadow_heap (children (shadow_heap 1)) = Some [3] \<and> 5 \<notin> set [3::nat]
   \<and> distinct [5, 6::nat] \<and> set [5, 6] \<inter> set [3::nat] = {}
   \<and> removeSymbol 1 5 (addSymbol 1 5 shadow_heap)
       = Some (shadow_heap(5 := (shadow_heap 5)\<lparr>outer := Some 1, nextSym := None,
                                                 containingStruct := Some 1\<rparr>))
   \<and> chain (addSymbol 1 5 shadow_heap) (children (addSymbol 1 5 shadow_heap 1)) = Some [5, 3]
   \<and> chain (fold (addSymbol 1) [5, 6] shadow_heap)
        (children (fold (addSymbol 1) [5, 6] shadow_heap 1)) = Some [6, 5, 3]
   \<and> getSymbol (addSymbol 1 5 shadow_heap) 1 (Name 3 ''Health'') None = Some (Some 5)"
proof -
  have n: "id_name (shadow_heap 5) = Name 3 ''Health''"
    by (simp add: shadow_heap_def new_symbol_def)
  show ?thesis
    using addSymbol_removeSymbol_chain [of shadow_heap 1 "[3]" 5 "[5, 6]"] shadow_heap_chain_Child n
    by auto
qed

subsection \<open>Shadowing\<close>

text \<open>
  C6, as the code has it. If the children chain \<open>cs\<close> of a struct symbol holds a child
  \<open>c\<close> of the name looked up, and \<^verbatim>\<open>findSuperSymbol\<close> is called without a kind or with
  a kind that the type flags of \<open>c\<close> match, then it returns a child of the struct's own
  chain: the first one of that name in \<open>cs\<close> that the kind admits. The \<^verbatim>\<open>super\<close> chain
  is not consulted, whatever it holds.
\<close>

theorem findSuperSymbol_shadowing:
  assumes "instanceof_UCStructSymbol (sym_class (h this))"
    and "chain h (children (h this)) = Some cs"
    and "c \<in> set cs" and "id_name (h c) = ident"
    and "\<not> kind_excludes kind (getTypeFlags (h c))"
  shows "\<exists>c'. findSuperSymbol h this ident kind = Some (Inr (Some c'))
            \<and> c' \<in> set cs \<and> id_name (h c') = ident
            \<and> find (\<lambda>c. id_name (h c) = ident \<and> \<not> kind_excludes kind (getTypeFlags (h c))) cs
                = Some c'"
proof -
  let ?P = "\<lambda>c. id_name (h c) = ident \<and> \<not> kind_excludes kind (getTypeFlags (h c))"
  from assms(3-5) obtain c' where f: "find ?P cs = Some c'"
    by (cases "find ?P cs") (auto simp: find_None_iff)
  then have "c' \<in> set cs" and "id_name (h c') = ident"
    by (auto simp: find_Some_iff)
  moreover have "getSymbol h this ident kind = Some (Some c')"
    using getSymbol_loop_find [OF assms(2), of ident kind] f by (simp add: getSymbol_def)
  then have "findSuperSymbol h this ident kind = Some (Inr (Some c'))"
    using assms(1) by (rule findSuperSymbol_local [rotated])
  ultimately show ?thesis using f by blast
qed

theorem findSuperSymbol_shadowing_witness:
  "instanceof_UCStructSymbol (sym_class (shadow_heap 1))
   \<and> chain shadow_heap (children (shadow_heap 1)) = Some [3]
   \<and> 3 \<in> set [3::nat] \<and> id_name (shadow_heap 3) = Name 3 ''Health''
   \<and> \<not> kind_excludes None (getTypeFlags (shadow_heap 3))
   \<and> id_name (shadow_heap 4) = Name 3 ''Health''
   \<and> super (shadow_heap 1) = Some 2 \<and> children (shadow_heap 2) = Some 4
   \<and> findSuperSymbol shadow_heap 1 (Name 3 ''Health'') None = Some (Inr (Some 3))"
proof -
  have a: "instanceof_UCStructSymbol (sym_class (shadow_heap 1))"
    by (simp add: shadow_heap_def new_symbol_def instanceof_UCStructSymbol_def)
  have b: "id_name (shadow_heap 3) = Name 3 ''Health''" "id_name (shadow_heap 4) = Name 3 ''Health''"
    "super (shadow_heap 1) = Some 2" "children (shadow_heap 2) = Some 4"
    by (simp_all add: shadow_heap_def new_symbol_def)
  have k: "\<not> kind_excludes None (getTypeFlags (shadow_heap 3))"
    by (simp add: kind_excludes_def)
  from findSuperSymbol_shadowing [OF a shadow_heap_chain_Child _ b(1) k]
  show ?thesis using a b k shadow_heap_chain_Child by auto
qed

lemma kind_heap_chains:
  "chain kind_heap (children (kind_heap 1)) = Some [3]"
  "chain kind_heap (children (kind_heap 2)) = Some [4]"
  by (simp_all add: kind_heap_def shadow_heap_def blank_heap_def new_symbol_def chain_Some chain_None)

text \<open>
  Without that condition the statement fails: \<^verbatim>\<open>getSymbol\<close> skips a child whose type
  flags do not match the kind. \<open>Child\<close> declares a state \<open>Health\<close> and inherits the
  property \<open>Health\<close> of \<open>Base\<close>; the lookup of \<open>Health\<close> without a kind returns the
  state of \<open>Child\<close>, the lookup with the kind 2 returns the property of \<open>Base\<close>.
\<close>

theorem findSuperSymbol_kind_skips_child:
  "instanceof_UCStructSymbol (sym_class (kind_heap 1))
   \<and> chain kind_heap (children (kind_heap 1)) = Some [3]
   \<and> id_name (kind_heap 3) = Name 3 ''Health''
   \<and> getTypeFlags (kind_heap 3) = 8
   \<and> super (kind_heap 1) = Some 2
   \<and> chain kind_heap (children (kind_heap 2)) = Some [4]
   \<and> id_name (kind_heap 4) = Name 3 ''Health''
   \<and> getTypeFlags (kind_heap 4) = 2
   \<and> findSuperSymbol kind_heap 1 (Name 3 ''Health'') None = Some (Inr (Some 3))
   \<and> findSuperSymbol kind_heap 1 (Name 3 ''Health'') (Some 2) = Some (Inr (Some 4))"
proof -
  have f: "sym_class (kind_heap 1) = UCClassSymbol" "sym_class (kind_heap 2) = UCClassSymbol"
    "id_name (kind_heap 3) = Name 3 ''Health''" "getTypeFlags (kind_heap 3) = 8"
    "id_name (kind_heap 4) = Name 3 ''Health''" "getTypeFlags (kind_heap 4) = 2"
    "super (kind_heap 1) = Some 2"
    by (simp_all add: kind_heap_def shadow_heap_def new_symbol_def)
  have s: "instanceof_UCStructSymbol (sym_class (kind_heap 1))"
    "instanceof_UCStructSymbol (sym_class (kind_heap 2))"
    using f(1,2) by (simp_all add: instanceof_UCStructSymbol_def)
  have g: "getSymbol kind_heap 1 (Name 3 ''Health'') None = Some (Some 3)"
    "getSymbol kind_heap 1 (Name 3 ''Health'') (Some 2) = Some None"
    "getSymbol kind_heap 2 (Name 3 ''Health'') (Some 2) = Some (Some 4)"
    unfolding getSymbol_def getSymbol_loop_find [OF kind_heap_chains(1)]
      getSymbol_loop_find [OF kind_heap_chains(2)]
    by (simp_all add: f kind_excludes_def)
  have own: "findSuperSymbol kind_heap 1 (Name 3 ''Health'') None = Some (Inr (Some 3))"
    using s(1) g(1) by (rule findSuperSymbol_local)
  have base: "findSuperSymbol kind_heap 2 (Name 3 ''Health'') (Some 2) = Some (Inr (Some 4))"
    using s(2) g(3) by (rule findSuperSymbol_local)
  have "findSuperSymbol kind_heap 1 (Name 3 ''Health'') (Some 2) = Some (Inr (Some 4))"
    using s(1) g(2) f(7) base by (rule findSuperSymbol_inherited)
  with own s f kind_heap_chains show ?thesis by simp
qed

subsection \<open>Invalidation\<close>

lemma recorded_Nil: "recorded [] key = {}"
  by (simp add: recorded_def)

lemma recorded_Cons:
  "recorded ((k, v) # made) key = (if k = key then v \<union> recorded made key else recorded made key)"
  by (simp add: recorded_def)

lemma recorded_absent: "key \<notin> fst ` set made \<Longrightarrow> recorded made key = {}"
  by (induction made) (auto simp: recorded_Nil recorded_Cons)

lemma retracted_Nil: "retracted [] G = G"
  by (auto simp: retracted_def recorded_Nil fun_eq_iff split: option.splits)

lemma retracted_Cons:
  "retracted ((k, v) # made) G = retracted made (unsetIndexedReferences k v G)"
  by (rule ext)
    (auto simp: retracted_def recorded_Cons recorded_absent unsetIndexedReferences_def
          split: option.splits if_splits)

lemma fold_unset_retracted:
  "fold (\<lambda>(key, refs). unsetIndexedReferences key refs) made G = retracted made G"
  by (induction made arbitrary: G) (auto simp: retracted_Nil retracted_Cons)

text \<open>
  C1. \<^verbatim>\<open>invalidate\<close> discards the class, clears the diagnostic nodes and the
  references-made map, and takes out of the global index exactly the records that the
  map recorded, key by key, deleting an entry that becomes empty. If the index was
  consistent for the document, no record located in the document is left in it.
\<close>

theorem invalidate_retracts_references:
  assumes "index_consistent d G"
  shows "invalidate d G =
           (d\<lparr>doc_class := None, nodes := [], indexReferencesMade := []\<rparr>,
            retracted (indexReferencesMade d) G)
         \<and> (\<forall>key refs r. snd (invalidate d G) key = Some refs \<and> r \<in> refs
               \<longrightarrow> location_uri r \<noteq> doc_uri d)"
proof -
  have eq: "invalidate d G =
           (d\<lparr>doc_class := None, nodes := [], indexReferencesMade := []\<rparr>,
            retracted (indexReferencesMade d) G)"
    by (simp add: invalidate_def fold_unset_retracted)
  have "location_uri r \<noteq> doc_uri d"
    if "retracted (indexReferencesMade d) G key = Some refs" and "r \<in> refs" for key refs r
  proof
    assume u: "location_uri r = doc_uri d"
    from that obtain refs0 where g: "G key = Some refs0"
      and r: "r \<in> refs0" "r \<notin> recorded (indexReferencesMade d) key"
      by (auto simp: retracted_def split: option.splits if_splits)
    with assms u show False by (auto simp: index_consistent_def)
  qed
  with eq show ?thesis by auto
qed

theorem invalidate_retracts_references_witness:
  "index_consistent Child_document example_index
   \<and> invalidate Child_document example_index =
       (Child_document\<lparr>doc_class := None, nodes := [], indexReferencesMade := []\<rparr>,
        [''Base.Foo'' \<mapsto> {ref_in_Other}])
   \<and> location_uri ref_in_Other \<noteq> doc_uri Child_document"
proof -
  have c: "index_consistent Child_document example_index"
    by (auto simp: index_consistent_def Child_document_def example_index_def recorded_def
        ref_in_Child_def ref_in_Other_def ref_to_Base_def split: if_splits)
  have r: "retracted (indexReferencesMade Child_document) example_index
             = [''Base.Foo'' \<mapsto> {ref_in_Other}]"
    by (rule ext)
      (auto simp: retracted_def Child_document_def example_index_def recorded_def
        ref_in_Child_def ref_in_Other_def ref_to_Base_def)
  have "location_uri ref_in_Other \<noteq> doc_uri Child_document"
    by (simp add: ref_in_Other_def Child_document_def)
  with invalidate_retracts_references [OF c] c r show ?thesis by simp
qed

subsection \<open>Enum declarations\<close>

lemma addSymbol_eq:
  "x \<noteq> this \<Longrightarrow> addSymbol this x h =
     h(x := (h x)\<lparr>outer := Some this, nextSym := children (h this), containingStruct := Some this\<rparr>,
       this := (h this)\<lparr>children := Some x\<rparr>)"
  by (simp add: addSymbol_def Let_def)

lemma declare_symbol_struct:
  "b_context b \<noteq> [] \<Longrightarrow> sym_class (b_heap b (last (b_context b))) \<noteq> UCPackage \<Longrightarrow>
   declare_symbol P x b = b\<lparr>b_heap := addSymbol (last (b_context b)) x (b_heap b)\<rparr>"
  by (simp add: declare_symbol_def get_def Let_def)

lemma member_step:
  assumes "b_context b \<noteq> []" and "last (b_context b) = e"
    and "sym_class (b_heap b e) \<noteq> UCPackage" and "e \<noteq> b_fresh b"
  shows "enterEnumDecl_member P flags e m (b, count) =
           (b\<lparr>b_heap := (b_heap b)
                  (b_fresh b := (new_symbol UCEnumMemberSymbol (member_identifier m) (member_start m)
                                   (flags UCEnumMemberSymbol))
                                \<lparr>outer := Some e, nextSym := children (b_heap b e),
                                 containingStruct := Some e, enum_value := Some count\<rparr>,
                   e := (b_heap b e)\<lparr>children := Some (b_fresh b)\<rparr>),
              b_fresh := Suc (b_fresh b),
              EnumMemberMap := (EnumMemberMap b)(member_identifier m \<mapsto> b_fresh b)\<rparr>,
            Suc count)"
proof -
  let ?obj = "new_symbol UCEnumMemberSymbol (member_identifier m) (member_start m)
                (flags UCEnumMemberSymbol)"
  let ?b1 = "b\<lparr>b_heap := (b_heap b)(b_fresh b := ?obj), b_fresh := Suc (b_fresh b)\<rparr>"
  have a: "alloc ?obj b = (b_fresh b, ?b1)" by (simp add: alloc_def)
  have d: "declare_symbol P (b_fresh b) ?b1
             = ?b1\<lparr>b_heap := addSymbol e (b_fresh b) (b_heap ?b1)\<rparr>"
    using assms by (subst declare_symbol_struct) auto
  have h: "addSymbol e (b_fresh b) ((b_heap b)(b_fresh b := ?obj))
             = (b_heap b)(b_fresh b := ?obj\<lparr>outer := Some e, nextSym := children (b_heap b e),
                                              containingStruct := Some e\<rparr>,
                          e := (b_heap b e)\<lparr>children := Some (b_fresh b)\<rparr>)"
    using assms(4) by (subst addSymbol_eq) (auto simp: fun_eq_iff)
  show ?thesis
    unfolding enterEnumDecl_member_def
    using assms(4)
    apply (simp add: a d h setEnumMember_def)
    apply (simp add: new_symbol_def fun_upd_twist)
    done
qed


lemma member_loop:
  assumes "b_context b \<noteq> []" and "last (b_context b) = e"
    and "sym_class (b_heap b e) \<noteq> UCPackage" and "e < b_fresh b"
    and "chain (b_heap b) (children (b_heap b e)) = Some cs" and "\<forall>c\<in>set cs. c < b_fresh b"
  shows "\<exists>b'. fold (enterEnumDecl_member P flags e) ms (b, count) = (b', count + length ms)
           \<and> b_fresh b' = b_fresh b + length ms
           \<and> b_context b' = b_context b
           \<and> chain (b_heap b') (children (b_heap b' e))
                = Some (rev [b_fresh b ..< b_fresh b + length ms] @ cs)
           \<and> (\<forall>i < length ms.
                 enum_value (b_heap b' (b_fresh b + i)) = Some (count + i)
                 \<and> id_name (b_heap b' (b_fresh b + i)) = member_identifier (ms ! i)
                 \<and> outer (b_heap b' (b_fresh b + i)) = Some e
                 \<and> sym_class (b_heap b' (b_fresh b + i)) = UCEnumMemberSymbol)
           \<and> (\<forall>x < b_fresh b. x \<noteq> e \<longrightarrow> b_heap b' x = b_heap b x)
           \<and> sym_class (b_heap b' e) = sym_class (b_heap b e)
           \<and> id_name (b_heap b' e) = id_name (b_heap b e)"
  using assms
proof (induction ms arbitrary: b count cs)
  case Nil
  then show ?case by simp
next
  case (Cons m ms)
  let ?f = "b_fresh b"
  let ?h1 = "(b_heap b)
                  (?f := (new_symbol UCEnumMemberSymbol (member_identifier m) (member_start m)
                                   (flags UCEnumMemberSymbol))
                                \<lparr>outer := Some e, nextSym := children (b_heap b e),
                                 containingStruct := Some e, enum_value := Some count\<rparr>,
                   e := (b_heap b e)\<lparr>children := Some ?f\<rparr>)"
  let ?b1 = "b\<lparr>b_heap := ?h1, b_fresh := Suc ?f,
              EnumMemberMap := (EnumMemberMap b)(member_identifier m \<mapsto> ?f)\<rparr>"
  from Cons.prems have ne: "e \<noteq> ?f" by simp
  have step: "enterEnumDecl_member P flags e m (b, count) = (?b1, Suc count)"
    using Cons.prems(1-3) ne by (rule member_step)
  have nx: "\<forall>c\<in>set cs. nextSym (?h1 c) = nextSym (b_heap b c)"
    using Cons.prems(6) by auto
  have "chain ?h1 (children (b_heap b e)) = Some cs"
    using Cons.prems(5) nx by (rule chain_next_cong)
  then have ch: "chain (b_heap ?b1) (children (b_heap ?b1 e)) = Some (?f # cs)"
    using ne by (simp add: chain_Some)
  have "\<exists>b'. fold (enterEnumDecl_member P flags e) ms (?b1, Suc count) = (b', Suc count + length ms)
           \<and> b_fresh b' = b_fresh ?b1 + length ms
           \<and> b_context b' = b_context ?b1
           \<and> chain (b_heap b') (children (b_heap b' e))
                = Some (rev [b_fresh ?b1 ..< b_fresh ?b1 + length ms] @ (?f # cs))
           \<and> (\<forall>i < length ms.
                 enum_value (b_heap b' (b_fresh ?b1 + i)) = Some (Suc count + i)
                 \<and> id_name (b_heap b' (b_fresh ?b1 + i)) = member_identifier (ms ! i)
                 \<and> outer (b_heap b' (b_fresh ?b1 + i)) = Some e
                 \<and> sym_class (b_heap b' (b_fresh ?b1 + i)) = UCEnumMemberSymbol)
           \<and> (\<forall>x < b_fresh ?b1. x \<noteq> e \<longrightarrow> b_heap b' x = b_heap ?b1 x)
           \<and> sym_class (b_heap b' e) = sym_class (b_heap ?b1 e)
           \<and> id_name (b_heap b' e) = id_name (b_heap ?b1 e)"
  proof (rule Cons.IH)
    show "b_context ?b1 \<noteq> []" using Cons.prems(1) by simp
    show "last (b_context ?b1) = e" using Cons.prems(2) by simp
    show "sym_class (b_heap ?b1 e) \<noteq> UCPackage" using Cons.prems(3) by simp
    show "e < b_fresh ?b1" using Cons.prems(4) by simp
    show "chain (b_heap ?b1) (children (b_heap ?b1 e)) = Some (?f # cs)" by (rule ch)
    show "\<forall>c\<in>set (?f # cs). c < b_fresh ?b1" using Cons.prems(6) by auto
  qed
  then obtain b' where
    f: "fold (enterEnumDecl_member P flags e) ms (?b1, Suc count) = (b', Suc count + length ms)"
    and fr: "b_fresh b' = Suc ?f + length ms"
    and cx: "b_context b' = b_context b"
    and c': "chain (b_heap b') (children (b_heap b' e))
                = Some (rev [Suc ?f ..< Suc ?f + length ms] @ (?f # cs))"
    and mem: "\<And>i. i < length ms \<Longrightarrow>
                 enum_value (b_heap b' (Suc ?f + i)) = Some (Suc count + i)
                 \<and> id_name (b_heap b' (Suc ?f + i)) = member_identifier (ms ! i)
                 \<and> outer (b_heap b' (Suc ?f + i)) = Some e
                 \<and> sym_class (b_heap b' (Suc ?f + i)) = UCEnumMemberSymbol"
    and frame: "\<And>x. x < Suc ?f \<Longrightarrow> x \<noteq> e \<Longrightarrow> b_heap b' x = ?h1 x"
    and own: "sym_class (b_heap b' e) = sym_class (b_heap b e)"
             "id_name (b_heap b' e) = id_name (b_heap b e)"
    by auto
  have new: "b_heap b' ?f = ?h1 ?f" using ne by (intro frame) auto
  have members: "enum_value (b_heap b' (?f + i)) = Some (count + i)
                 \<and> id_name (b_heap b' (?f + i)) = member_identifier ((m # ms) ! i)
                 \<and> outer (b_heap b' (?f + i)) = Some e
                 \<and> sym_class (b_heap b' (?f + i)) = UCEnumMemberSymbol"
    if "i < length (m # ms)" for i
  proof (cases i)
    case 0
    with new ne show ?thesis by (simp add: new_symbol_def)
  next
    case (Suc j)
    with that mem [of j] show ?thesis by simp
  qed
  have old: "b_heap b' x = b_heap b x" if "x < ?f" "x \<noteq> e" for x
    using frame [of x] that by simp
  have lst: "rev [Suc ?f ..< Suc ?f + length ms] @ (?f # cs)
               = rev [?f ..< ?f + length (m # ms)] @ cs"
  proof -
    have "[?f ..< ?f + length (m # ms)] = ?f # [Suc ?f ..< Suc ?f + length ms]"
      by (subst upt_conv_Cons) simp_all
    then show ?thesis by simp
  qed
  show ?case
    using f fr cx c' members old own step unfolding lst by auto
qed

text \<open>
  An enum declared inside a struct: the members become the children of the new enum
  symbol (the last one first), member \<open>i\<close> of the declaration has the value \<open>i\<close>, and a
  lookup of any name that is not a member's finds nothing.
\<close>

lemma enterEnumDecl_numbers_members:
  assumes "enum_identifier ctx = Some (n, r)" and "b_context b \<noteq> []"
    and "sym_class (b_heap b (last (b_context b))) \<noteq> UCPackage"
    and "last (b_context b) < b_fresh b"
  shows "\<exists>b'. enterEnumDecl P flags ctx b = b'
           \<and> b_context b' = b_context b @ [b_fresh b]
           \<and> sym_class (b_heap b' (b_fresh b)) = UCEnumSymbol
           \<and> id_name (b_heap b' (b_fresh b)) = n
           \<and> chain (b_heap b') (children (b_heap b' (b_fresh b)))
                = Some (rev [Suc (b_fresh b) ..< Suc (b_fresh b) + length (enumMember ctx)])
           \<and> (\<forall>i < length (enumMember ctx).
                 enum_value (b_heap b' (Suc (b_fresh b) + i)) = Some i
                 \<and> id_name (b_heap b' (Suc (b_fresh b) + i)) = member_identifier (enumMember ctx ! i)
                 \<and> outer (b_heap b' (Suc (b_fresh b) + i)) = Some (b_fresh b)
                 \<and> sym_class (b_heap b' (Suc (b_fresh b) + i)) = UCEnumMemberSymbol)
           \<and> (\<forall>name. name \<notin> member_identifier ` set (enumMember ctx)
                 \<longrightarrow> getSymbol (b_heap b') (b_fresh b) name None = Some None)"
proof -
  let ?e = "b_fresh b"
  let ?p = "last (b_context b)"
  let ?ms = "enumMember ctx"
  define obj where "obj = new_symbol UCEnumSymbol n r (flags UCEnumSymbol)"
  define b1 where "b1 = b\<lparr>b_heap := (b_heap b)(?e := obj), b_fresh := Suc ?e\<rparr>"
  define b3 where "b3 = push ?e (declare_symbol P ?e b1)"
  from assms(4) have pe: "?p \<noteq> ?e" by simp
  have a: "alloc (new_symbol UCEnumSymbol n r (flags UCEnumSymbol)) b = (?e, b1)"
    by (simp add: alloc_def b1_def obj_def)
  have d: "declare_symbol P ?e b1 = b1\<lparr>b_heap := addSymbol ?p ?e (b_heap b1)\<rparr>"
    using assms(2,3) pe by (subst declare_symbol_struct) (auto simp: b1_def)
  have e3: "b_heap b3 ?e = obj\<lparr>outer := Some ?p, nextSym := children (b_heap b ?p),
                               containingStruct := Some ?p\<rparr>"
    unfolding b3_def d using pe by (simp add: push_def addSymbol_eq b1_def)
  have c3: "b_context b3 = b_context b @ [?e]" "b_fresh b3 = Suc ?e"
    unfolding b3_def d by (simp_all add: push_def b1_def)
  have k3: "sym_class (b_heap b3 ?e) = UCEnumSymbol" "id_name (b_heap b3 ?e) = n"
    "children (b_heap b3 ?e) = None"
    by (simp_all add: e3 obj_def new_symbol_def)
  have "\<exists>b'. fold (enterEnumDecl_member P flags ?e) ?ms (b3, 0) = (b', 0 + length ?ms)
           \<and> b_fresh b' = b_fresh b3 + length ?ms
           \<and> b_context b' = b_context b3
           \<and> chain (b_heap b') (children (b_heap b' ?e))
                = Some (rev [b_fresh b3 ..< b_fresh b3 + length ?ms] @ [])
           \<and> (\<forall>i < length ?ms.
                 enum_value (b_heap b' (b_fresh b3 + i)) = Some (0 + i)
                 \<and> id_name (b_heap b' (b_fresh b3 + i)) = member_identifier (?ms ! i)
                 \<and> outer (b_heap b' (b_fresh b3 + i)) = Some ?e
                 \<and> sym_class (b_heap b' (b_fresh b3 + i)) = UCEnumMemberSymbol)
           \<and> (\<forall>x < b_fresh b3. x \<noteq> ?e \<longrightarrow> b_heap b' x = b_heap b3 x)
           \<and> sym_class (b_heap b' ?e) = sym_class (b_heap b3 ?e)
           \<and> id_name (b_heap b' ?e) = id_name (b_heap b3 ?e)"
  proof (rule member_loop)
    show "b_context b3 \<noteq> []" by (simp add: c3)
    show "last (b_context b3) = ?e" by (simp add: c3)
    show "sym_class (b_heap b3 ?e) \<noteq> UCPackage" by (simp add: k3)
    show "?e < b_fresh b3" by (simp add: c3)
    show "chain (b_heap b3) (children (b_heap b3 ?e)) = Some []"
      by (simp add: k3 chain_None)
    show "\<forall>c\<in>set []. c < b_fresh b3" by simp
  qed
  then obtain b' where
    f: "fold (enterEnumDecl_member P flags ?e) ?ms (b3, 0) = (b', length ?ms)"
    and cx: "b_context b' = b_context b @ [?e]"
    and ch: "chain (b_heap b') (children (b_heap b' ?e))
                = Some (rev [Suc ?e ..< Suc ?e + length ?ms])"
    and mem: "\<And>i. i < length ?ms \<Longrightarrow>
                 enum_value (b_heap b' (Suc ?e + i)) = Some i
                 \<and> id_name (b_heap b' (Suc ?e + i)) = member_identifier (?ms ! i)
                 \<and> outer (b_heap b' (Suc ?e + i)) = Some ?e
                 \<and> sym_class (b_heap b' (Suc ?e + i)) = UCEnumMemberSymbol"
    and own: "sym_class (b_heap b' ?e) = UCEnumSymbol" "id_name (b_heap b' ?e) = n"
    by (auto simp: c3 k3)
  have res: "enterEnumDecl P flags ctx b = b'"
    using assms(1) f by (simp add: enterEnumDecl_def a b3_def)
  have absent: "getSymbol (b_heap b') ?e name None = Some None"
    if "name \<notin> member_identifier ` set ?ms" for name
  proof -
    have "id_name (b_heap b' c) \<noteq> name" if "c \<in> set (rev [Suc ?e ..< Suc ?e + length ?ms])" for c
    proof -
      from that obtain i where i: "i < length ?ms" "c = Suc ?e + i"
        by (auto simp: nat_le_iff_add)
      with mem [of i] have "id_name (b_heap b' c) = member_identifier (?ms ! i)" by simp
      moreover have "member_identifier (?ms ! i) \<in> member_identifier ` set ?ms"
        using i(1) by simp
      ultimately show ?thesis using \<open>name \<notin> member_identifier ` set ?ms\<close> by auto
    qed
    then have "find (\<lambda>c. id_name (b_heap b' c) = name
                        \<and> \<not> kind_excludes None (getTypeFlags (b_heap b' c)))
                 (rev [Suc ?e ..< Suc ?e + length ?ms]) = None"
      by (auto simp: find_None_iff)
    with getSymbol_loop_find [OF ch, of name None] show ?thesis
      by (simp add: getSymbol_def)
  qed
  show ?thesis using res cx own ch mem absent by auto
qed

text \<open>
  C2. For \<^verbatim>\<open>enum EEnumTest { ET_None, ET_Other }\<close> the builder gives \<open>ET_None\<close> the
  value 0 and \<open>ET_Other\<close> the value 1; the enum has these two children and no member
  \<open>EnumCount\<close>.
\<close>

theorem enterEnumDecl_no_EnumCount:
  "chain EnumTest_built (children (EnumTest_built 2)) = Some [4, 3]
   \<and> id_name (EnumTest_built 3) = Name 12 ''ET_None'' \<and> enum_value (EnumTest_built 3) = Some 0
   \<and> id_name (EnumTest_built 4) = Name 13 ''ET_Other'' \<and> enum_value (EnumTest_built 4) = Some 1
   \<and> childrenCount EnumTest_built 2 = Some 2
   \<and> getSymbol EnumTest_built 2 NAME_ENUMCOUNT None = Some None"
proof -
  have 1: "enum_identifier EEnumTest_decl
             = Some (Name 11 ''EEnumTest'', Range (Position 2 5) (Position 2 14))"
    and 2: "b_context EnumTest_builder \<noteq> []"
    and 3: "sym_class (b_heap EnumTest_builder (last (b_context EnumTest_builder))) \<noteq> UCPackage"
    and 4: "last (b_context EnumTest_builder) < b_fresh EnumTest_builder"
    by (simp_all add: EEnumTest_decl_def EnumTest_builder_def new_symbol_def)
  have f: "b_fresh EnumTest_builder = 2"
    and m: "enumMember EEnumTest_decl =
        [\<lparr>member_identifier = Name 12 ''ET_None'', member_start = Range (Position 3 4) (Position 3 11)\<rparr>,
         \<lparr>member_identifier = Name 13 ''ET_Other'', member_start = Range (Position 4 4) (Position 4 12)\<rparr>]"
    by (simp_all add: EEnumTest_decl_def EnumTest_builder_def)
  from enterEnumDecl_numbers_members [OF 1 2 3 4, of "\<lambda>p s h. h" "\<lambda>c. 0"]
  have ch: "chain EnumTest_built (children (EnumTest_built 2)) = Some (rev [3 ..< 5])"
    and mem: "\<And>i. i < 2 \<Longrightarrow> enum_value (EnumTest_built (3 + i)) = Some i
                 \<and> id_name (EnumTest_built (3 + i))
                      = member_identifier (enumMember EEnumTest_decl ! i)"
    and ab: "\<And>name. name \<notin> member_identifier ` set (enumMember EEnumTest_decl)
                 \<Longrightarrow> getSymbol EnumTest_built 2 name None = Some None"
    by (simp_all add: EnumTest_built_def f m)
  have l: "rev [3 ..< 5] = [4, 3::nat]" by (simp add: upt_rec)
  have "getSymbol EnumTest_built 2 NAME_ENUMCOUNT None = Some None"
    by (rule ab) (simp add: m NAME_ENUMCOUNT_def)
  moreover from ch l have "childrenCount EnumTest_built 2 = Some 2"
    by (simp add: childrenCount_def)
  ultimately show ?thesis using ch l mem [of 0] mem [of 1] by (simp add: m)
qed


subsection \<open>Blocks\<close>

text \<open>
  C9. \<^verbatim>\<open>UCBlock.index\<close> indexes every statement with the info it received itself:
  what a statement's \<^verbatim>\<open>index\<close> did to the \<^verbatim>\<open>typeFlags\<close> of the shared object is
  undone before the next statement, and the object has its incoming content when the
  block is done.
\<close>

theorem UCBlock_index_same_info:
  "statement_index ctype (UCBlock statements) w info =
     (fold (\<lambda>statement w1. case statement of
                               None \<Rightarrow> w1
                             | Some s \<Rightarrow> fst (statement_index ctype s w1 info))
           statements w,
      info)"
proof -
  let ?reset = "map_option (\<lambda>_. IContextInfo (case info of None \<Rightarrow> None | Some i \<Rightarrow> typeFlags i)) info"
  have reset: "?reset = info" by (cases info) simp_all
  have "fold (\<lambda>statement (w1, info1).
                 case statement of
                   None \<Rightarrow> (w1, info1)
                 | Some s \<Rightarrow>
                     (let (w2, info2) = statement_index ctype s w1 info1
                      in (w2, ?reset)))
              statements (w0, info)
        = (fold (\<lambda>statement w1. case statement of
                               None \<Rightarrow> w1
                             | Some s \<Rightarrow> fst (statement_index ctype s w1 info))
           statements w0, info)" for w0
  proof (induction statements arbitrary: w0)
    case Nil
    show ?case by simp
  next
    case (Cons st statements)
    show ?case
    proof (cases st)
      case None
      with Cons.IH show ?thesis by simp
    next
      case (Some s)
      with Cons.IH [of "fst (statement_index ctype s w0 info)"] reset show ?thesis
        by (simp add: case_prod_beta)
    qed
  qed
  then show ?thesis by (simp add: Let_def)
qed


lemma probe_alone:
  "statement_index (\<lambda>w. None) (UCExpressionStatement (Some probe)) [] (Some (IContextInfo (Some 1)))
     = ([Some 1], Some (IContextInfo (Some 7)))"
  by (simp add: probe_def expression_index_def)

theorem UCBlock_index_same_info_witness:
  "statement_index (\<lambda>w. None) probe_block [] (Some (IContextInfo (Some 1)))
     = ([Some 1, Some 1], Some (IContextInfo (Some 1)))"
  unfolding probe_block_def UCBlock_index_same_info
  by (simp add: probe_def expression_index_def)

subsection \<open>Type references\<close>

lemma with_baseType_reference: "getReference (with_baseType t b) = getReference t"
  by (cases t) simp_all

lemma index_sets_reference:
  assumes "ITypeSymbol_index env (Some ctx) (ObjectType ident rng kind None base) w = Some outcome"
    and "resolve_reference env (w_heap w) ctx ident kind = Some (Inr found)"
  shows "getReference (fst (state_of outcome)) = found"
proof -
  define this1 where "this1 = (case found of None \<Rightarrow> ObjectType ident rng kind None base
                                | Some s \<Rightarrow> ObjectType ident rng kind (Some s) base)"
  define w1 where "w1 = (case found of None \<Rightarrow> w | Some s \<Rightarrow> setReference env s ident rng w)"
  have pair: "(case found of None \<Rightarrow> (ObjectType ident rng kind None base, w)
                | Some s \<Rightarrow> (ObjectType ident rng kind (Some s) base,
                             setReference env s ident rng w)) = (this1, w1)"
    by (cases found) (simp_all add: this1_def w1_def)
  have r1: "getReference this1 = found"
    by (cases found) (simp_all add: this1_def)
  show ?thesis
  proof (cases base)
    case None
    with assms pair r1 show ?thesis by auto
  next
    case (Some b)
    with assms pair obtain o' where "ITypeSymbol_index env (Some ctx) b w1 = Some o'"
      and "fst (state_of outcome) = with_baseType this1 (Some (fst (state_of o')))"
      by (cases "ITypeSymbol_index env (Some ctx) b w1")
         (auto split: completion.splits prod.splits)
    with r1 show ?thesis by (simp add: with_baseType_reference)
  qed
qed

text \<open>
  C4. The lookup of a type reference by its expected kind: \<open>Package\<close> asks the packages
  table only (no deep search); \<open>Class\<close> and \<open>Interface\<close> ask the global symbols table
  only, with deep search; \<open>Enum\<close>, \<open>Struct\<close> and \<open>State\<close> search the context with
  \<^verbatim>\<open>findSuperSymbol\<close> only; without a kind the global table is asked first and the
  context is searched if it has no entry; the kind \<open>Type\<close> is the lookup without a kind
  whose result is dropped unless it is a field symbol that is a type. Indexing a type
  symbol whose reference is not set makes its reference what the lookup found; it
  stays unset if the lookup found nothing.
\<close>

theorem type_reference_dispatch:
  "resolve_reference env h ctx ident (Some TK_Package)
     = Some (Inr (PackagesTable_findSymbol env ident False))
   \<and> resolve_reference env h ctx ident (Some TK_Class)
     = Some (Inr (SymbolsTable_findSymbol env ident True))
   \<and> resolve_reference env h ctx ident (Some TK_Interface)
     = Some (Inr (SymbolsTable_findSymbol env ident True))
   \<and> resolve_reference env h ctx ident (Some TK_Enum) = findSuperSymbol h ctx ident None
   \<and> resolve_reference env h ctx ident (Some TK_Struct) = findSuperSymbol h ctx ident None
   \<and> resolve_reference env h ctx ident (Some TK_State) = findSuperSymbol h ctx ident None
   \<and> resolve_reference env h ctx ident None
     = (case SymbolsTable_findSymbol env ident True of
          Some s \<Rightarrow> Some (Inr (Some s))
        | None \<Rightarrow> findSuperSymbol h ctx ident None)
   \<and> resolve_reference env h ctx ident (Some TK_Type)
     = map_option (map_sum id (usable_as_type h)) (resolve_reference env h ctx ident None)
   \<and> ITypeSymbol_index env (Some ctx) (ObjectType ident rng kind None None) w
     = (case resolve_reference env (w_heap w) ctx ident kind of
          None \<Rightarrow> None
        | Some (Inl e) \<Rightarrow> Some (Throw e (ObjectType ident rng kind None None, w))
        | Some (Inr None) \<Rightarrow> Some (Normal (ObjectType ident rng kind None None, w))
        | Some (Inr (Some s)) \<Rightarrow>
            Some (Normal (ObjectType ident rng kind (Some s) None, setReference env s ident rng w)))
   \<and> (\<forall>outcome found.
         ITypeSymbol_index env (Some ctx) (ObjectType ident rng kind None base) w = Some outcome
         \<and> resolve_reference env (w_heap w) ctx ident kind = Some (Inr found)
         \<longrightarrow> getReference (fst (state_of outcome)) = found)"
proof -
  have ty: "resolve_reference env h ctx ident (Some TK_Type)
     = map_option (map_sum id (usable_as_type h)) (resolve_reference env h ctx ident None)"
  proof (cases "SymbolsTable_findSymbol env ident True")
    case None
    then show ?thesis
      by (cases "findSuperSymbol h ctx ident None")
         (auto simp: resolve_reference_def split: sum.splits)
  next
    case (Some s)
    then show ?thesis by (simp add: resolve_reference_def)
  qed
  have ix: "ITypeSymbol_index env (Some ctx) (ObjectType ident rng kind None None) w
     = (case resolve_reference env (w_heap w) ctx ident kind of
          None \<Rightarrow> None
        | Some (Inl e) \<Rightarrow> Some (Throw e (ObjectType ident rng kind None None, w))
        | Some (Inr None) \<Rightarrow> Some (Normal (ObjectType ident rng kind None None, w))
        | Some (Inr (Some s)) \<Rightarrow>
            Some (Normal (ObjectType ident rng kind (Some s) None, setReference env s ident rng w)))"
    by (simp split: option.splits sum.splits)
  have df: "resolve_reference env h ctx ident None
     = (case SymbolsTable_findSymbol env ident True of
          Some s \<Rightarrow> Some (Inr (Some s))
        | None \<Rightarrow> findSuperSymbol h ctx ident None)"
    by (cases "findSuperSymbol h ctx ident None")
       (auto simp: resolve_reference_def split: sum.splits option.splits)
  have fs: "resolve_reference env h ctx ident (Some TK_Enum) = findSuperSymbol h ctx ident None"
    "resolve_reference env h ctx ident (Some TK_Struct) = findSuperSymbol h ctx ident None"
    "resolve_reference env h ctx ident (Some TK_State) = findSuperSymbol h ctx ident None"
    by (cases "findSuperSymbol h ctx ident None";
        auto simp: resolve_reference_def split: sum.splits)+
  have rf: "\<forall>outcome found.
         ITypeSymbol_index env (Some ctx) (ObjectType ident rng kind None base) w = Some outcome
         \<and> resolve_reference env (w_heap w) ctx ident kind = Some (Inr found)
         \<longrightarrow> getReference (fst (state_of outcome)) = found"
    using index_sets_reference by blast
  have tb: "resolve_reference env h ctx ident (Some TK_Package)
              = Some (Inr (PackagesTable_findSymbol env ident False))"
    "resolve_reference env h ctx ident (Some TK_Class)
              = Some (Inr (SymbolsTable_findSymbol env ident True))"
    "resolve_reference env h ctx ident (Some TK_Interface)
              = Some (Inr (SymbolsTable_findSymbol env ident True))"
    by (simp_all add: resolve_reference_def)
  show ?thesis
    using ty ix df fs rf tb by blast
qed

lemma link_heap_chains:
  "chain link_heap (children (link_heap 10)) = Some [11, 13]"
  "chain link_heap (children (link_heap 20)) = Some [21]"
  by (simp_all add: link_heap_def blank_heap_def new_symbol_def chain_Some chain_None)

lemma link_heap_find_Idle:
  "findSuperSymbol link_heap 10 (Name 31 ''Idle'') None = Some (Inr (Some 11))"
proof (rule findSuperSymbol_local)
  show "instanceof_UCStructSymbol (sym_class (link_heap 10))"
    by (simp add: link_heap_def new_symbol_def instanceof_UCStructSymbol_def)
  show "getSymbol link_heap 10 (Name 31 ''Idle'') None = Some (Some 11)"
    by (simp add: getSymbol_find [OF link_heap_chains(1)] kind_excludes_def)
       (simp add: link_heap_def new_symbol_def)
qed

lemma link_heap_facts:
  "sym_class (link_heap 20) = UCClassSymbol" "sym_class (link_heap 10) = UCClassSymbol"
  "super (link_heap 20) = Some 10" "super (link_heap 10) = None"
  "isType (link_heap 13) = False"
  by (simp_all add: link_heap_def new_symbol_def)

lemma link_heap_find_Sleeping:
  "findSuperSymbol link_heap 20 (Name 32 ''Sleeping'') None = Some (Inr (Some 13))"
proof (rule findSuperSymbol_inherited [where parent = 10])
  show "instanceof_UCStructSymbol (sym_class (link_heap 20))"
    by (simp add: link_heap_facts instanceof_UCStructSymbol_def)
  show "getSymbol link_heap 20 (Name 32 ''Sleeping'') None = Some None"
    by (simp add: getSymbol_find [OF link_heap_chains(2)])
       (simp add: link_heap_def new_symbol_def)
  show "super (link_heap 20) = Some 10" by (simp add: link_heap_facts)
  show "findSuperSymbol link_heap 10 (Name 32 ''Sleeping'') None = Some (Inr (Some 13))"
  proof (rule findSuperSymbol_local)
    show "instanceof_UCStructSymbol (sym_class (link_heap 10))"
      by (simp add: link_heap_facts instanceof_UCStructSymbol_def)
    show "getSymbol link_heap 10 (Name 32 ''Sleeping'') None = Some (Some 13)"
      by (simp add: getSymbol_find [OF link_heap_chains(1)] kind_excludes_def)
         (simp add: link_heap_def new_symbol_def)
  qed
qed

lemma link_heap_find_Pickup:
  "findSuperSymbol link_heap 20 (Name 30 ''Pickup'') None = Some (Inr None)"
proof (rule findSuperSymbol_inherited_absent [where parent = 10])
  show "instanceof_UCStructSymbol (sym_class (link_heap 20))"
    by (simp add: link_heap_facts instanceof_UCStructSymbol_def)
  show "sym_class (link_heap 20) \<noteq> UCStateSymbol" by (simp add: link_heap_facts)
  show "getSymbol link_heap 20 (Name 30 ''Pickup'') None = Some None"
    by (simp add: getSymbol_find [OF link_heap_chains(2)])
       (simp add: link_heap_def new_symbol_def)
  show "super (link_heap 20) = Some 10" by (simp add: link_heap_facts)
  show "findSuperSymbol link_heap 10 (Name 30 ''Pickup'') None = Some (Inr None)"
  proof (rule findSuperSymbol_absent)
    show "instanceof_UCStructSymbol (sym_class (link_heap 10))"
      by (simp add: link_heap_facts instanceof_UCStructSymbol_def)
    show "sym_class (link_heap 10) \<noteq> UCStateSymbol" by (simp add: link_heap_facts)
    show "getSymbol link_heap 10 (Name 30 ''Pickup'') None = Some None"
      by (simp add: getSymbol_find [OF link_heap_chains(1)])
         (simp add: link_heap_def new_symbol_def)
    show "super (link_heap 10) = None" by (simp add: link_heap_facts)
  qed
qed

theorem type_reference_dispatch_witness:
  "resolve_reference table_env link_heap 20 (Name 30 ''Pickup'') (Some TK_Package) = Some (Inr (Some 50))
   \<and> resolve_reference table_env link_heap 20 (Name 30 ''Pickup'') (Some TK_Class) = Some (Inr (Some 10))
   \<and> resolve_reference table_env link_heap 20 (Name 30 ''Pickup'') (Some TK_State) = Some (Inr None)
   \<and> resolve_reference table_env link_heap 20 (Name 32 ''Sleeping'') (Some TK_State) = Some (Inr (Some 13))
   \<and> resolve_reference table_env link_heap 20 (Name 32 ''Sleeping'') (Some TK_Class) = Some (Inr None)
   \<and> resolve_reference table_env link_heap 20 (Name 30 ''Pickup'') None = Some (Inr (Some 10))
   \<and> resolve_reference table_env link_heap 20 (Name 32 ''Sleeping'') None = Some (Inr (Some 13))
   \<and> resolve_reference table_env link_heap 20 (Name 32 ''Sleeping'') (Some TK_Type) = Some (Inr None)
   \<and> ITypeSymbol_index table_env (Some 20)
         (ObjectType (Name 32 ''Sleeping'') (Range (Position 1 19) (Position 1 27)) (Some TK_State)
            None None)
         (world_of link_heap)
       = Some (Normal
           (ObjectType (Name 32 ''Sleeping'') (Range (Position 1 19) (Position 1 27)) (Some TK_State)
              (Some 13) None,
            setReference table_env 13 (Name 32 ''Sleeping'') (Range (Position 1 19) (Position 1 27))
              (world_of link_heap)))
   \<and> ITypeSymbol_index table_env (Some 20)
         (ObjectType (Name 32 ''Sleeping'') (Range (Position 1 19) (Position 1 27)) (Some TK_Type)
            None None)
         (world_of link_heap)
       = Some (Normal
           (ObjectType (Name 32 ''Sleeping'') (Range (Position 1 19) (Position 1 27)) (Some TK_Type)
              None None,
            world_of link_heap))"
proof -
  have t: "SymbolsTable_findSymbol table_env (Name 30 ''Pickup'') True = Some 10"
    "SymbolsTable_findSymbol table_env (Name 32 ''Sleeping'') True = None"
    "PackagesTable_findSymbol table_env (Name 30 ''Pickup'') False = Some 50"
    by (simp_all add: table_env_def plain_env_def)
  have u: "usable_as_type link_heap (Some 13) = None"
    by (simp add: usable_as_type_def link_heap_facts)
  have h: "w_heap (world_of link_heap) = link_heap" by (simp add: world_of_def)
  note d = type_reference_dispatch [of table_env link_heap 20]
  have r: "resolve_reference table_env link_heap 20 (Name 32 ''Sleeping'') (Some TK_State)
             = Some (Inr (Some 13))"
    "resolve_reference table_env link_heap 20 (Name 32 ''Sleeping'') (Some TK_Type)
             = Some (Inr None)"
    using d [of "Name 32 ''Sleeping''"]
    by (simp_all add: t u link_heap_find_Sleeping)
  have i: "ITypeSymbol_index table_env (Some 20) (ObjectType n rng k None None) (world_of link_heap)
     = (case resolve_reference table_env link_heap 20 n k of
          None \<Rightarrow> None
        | Some (Inl e) \<Rightarrow> Some (Throw e (ObjectType n rng k None None, world_of link_heap))
        | Some (Inr None) \<Rightarrow> Some (Normal (ObjectType n rng k None None, world_of link_heap))
        | Some (Inr (Some s)) \<Rightarrow>
            Some (Normal (ObjectType n rng k (Some s) None,
                          setReference table_env s n rng (world_of link_heap))))" for n rng k
    using type_reference_dispatch [of table_env link_heap 20 n rng k "world_of link_heap" None]
    unfolding h by - (elim conjE, assumption)
  have i1: "ITypeSymbol_index table_env (Some 20)
         (ObjectType (Name 32 ''Sleeping'') (Range (Position 1 19) (Position 1 27)) (Some TK_State)
            None None)
         (world_of link_heap)
       = Some (Normal
           (ObjectType (Name 32 ''Sleeping'') (Range (Position 1 19) (Position 1 27)) (Some TK_State)
              (Some 13) None,
            setReference table_env 13 (Name 32 ''Sleeping'') (Range (Position 1 19) (Position 1 27))
              (world_of link_heap)))"
    unfolding i r by simp
  have i2: "ITypeSymbol_index table_env (Some 20)
         (ObjectType (Name 32 ''Sleeping'') (Range (Position 1 19) (Position 1 27)) (Some TK_Type)
            None None)
         (world_of link_heap)
       = Some (Normal
           (ObjectType (Name 32 ''Sleeping'') (Range (Position 1 19) (Position 1 27)) (Some TK_Type)
              None None,
            world_of link_heap))"
    unfolding i r by simp
  show ?thesis
    using d [of "Name 30 ''Pickup''"] d [of "Name 32 ''Sleeping''"] i1 i2
    by (simp add: t u link_heap_find_Sleeping link_heap_find_Pickup)
qed

subsection \<open>Analysis\<close>

lemma append_nodes_heap [simp]: "w_heap (append_nodes ns w) = w_heap w"
  by (simp add: append_nodes_def)

lemma append_nodes_Nil [simp]: "append_nodes [] w = w"
  by (simp add: append_nodes_def)

lemma append_nodes_append [simp]: "append_nodes bs (append_nodes as w) = append_nodes (as @ bs) w"
  by (simp add: append_nodes_def)

lemma push_node_append: "push_node n w = append_nodes [n] w"
  by (simp add: push_node_def append_nodes_def)

lemma ITypeSymbol_analyze_appends:
  "ITypeSymbol_analyze t w = append_nodes (type_diagnostics (w_heap w) t) w"
proof (induction t arbitrary: w)
  case (ObjectType ident rng kind ref base)
  show ?case
  proof (cases base)
    case None
    then show ?thesis
      by (cases ref; cases kind)
         (auto simp: push_node_append Let_def split: UCTypeKind.splits)
  next
    case (Some b)
    with ObjectType have "ITypeSymbol_analyze b w = append_nodes (type_diagnostics (w_heap w) b) w"
      by simp
    with Some show ?thesis
      by (cases ref; cases kind)
         (auto simp: push_node_append Let_def split: UCTypeKind.splits)
  qed
next
  case (QualifiedType t l)
  then show ?case by (cases l) (auto simp: Let_def)
qed

lemma fold_analyze_appends:
  "fold ITypeSymbol_analyze ts w = append_nodes (concat (map (type_diagnostics (w_heap w)) ts)) w"
  by (induction ts arbitrary: w) (simp_all add: ITypeSymbol_analyze_appends)

lemma UCDocument_analyze_eq:
  "UCDocument_analyze create visited w =
     (append_nodes (analysis_diagnostics visited w) w,
      case doc_class (w_document w) of
        None \<Rightarrow> None
      | Some c \<Rightarrow> Some (map create (nodes (w_document w) @ analysis_diagnostics visited w)))"
  by (cases "doc_class (w_document w)")
     (simp_all add: UCDocument_analyze_def analysis_diagnostics_def fold_analyze_appends getNodes_def
        append_nodes_def)

lemma analysis_diagnostics_again:
  "analysis_diagnostics visited (append_nodes ns w) = analysis_diagnostics visited w"
  by (simp add: analysis_diagnostics_def append_nodes_def split: option.splits)

lemma analysis_diagnostics_nodes:
  "analysis_diagnostics visited (w\<lparr>w_document := (w_document w)\<lparr>nodes := ns\<rparr>\<rparr>)
     = analysis_diagnostics visited w"
  by (simp add: analysis_diagnostics_def split: option.splits)

text \<open>
  C5, as the code has it. A run of the analysis changes nothing but the document's
  list of nodes: the object store, the Reference Index, the references-made map and the
  class are as before. It appends its diagnostics \<open>A\<close> to the list, which is not cleared;
  a second run appends the same diagnostics again. The output of a run is the whole
  list, so the two outputs are equal exactly if the analysis has no diagnostic.
\<close>

theorem analyze_twice_appends:
  "(let A = analysis_diagnostics visited w;
        (w1, out1) = UCDocument_analyze create visited w;
        (w2, out2) = UCDocument_analyze create visited w1
    in w1 = append_nodes A w \<and> w2 = append_nodes (A @ A) w
       \<and> w_heap w1 = w_heap w \<and> w_heap w2 = w_heap w
       \<and> w_index w1 = w_index w \<and> w_index w2 = w_index w
       \<and> indexReferencesMade (w_document w2) = indexReferencesMade (w_document w)
       \<and> doc_class (w_document w2) = doc_class (w_document w)
       \<and> nodes (w_document w1) = nodes (w_document w) @ A
       \<and> nodes (w_document w2) = nodes (w_document w) @ A @ A
       \<and> out1 = map_option (\<lambda>c. map create (nodes (w_document w) @ A)) (doc_class (w_document w))
       \<and> out2 = map_option (\<lambda>c. map create (nodes (w_document w) @ A @ A)) (doc_class (w_document w))
       \<and> (out1 = out2) = (A = []))"
proof -
  let ?A = "analysis_diagnostics visited w"
  have "(map create (nodes (w_document w) @ ?A) = map create (nodes (w_document w) @ ?A @ ?A))
          = (?A = [])"
  proof
    assume "map create (nodes (w_document w) @ ?A) = map create (nodes (w_document w) @ ?A @ ?A)"
    then have "length (map create (nodes (w_document w) @ ?A))
                 = length (map create (nodes (w_document w) @ ?A @ ?A))"
      by (rule arg_cong)
    then show "?A = []" by simp
  qed simp
  moreover have "doc_class (w_document w) = None \<Longrightarrow> ?A = []"
    by (simp add: analysis_diagnostics_def)
  ultimately show ?thesis
    by (cases "doc_class (w_document w)")
       (simp_all add: UCDocument_analyze_eq analysis_diagnostics_again Let_def,
        simp_all add: append_nodes_def analysis_diagnostics_nodes)
qed

text \<open>
  With one unresolved type reference the first run reports one diagnostic and the
  second run reports two.
\<close>

theorem analyze_twice_differs:
  "snd (UCDocument_analyze (\<lambda>node. node) [unresolved_type]
          (fst (UCDocument_analyze (\<lambda>node. node) [unresolved_type] analysis_world)))
     = Some [UnrecognizedTypeNode unresolved_type, UnrecognizedTypeNode unresolved_type]
   \<and> snd (UCDocument_analyze (\<lambda>node. node) [unresolved_type] analysis_world)
     = Some [UnrecognizedTypeNode unresolved_type]"
  by (simp add: UCDocument_analyze_eq analysis_diagnostics_def analysis_world_def
      Child_document_def unresolved_type_def append_nodes_def)

subsection \<open>Indexing struct and state symbols\<close>

lemma new_reference_heap: "w_heap (snd (new_reference file ident rng w)) = w_heap w"
  by (simp add: new_reference_def)

lemma indexReference_heap: "w_heap (indexReference key ref w) = w_heap w"
  by (simp add: indexReference_def)

lemma setReference_heap: "w_heap (setReference env s ident rng w) = w_heap w"
  by (simp add: setReference_def new_reference_def indexReference_heap)

lemma ITypeSymbol_index_heap:
  "ITypeSymbol_index env ctxt t w = Some outcome \<Longrightarrow> w_heap (snd (state_of outcome)) = w_heap w"
proof (induction env ctxt t w arbitrary: outcome rule: ITypeSymbol_index.induct)
  case (1 env ctxt ident rng kind ref base w)
  show ?case
  proof (cases ctxt)
    case None
    with "1.prems" show ?thesis by auto
  next
    case (Some ctx)
    show ?thesis
    proof (cases "ref \<noteq> None")
      case True
      with Some "1.prems" show ?thesis by auto
    next
      case False
      then have ref: "ref = None" by simp
      show ?thesis
      proof (cases "resolve_reference env (w_heap w) ctx ident kind")
        case None
        with Some ref "1.prems" show ?thesis by simp
      next
        case res: (Some r)
        show ?thesis
        proof (cases r)
          case (Inl e)
          with Some ref res "1.prems" show ?thesis by auto
        next
          case (Inr symbol)
          define this1 where "this1 = (case symbol of None \<Rightarrow> ObjectType ident rng kind ref base
                                        | Some s \<Rightarrow> ObjectType ident rng kind (Some s) base)"
          define w1 where "w1 = (case symbol of None \<Rightarrow> w | Some s \<Rightarrow> setReference env s ident rng w)"
          have pair: "(case symbol of None \<Rightarrow> (ObjectType ident rng kind ref base, w)
                        | Some s \<Rightarrow> (ObjectType ident rng kind (Some s) base,
                                     setReference env s ident rng w)) = (this1, w1)"
            by (cases symbol) (simp_all add: this1_def w1_def)
          have h1: "w_heap w1 = w_heap w"
            by (cases symbol) (simp_all add: w1_def setReference_heap)
          show ?thesis
          proof (cases base)
            case None
            with Some ref res Inr pair "1.prems" h1 show ?thesis by auto
          next
            case b: (Some b)
            from "1.prems" Some ref res Inr pair b
            obtain o' where o': "ITypeSymbol_index env ctxt b w1 = Some o'"
              and "w_heap (snd (state_of outcome)) = w_heap (snd (state_of o'))"
              by (cases "ITypeSymbol_index env ctxt b w1")
                 (auto split: completion.splits prod.splits)
            moreover have "w_heap (snd (state_of o')) = w_heap w1"
              using "1.IH" [OF refl Some _ res Inr pair [symmetric] refl b o'] ref by simp
            ultimately show ?thesis using h1 by simp
          qed
        qed
      qed
    qed
  qed
next
  case (2 env ctxt t l w)
  show ?case
  proof (cases l)
    case None
    with "2.prems" obtain o' where "ITypeSymbol_index env ctxt t w = Some o'"
      and "w_heap (snd (state_of outcome)) = w_heap (snd (state_of o'))"
      by (cases "ITypeSymbol_index env ctxt t w") (auto split: completion.splits prod.splits)
    with "2.IH"(1) [OF None] show ?thesis by simp
  next
    case (Some lft)
    from "2.prems" Some obtain ol where ol: "ITypeSymbol_index env ctxt lft w = Some ol"
      by (cases "ITypeSymbol_index env ctxt lft w") auto
    have hl: "w_heap (snd (state_of ol)) = w_heap w"
      using "2.IH"(2) [OF Some ol] .
    show ?thesis
    proof (cases ol)
      case (Throw e s)
      with "2.prems" Some ol hl show ?thesis by (auto split: prod.splits)
    next
      case (Normal s)
      obtain l' w1 where s: "s = (l', w1)" by (cases s)
      from "2.prems" Some ol Normal s obtain ot
        where ot: "ITypeSymbol_index env (getReference l') t w1 = Some ot"
          and "w_heap (snd (state_of outcome)) = w_heap (snd (state_of ot))"
        by (cases "ITypeSymbol_index env (getReference l') t w1")
           (auto split: completion.splits prod.splits)
      moreover have "w_heap (snd (state_of ot)) = w_heap w1"
        using "2.IH"(3) [OF Some ol Normal s [symmetric] ot] .
      ultimately show ?thesis using hl Normal s by simp
    qed
  qed
qed


lemma set_extendsType_links:
  "super (w_heap (set_extendsType this t w) x) = super (w_heap w x)"
  "overriddenState (w_heap (set_extendsType this t w) x) = overriddenState (w_heap w x)"
  "extendsType (w_heap (set_extendsType this t w) this) = Some t"
  by (simp_all add: set_extendsType_def)

lemma extends_step_links:
  assumes "UCStructSymbol_index_extends env this ctx w = Some outcome"
  shows "overriddenState (w_heap (state_of outcome) this) = overriddenState (w_heap w this)
       \<and> super (w_heap (state_of outcome) this) =
           (case super (w_heap w this) of
              Some p \<Rightarrow> Some p
            | None \<Rightarrow>
                (case outcome of
                   Normal w' \<Rightarrow> (case extendsType (w_heap w' this) of
                                    None \<Rightarrow> None
                                  | Some t \<Rightarrow> getReference t)
                 | Throw e w' \<Rightarrow> None))"
proof (cases "extendsType (w_heap w this)")
  case None
  with assms show ?thesis
    by (auto simp: UCStructSymbol_index_extends_def split: option.splits)
next
  case (Some t)
  with assms obtain o' where o': "ITypeSymbol_index env (Some ctx) t w = Some o'"
    by (cases "ITypeSymbol_index env (Some ctx) t w")
       (auto simp: UCStructSymbol_index_extends_def)
  obtain t' w1 where s: "state_of o' = (t', w1)" by (cases "state_of o'")
  from ITypeSymbol_index_heap [OF o'] s have h: "w_heap w1 = w_heap w" by simp
  show ?thesis
  proof (cases o')
    case (Throw e x)
    with s have "x = (t', w1)" by simp
    with assms Some o' Throw have "outcome = Throw e (set_extendsType this t' w1)"
      by (simp add: UCStructSymbol_index_extends_def)
    then show ?thesis
      by (simp add: set_extendsType_links h split: option.splits)
  next
    case (Normal x)
    with s have x: "x = (t', w1)" by simp
    show ?thesis
    proof (cases "super (w_heap w this)")
      case None
      with assms Some o' Normal x h
      have "outcome = Normal ((set_extendsType this t' w1)\<lparr>w_heap :=
               (w_heap (set_extendsType this t' w1))
                 (this := (w_heap (set_extendsType this t' w1) this)\<lparr>super := getReference t'\<rparr>)\<rparr>)"
        by (simp add: UCStructSymbol_index_extends_def Let_def set_extendsType_links)
      with None show ?thesis
        by (simp add: set_extendsType_links h)
    next
      case (Some p)
      with assms \<open>extendsType (w_heap w this) = Some t\<close> o' Normal x h
      have "outcome = Normal (set_extendsType this t' w1)"
        by (simp add: UCStructSymbol_index_extends_def Let_def set_extendsType_links)
      with Some show ?thesis
        by (simp add: set_extendsType_links h)
    qed
  qed
qed

lemma UCSymbolReference_setReference_links:
  "super (w_heap (UCSymbolReference_setReference env this i symbol w) x) = super (w_heap w x)"
  "overriddenState (w_heap (UCSymbolReference_setReference env this i symbol w) x)
     = overriddenState (w_heap w x)"
  by (simp_all add: UCSymbolReference_setReference_def setReference_heap set_ignoreRef_def
      split: option.splits)

lemma index_ignoreRefs_links:
  "index_ignoreRefs env this refs w = Some outcome \<Longrightarrow>
   super (w_heap (state_of outcome) x) = super (w_heap w x)
   \<and> overriddenState (w_heap (state_of outcome) x) = overriddenState (w_heap w x)"
proof (induction refs arbitrary: w)
  case Nil
  then show ?case by auto
next
  case (Cons a refs)
  obtain i ref where a: "a = (i, ref)" by (cases a)
  show ?case
  proof (cases "findSuperSymbol (w_heap w) this (ref_name ref) None")
    case None
    with Cons.prems a show ?thesis by simp
  next
    case (Some r)
    show ?thesis
    proof (cases r)
      case (Inl e)
      with Cons.prems a Some show ?thesis by auto
    next
      case (Inr found)
      show ?thesis
      proof (cases found)
        case None
        with Cons.prems a Some Inr Cons.IH [of w] show ?thesis by simp
      next
        case (Some symbol)
        with Cons.prems a \<open>findSuperSymbol (w_heap w) this (ref_name ref) None = Some r\<close> Inr
          Cons.IH [of "UCSymbolReference_setReference env this i symbol w"]
        show ?thesis by (simp add: UCSymbolReference_setReference_links)
      qed
    qed
  qed
qed

lemma recorded_record_made:
  "recorded (record_made key ref made) k
     = (if k = key then insert ref (recorded made k) else recorded made k)"
proof (induction made)
  case Nil
  show ?case by (simp add: recorded_Nil recorded_Cons)
next
  case (Cons a made)
  obtain k0 v0 where a: "a = (k0, v0)" by (cases a)
  show ?case
    using Cons.IH unfolding a by (cases "k = key"; cases "k0 = key") (auto simp: recorded_Cons)
qed

lemma indexReference_recorded:
  "ref \<in> getIndexedReferences (w_index (indexReference key ref w)) key"
  "ref \<in> recorded (indexReferencesMade (w_document (indexReference key ref w))) key"
  by (simp_all add: indexReference_def addIndexedReference_def getIndexedReferences_def
      recorded_record_made)

lemma indexReference_consistent:
  assumes "index_consistent (w_document w) (w_index w)"
  shows "index_consistent (w_document (indexReference key ref w)) (w_index (indexReference key ref w))"
  using assms
  by (auto simp: index_consistent_def indexReference_def addIndexedReference_def
      getIndexedReferences_def recorded_record_made split: if_splits option.splits)

lemma override_step:
  assumes "super (w_heap w this) = None"
    and "super (w_heap w ctx) = Some context_super"
    and "findSuperSymbol (w_heap w) context_super (id_name (w_heap w this)) None
           = Some (Inr (Some overridden))"
    and "sym_class (w_heap w overridden) = UCStateSymbol"
  shows "UCStateSymbol_index_override env this ctx w =
     Some (Normal
       ((indexReference (getHash env (w_heap w overridden))
          \<lparr>ref_oid = w_oid w, location_uri = doc_uri (w_document w),
           location_range = id_range (w_heap w this), ref_symbol = None\<rparr>
          (w\<lparr>w_oid := Suc (w_oid w)\<rparr>))
        \<lparr>w_heap := (w_heap w)(this := (w_heap w this)
            \<lparr>overriddenState := Some overridden, super := Some overridden\<rparr>)\<rparr>))"
  using assms
  by (simp add: UCStateSymbol_index_override_def new_reference_def indexReference_def Let_def)

lemma index_call_State:
  "index_call env (StateIndex this ctx) w =
     (case UCStateSymbol_index_override env this ctx w of
        None \<Rightarrow> None
      | Some (Throw e w1) \<Rightarrow> Some (Throw e w1)
      | Some (Normal w1) \<Rightarrow>
          Option.bind (index_call env (StructIndex this ctx) w1)
            (\<lambda>r. case r of
               Throw e w2 \<Rightarrow> Some (Throw e w2)
             | Normal w2 \<Rightarrow>
                 (case ignoreRefs (w_heap w2 this) of
                    None \<Rightarrow> Some (Normal w2)
                  | Some refs \<Rightarrow> index_ignoreRefs env this (enumerate 0 refs) w2)))"
  by (subst index_call.simps) simp

lemma index_call_Struct:
  "index_call env (StructIndex this ctx) w =
     (case UCStructSymbol_index_extends env this ctx (UCFieldSymbol_index env this ctx w) of
        None \<Rightarrow> None
      | Some (Throw e w1) \<Rightarrow> Some (Throw e w1)
      | Some (Normal w1) \<Rightarrow> index_call env (ChildrenLoop this (children (w_heap w1 this))) w1)"
  by (subst index_call.simps) (simp add: Let_def)

lemma index_call_Children_None: "index_call env (ChildrenLoop this None) w = Some (Normal w)"
  by (subst index_call.simps) simp

lemma index_call_Children_Some:
  "index_call env (ChildrenLoop this (Some c)) w =
     Option.bind (index_call env (ChildIndex c this) w)
       (\<lambda>r. index_call env (ChildrenLoop this (nextSym (w_heap (state_of r) c))) (state_of r))"
  by (subst index_call.simps) simp

lemma index_call_Child:
  "index_call env (ChildIndex c ctx) w =
     (if sym_class (w_heap w c) = UCStateSymbol
      then index_call env (StateIndex c ctx) w
      else Some (Normal (child_index env c ctx w)))"
  by (subst index_call.simps) simp

lemma UCStructSymbol_index_eq:
  "UCStructSymbol_index env this ctx w =
     (case UCStructSymbol_index_extends env this ctx (UCFieldSymbol_index env this ctx w) of
        None \<Rightarrow> None
      | Some (Throw e w1) \<Rightarrow> Some (Throw e w1)
      | Some (Normal w1) \<Rightarrow> index_children env this (children (w_heap w1 this)) w1)"
  unfolding UCStructSymbol_index_def index_children_def by (rule index_call_Struct)

lemma index_children_eq:
  "index_children env this child w =
     (case child of
        None \<Rightarrow> Some (Normal w)
      | Some c \<Rightarrow>
          Option.bind (if sym_class (w_heap w c) = UCStateSymbol
                       then UCStateSymbol_index env c this w
                       else Some (Normal (child_index env c this w)))
            (\<lambda>r. index_children env this (nextSym (w_heap (state_of r) c)) (state_of r)))"
  by (cases child)
     (simp_all add: index_children_def UCStateSymbol_index_def index_call_Children_None
        index_call_Children_Some index_call_Child)

lemma UCStateSymbol_index_eq:
  "UCStateSymbol_index env this ctx w =
     (case UCStateSymbol_index_override env this ctx w of
        None \<Rightarrow> None
      | Some (Throw e w1) \<Rightarrow> Some (Throw e w1)
      | Some (Normal w1) \<Rightarrow>
          Option.bind (UCStructSymbol_index env this ctx w1)
            (\<lambda>r. case r of
               Throw e w2 \<Rightarrow> Some (Throw e w2)
             | Normal w2 \<Rightarrow>
                 (case ignoreRefs (w_heap w2 this) of
                    None \<Rightarrow> Some (Normal w2)
                  | Some refs \<Rightarrow> index_ignoreRefs env this (enumerate 0 refs) w2)))"
  unfolding UCStateSymbol_index_def UCStructSymbol_index_def by (rule index_call_State)

lemma override_step_kept:
  assumes "UCStateSymbol_index_override env this ctx w = Some outcome"
    and "super (w_heap w x) = Some p"
  shows "w_heap (state_of outcome) x = w_heap w x"
proof (cases "x = this")
  case True
  with assms show ?thesis by (auto simp: UCStateSymbol_index_override_def)
next
  case False
  with assms(1) show ?thesis
    by (auto simp: UCStateSymbol_index_override_def new_reference_def indexReference_def Let_def
        split: option.splits sum.splits if_splits)
qed

lemma extends_step_other:
  assumes "UCStructSymbol_index_extends env this ctx w = Some outcome" and "x \<noteq> this"
  shows "w_heap (state_of outcome) x = w_heap w x"
proof (cases "extendsType (w_heap w this)")
  case None
  with assms show ?thesis by (auto simp: UCStructSymbol_index_extends_def)
next
  case (Some t)
  with assms obtain o' where o': "ITypeSymbol_index env (Some ctx) t w = Some o'"
    by (cases "ITypeSymbol_index env (Some ctx) t w")
       (auto simp: UCStructSymbol_index_extends_def)
  obtain t' w1 where s: "state_of o' = (t', w1)" by (cases "state_of o'")
  from ITypeSymbol_index_heap [OF o'] s have h: "w_heap w1 = w_heap w" by simp
  from assms Some o' s h show ?thesis
    by (cases o') (auto simp: UCStructSymbol_index_extends_def Let_def set_extendsType_def
        split: if_splits)
qed

lemma extends_step_kept:
  assumes run: "UCStructSymbol_index_extends env this ctx w = Some outcome"
    and "super (w_heap w x) = Some p" and "overriddenState (w_heap w x) = q"
  shows "super (w_heap (state_of outcome) x) = Some p
       \<and> overriddenState (w_heap (state_of outcome) x) = q"
proof (cases "x = this")
  case True
  with extends_step_links [OF run] assms(2,3) show ?thesis by simp
next
  case False
  with extends_step_other [OF run] assms(2,3) show ?thesis by simp
qed

lemma index_call_keeps_links:
  assumes run: "index_call env call w = Some outcome"
    and f1: "keeps_links (UCFieldSymbol_index env) s"
    and f2: "keeps_links (child_index env) s"
    and start: "super (w_heap w s) = Some p" "overriddenState (w_heap w s) = q"
  shows "super (w_heap (state_of outcome) s) = Some p
       \<and> overriddenState (w_heap (state_of outcome) s) = q"
proof -
  let ?Q = "\<lambda>v. super (w_heap v s) = Some p \<and> overriddenState (w_heap v s) = q"
  have "env = env \<longrightarrow> ?Q w \<longrightarrow> ?Q (state_of outcome)"
  proof (rule index_call.raw_induct
      [where P = "\<lambda>e c v r. e = env \<longrightarrow> ?Q v \<longrightarrow> ?Q (state_of r)", OF _ run])
    fix f e c v r
    assume ih: "\<And>e' c' v' r'. f e' c' v' = Some r' \<Longrightarrow> e' = env \<longrightarrow> ?Q v' \<longrightarrow> ?Q (state_of r')"
      and body: "(case c of
        StateIndex this cx \<Rightarrow>
          (case UCStateSymbol_index_override e this cx v of
             None \<Rightarrow> None
           | Some (Throw x w1) \<Rightarrow> Some (Throw x w1)
           | Some (Normal w1) \<Rightarrow>
               Option.bind (f e (StructIndex this cx) w1)
                 (\<lambda>r. case r of
                    Throw x w2 \<Rightarrow> Some (Throw x w2)
                  | Normal w2 \<Rightarrow>
                      (case ignoreRefs (w_heap w2 this) of
                         None \<Rightarrow> Some (Normal w2)
                       | Some refs \<Rightarrow> index_ignoreRefs e this (enumerate 0 refs) w2)))
      | StructIndex this cx \<Rightarrow>
          (let w0 = UCFieldSymbol_index e this cx v
           in case UCStructSymbol_index_extends e this cx w0 of
                None \<Rightarrow> None
              | Some (Throw x w1) \<Rightarrow> Some (Throw x w1)
              | Some (Normal w1) \<Rightarrow>
                  f e (ChildrenLoop this (children (w_heap w1 this))) w1)
      | ChildrenLoop this child \<Rightarrow>
          (case child of
             None \<Rightarrow> Some (Normal v)
           | Some ch \<Rightarrow>
               Option.bind (f e (ChildIndex ch this) v)
                 (\<lambda>r. f e (ChildrenLoop this (nextSym (w_heap (state_of r) ch)))
                        (state_of r)))
      | ChildIndex child cx \<Rightarrow>
          if sym_class (w_heap v child) = UCStateSymbol
          then f e (StateIndex child cx) v
          else Some (Normal (child_index e child cx v))) = Some r"
    show "e = env \<longrightarrow> ?Q v \<longrightarrow> ?Q (state_of r)"
    proof (intro impI)
      assume e: "e = env" and q: "?Q v"
      show "?Q (state_of r)"
      proof (cases c)
        case (StateIndex this cx)
        from body StateIndex obtain o1 where o1: "UCStateSymbol_index_override e this cx v = Some o1"
          by (cases "UCStateSymbol_index_override e this cx v") auto
        from override_step_kept [OF o1, of s p] q have q1: "?Q (state_of o1)" by simp
        show ?thesis
        proof (cases o1)
          case (Throw x w1)
          with body StateIndex o1 q1 show ?thesis by auto
        next
          case (Normal w1)
          with body StateIndex o1 obtain o2 where o2: "f e (StructIndex this cx) w1 = Some o2"
            by (cases "f e (StructIndex this cx) w1") auto
          from ih [OF o2] e q1 Normal have q2: "?Q (state_of o2)" by simp
          show ?thesis
          proof (cases o2)
            case (Throw x w2)
            with body StateIndex o1 Normal o2 q2 show ?thesis by auto
          next
            case n2: (Normal w2)
            show ?thesis
            proof (cases "ignoreRefs (w_heap w2 this)")
              case None
              with body StateIndex o1 Normal o2 n2 q2 show ?thesis by auto
            next
              case (Some refs)
              with body StateIndex o1 Normal o2 n2
              have "index_ignoreRefs e this (enumerate 0 refs) w2 = Some r" by simp
              from index_ignoreRefs_links [OF this, of s] q2 n2 show ?thesis by simp
            qed
          qed
        qed
      next
        case (StructIndex this cx)
        let ?w0 = "UCFieldSymbol_index e this cx v"
        have q0: "?Q ?w0" using f1 q e by (simp add: keeps_links_def)
        from body StructIndex obtain o3 where o3: "UCStructSymbol_index_extends e this cx ?w0 = Some o3"
          by (cases "UCStructSymbol_index_extends e this cx ?w0") (auto simp: Let_def)
        from extends_step_kept [OF o3, of s p q] q0 have q3: "?Q (state_of o3)" by simp
        show ?thesis
        proof (cases o3)
          case (Throw x w1)
          with body StructIndex o3 q3 show ?thesis by (auto simp: Let_def)
        next
          case (Normal w1)
          with body StructIndex o3
          have "f e (ChildrenLoop this (children (w_heap w1 this))) w1 = Some r"
            by (simp add: Let_def)
          from ih [OF this] e q3 Normal show ?thesis by simp
        qed
      next
        case (ChildrenLoop this child)
        show ?thesis
        proof (cases child)
          case None
          with body ChildrenLoop q show ?thesis by auto
        next
          case (Some ch)
          with body ChildrenLoop obtain o1 where o1: "f e (ChildIndex ch this) v = Some o1"
            and o2: "f e (ChildrenLoop this (nextSym (w_heap (state_of o1) ch))) (state_of o1) = Some r"
            by (cases "f e (ChildIndex ch this) v") auto
          from ih [OF o1] e q have "?Q (state_of o1)" by simp
          with ih [OF o2] e show ?thesis by simp
        qed
      next
        case (ChildIndex child cx)
        show ?thesis
        proof (cases "sym_class (w_heap v child) = UCStateSymbol")
          case True
          with body ChildIndex have "f e (StateIndex child cx) v = Some r" by simp
          from ih [OF this] e q show ?thesis by simp
        next
          case False
          with body ChildIndex have "r = Normal (child_index e child cx v)" by auto
          with f2 q e show ?thesis by (simp add: keeps_links_def)
        qed
      qed
    qed
  qed
  with start show ?thesis by simp
qed


lemma children_loop_returns:
  assumes "chain (w_heap v) child = Some cs"
    and "\<forall>c\<in>set cs. sym_class (w_heap v c) \<noteq> UCStateSymbol"
    and "keeps_store (child_index env)"
  shows "\<exists>v'. index_call env (ChildrenLoop this child) v = Some (Normal v') \<and> w_heap v' = w_heap v"
  using assms(1,2)
proof (induction cs arbitrary: child v)
  case Nil
  then have "child = None"
    by (cases child) (auto simp: chain_Some split: Option.bind_splits)
  then show ?case by (simp add: index_call_Children_None)
next
  case (Cons a cs)
  then obtain child: "child = Some a" and rest: "chain (w_heap v) (nextSym (w_heap v a)) = Some cs"
    by (cases child) (auto simp: chain_None chain_Some split: Option.bind_splits)
  let ?v1 = "child_index env a this v"
  have h1: "w_heap ?v1 = w_heap v" using assms(3) by (simp add: keeps_store_def)
  have one: "index_call env (ChildIndex a this) v = Some (Normal ?v1)"
    using Cons.prems(2) by (simp add: index_call_Child)
  from Cons.IH [of ?v1 "nextSym (w_heap v a)"] rest Cons.prems(2) h1
  obtain v' where "index_call env (ChildrenLoop this (nextSym (w_heap v a))) ?v1 = Some (Normal v')"
    and "w_heap v' = w_heap v"
    by auto
  with child one h1 show ?case by (simp add: index_call_Children_Some)
qed

lemma getSymbol_loop_fields_run:
  assumes eq: "\<And>x. lookup_fields (h' x) = lookup_fields (h x)"
    and run: "getSymbol_loop h c i k = Some r"
  shows "getSymbol_loop h' c i k = Some r"
proof -
  have "h = h \<longrightarrow> getSymbol_loop h' c i k = Some r"
  proof (rule getSymbol_loop.raw_induct
      [where P = "\<lambda>h0 c i k r. h0 = h \<longrightarrow> getSymbol_loop h' c i k = Some r", OF _ run])
    fix f h0 c i k r
    assume ih: "\<And>h1 c' i' k' r'. f h1 c' i' k' = Some r' \<Longrightarrow>
                  h1 = h \<longrightarrow> getSymbol_loop h' c' i' k' = Some r'"
      and body: "(case c of
                    None \<Rightarrow> Some None
                  | Some ch \<Rightarrow>
                      if id_name (h0 ch) = i
                      then (if kind_excludes k (getTypeFlags (h0 ch))
                            then f h0 (nextSym (h0 ch)) i k
                            else Some (Some ch))
                      else f h0 (nextSym (h0 ch)) i k) = Some r"
    show "h0 = h \<longrightarrow> getSymbol_loop h' c i k = Some r"
    proof
      assume h0: "h0 = h"
      show "getSymbol_loop h' c i k = Some r"
      proof (cases c)
        case None
        with body show ?thesis by (subst getSymbol_loop.simps) simp
      next
        case (Some ch)
        from eq [of ch] have f: "id_name (h' ch) = id_name (h ch)"
          "getTypeFlags (h' ch) = getTypeFlags (h ch)" "nextSym (h' ch) = nextSym (h ch)"
          by (simp_all add: lookup_fields_def)
        show ?thesis
        proof (cases "id_name (h ch) = i \<and> \<not> kind_excludes k (getTypeFlags (h ch))")
          case True
          with body Some h0 f show ?thesis by (subst getSymbol_loop.simps) auto
        next
          case False
          with body Some h0 have "f h (nextSym (h ch)) i k = Some r" by (auto split: if_splits)
          from ih [OF this] have "getSymbol_loop h' (nextSym (h ch)) i k = Some r" by simp
          with False Some f show ?thesis by (subst getSymbol_loop.simps) auto
        qed
      qed
    qed
  qed
  then show ?thesis by simp
qed

lemma getSymbol_loop_fields:
  assumes "\<And>x. lookup_fields (h' x) = lookup_fields (h x)"
  shows "getSymbol_loop h' c i k = getSymbol_loop h c i k"
proof (cases "getSymbol_loop h c i k")
  case (Some r)
  with getSymbol_loop_fields_run [of h' h, OF assms] show ?thesis by simp
next
  case None
  show ?thesis
  proof (cases "getSymbol_loop h' c i k")
    case n: None
    with None show ?thesis by simp
  next
    case (Some r)
    from getSymbol_loop_fields_run [of h h', OF _ Some] assms None show ?thesis by simp
  qed
qed

lemma getSymbol_fields:
  assumes "\<And>x. lookup_fields (h' x) = lookup_fields (h x)"
  shows "getSymbol h' this i k = getSymbol h this i k"
proof -
  from assms [of this] have "children (h' this) = children (h this)"
    by (simp add: lookup_fields_def)
  with getSymbol_loop_fields [of h' h, OF assms] show ?thesis by (simp add: getSymbol_def)
qed

lemma findSuperSymbol_fields_run:
  assumes eq: "\<And>x. lookup_fields (h' x) = lookup_fields (h x)"
    and run: "findSuperSymbol h this i k = Some r"
  shows "findSuperSymbol h' this i k = Some r"
proof -
  have "h = h \<longrightarrow> findSuperSymbol h' this i k = Some r"
  proof (rule findSuperSymbol.raw_induct
      [where P = "\<lambda>h0 t i k r. h0 = h \<longrightarrow> findSuperSymbol h' t i k = Some r", OF _ run])
    fix f h0 t i k r
    assume ih: "\<And>h1 t' i' k' r'. f h1 t' i' k' = Some r' \<Longrightarrow>
                  h1 = h \<longrightarrow> findSuperSymbol h' t' i' k' = Some r'"
      and body: "(if \<not> instanceof_UCStructSymbol (sym_class (h0 t)) then Some (Inl TypeError)
      else case getSymbol h0 t i k of
        None \<Rightarrow> None
      | Some (Some c) \<Rightarrow> Some (Inr (Some c))
      | Some None \<Rightarrow>
          Option.bind
            (case super (h0 t) of
               None \<Rightarrow> Some (Inr None)
             | Some parent \<Rightarrow> f h0 parent i k)
            (\<lambda>r. case r of
               Inl e \<Rightarrow> Some (Inl e)
             | Inr (Some c) \<Rightarrow> Some (Inr (Some c))
             | Inr None \<Rightarrow>
                 if sym_class (h0 t) = UCStateSymbol
                 then (case outer (h0 t) of
                         None \<Rightarrow> Some (Inl TypeError)
                       | Some out \<Rightarrow> f h0 out i k)
                 else Some (Inr None))) = Some r"
    show "h0 = h \<longrightarrow> findSuperSymbol h' t i k = Some r"
    proof
      assume h0: "h0 = h"
      from eq [of t] have fl: "sym_class (h' t) = sym_class (h t)" "super (h' t) = super (h t)"
        "outer (h' t) = outer (h t)"
        by (simp_all add: lookup_fields_def)
      note g = getSymbol_fields [of h' h, OF eq]
      show "findSuperSymbol h' t i k = Some r"
      proof (cases "instanceof_UCStructSymbol (sym_class (h t))")
        case False
        with body h0 fl show ?thesis by (subst findSuperSymbol.simps) simp
      next
        case True
        from body True h0 obtain g0 where g0: "getSymbol h t i k = Some g0"
          by (cases "getSymbol h t i k") auto
        show ?thesis
        proof (cases g0)
          case (Some c)
          with body True h0 g0 fl g show ?thesis by (subst findSuperSymbol.simps) simp
        next
          case None
          define up where "up = (case super (h t) of
               None \<Rightarrow> Some (Inr None)
             | Some parent \<Rightarrow> f h parent i k)"
          define up' where "up' = (case super (h t) of
               None \<Rightarrow> Some (Inr None)
             | Some parent \<Rightarrow> findSuperSymbol h' parent i k)"
          from body True h0 g0 None obtain u where u: "up = Some u"
            by (cases up) (auto simp: up_def)
          have u': "up' = Some u"
          proof (cases "super (h t)")
            case None
            with u show ?thesis by (simp add: up_def up'_def)
          next
            case (Some parent)
            with u have "f h parent i k = Some u" by (simp add: up_def)
            from ih [OF this] Some show ?thesis by (simp add: up'_def)
          qed
          have unfold: "findSuperSymbol h' t i k =
            (case u of
               Inl e \<Rightarrow> Some (Inl e)
             | Inr (Some c) \<Rightarrow> Some (Inr (Some c))
             | Inr None \<Rightarrow>
                 if sym_class (h t) = UCStateSymbol
                 then (case outer (h t) of
                         None \<Rightarrow> Some (Inl TypeError)
                       | Some out \<Rightarrow> findSuperSymbol h' out i k)
                 else Some (Inr None))"
            using True g0 None fl g u'
            by (subst findSuperSymbol.simps) (simp add: up'_def split: sum.splits option.splits)
          have rest: "(case u of
               Inl e \<Rightarrow> Some (Inl e)
             | Inr (Some c) \<Rightarrow> Some (Inr (Some c))
             | Inr None \<Rightarrow>
                 if sym_class (h t) = UCStateSymbol
                 then (case outer (h t) of
                         None \<Rightarrow> Some (Inl TypeError)
                       | Some out \<Rightarrow> f h out i k)
                 else Some (Inr None)) = Some r"
            using body [unfolded h0] True g0 None u
            by (simp add: up_def split: sum.splits option.splits)
          show ?thesis
          proof (cases u)
            case (Inl e)
            with unfold rest show ?thesis by simp
          next
            case (Inr found)
            show ?thesis
            proof (cases found)
              case (Some c)
              with Inr unfold rest show ?thesis by simp
            next
              case n: None
              show ?thesis
              proof (cases "sym_class (h t) = UCStateSymbol")
                case False
                with Inr n unfold rest show ?thesis by simp
              next
                case st: True
                show ?thesis
                proof (cases "outer (h t)")
                  case None
                  with Inr n st unfold rest show ?thesis by simp
                next
                  case (Some out)
                  with Inr n st rest have "f h out i k = Some r" by simp
                  from ih [OF this] Inr n st Some unfold show ?thesis by simp
                qed
              qed
            qed
          qed
        qed
      qed
    qed
  qed
  then show ?thesis by simp
qed

lemma findSuperSymbol_fields:
  assumes "\<And>x. lookup_fields (h' x) = lookup_fields (h x)"
  shows "findSuperSymbol h' this i k = findSuperSymbol h this i k"
proof (cases "findSuperSymbol h this i k")
  case (Some r)
  with findSuperSymbol_fields_run [of h' h, OF assms] show ?thesis by simp
next
  case None
  show ?thesis
  proof (cases "findSuperSymbol h' this i k")
    case n: None
    with None show ?thesis by simp
  next
    case (Some r)
    from findSuperSymbol_fields_run [of h h', OF _ Some] assms None show ?thesis by simp
  qed
qed

lemma setReference_fields:
  "lookup_fields (w_heap (UCSymbolReference_setReference env this i symbol w) x)
     = lookup_fields (w_heap w x)"
  by (simp add: UCSymbolReference_setReference_def setReference_heap set_ignoreRef_def
      lookup_fields_def split: option.splits)

lemma index_ignoreRefs_returns:
  assumes "\<And>x. lookup_fields (w_heap w x) = lookup_fields (h x)"
    and "\<forall>r\<in>set refs. findSuperSymbol h this (ref_name (snd r)) None \<noteq> None"
  shows "\<exists>outcome. index_ignoreRefs env this refs w = Some outcome"
  using assms
proof (induction refs arbitrary: w)
  case Nil
  show ?case by simp
next
  case (Cons a refs)
  obtain i ref where a: "a = (i, ref)" by (cases a)
  have "findSuperSymbol (w_heap w) this (ref_name ref) None
          = findSuperSymbol h this (ref_name ref) None"
    by (rule findSuperSymbol_fields) (rule Cons.prems(1))
  with Cons.prems(2) a obtain r where r: "findSuperSymbol (w_heap w) this (ref_name ref) None = Some r"
    by auto
  show ?case
  proof (cases r)
    case (Inl e)
    with a r show ?thesis by simp
  next
    case (Inr found)
    show ?thesis
    proof (cases found)
      case None
      with a r Inr Cons.IH [of w] Cons.prems show ?thesis by simp
    next
      case (Some symbol)
      have "\<exists>outcome. index_ignoreRefs env this refs
               (UCSymbolReference_setReference env this i symbol w) = Some outcome"
      proof (rule Cons.IH)
        show "lookup_fields (w_heap (UCSymbolReference_setReference env this i symbol w) x)
                = lookup_fields (h x)" for x
          using Cons.prems(1) [of x] by (simp add: setReference_fields)
        show "\<forall>r\<in>set refs. findSuperSymbol h this (ref_name (snd r)) None \<noteq> None"
          using Cons.prems(2) by simp
      qed
      with a r Inr Some show ?thesis by simp
    qed
  qed
qed


lemma index_ignoreRefs_fields:
  "index_ignoreRefs env this refs w = Some outcome \<Longrightarrow>
   lookup_fields (w_heap (state_of outcome) x) = lookup_fields (w_heap w x)"
proof (induction refs arbitrary: w)
  case Nil
  then show ?case by auto
next
  case (Cons a refs)
  obtain i ref where a: "a = (i, ref)" by (cases a)
  show ?case
  proof (cases "findSuperSymbol (w_heap w) this (ref_name ref) None")
    case None
    with Cons.prems a show ?thesis by simp
  next
    case (Some r)
    show ?thesis
    proof (cases r)
      case (Inl e)
      with Cons.prems a Some show ?thesis by auto
    next
      case (Inr found)
      show ?thesis
      proof (cases found)
        case None
        with Cons.prems a Some Inr Cons.IH [of w] show ?thesis by simp
      next
        case (Some symbol)
        with Cons.prems a \<open>findSuperSymbol (w_heap w) this (ref_name ref) None = Some r\<close> Inr
          Cons.IH [of "UCSymbolReference_setReference env this i symbol w"]
        show ?thesis by (simp add: setReference_fields)
      qed
    qed
  qed
qed


lemma keeps_store_links: "keeps_store f \<Longrightarrow> keeps_links f s"
  by (simp add: keeps_store_def keeps_links_def)

lemma state_index_links:
  assumes run: "UCStateSymbol_index env this ctx w = Some outcome"
    and step: "UCStateSymbol_index_override env this ctx w = Some (Normal w1)"
    and l: "super (w_heap w1 this) = Some p" "overriddenState (w_heap w1 this) = q"
    and f1: "keeps_links (UCFieldSymbol_index env) this"
    and f2: "keeps_links (child_index env) this"
  shows "super (w_heap (state_of outcome) this) = Some p
       \<and> overriddenState (w_heap (state_of outcome) this) = q"
proof -
  from run step obtain o2 where o2: "index_call env (StructIndex this ctx) w1 = Some o2"
    by (cases "index_call env (StructIndex this ctx) w1")
       (auto simp: UCStateSymbol_index_def index_call_State)
  from index_call_keeps_links [OF o2 f1 f2 l]
  have q2: "super (w_heap (state_of o2) this) = Some p
            \<and> overriddenState (w_heap (state_of o2) this) = q" .
  show ?thesis
  proof (cases o2)
    case (Throw e v)
    with run step o2 have "outcome = Throw e v"
      by (simp add: UCStateSymbol_index_def index_call_State)
    with q2 Throw show ?thesis by simp
  next
    case (Normal v)
    show ?thesis
    proof (cases "ignoreRefs (w_heap v this)")
      case None
      with run step o2 Normal have "outcome = Normal v"
        by (simp add: UCStateSymbol_index_def index_call_State)
      with q2 Normal show ?thesis by simp
    next
      case (Some refs)
      with run step o2 Normal have "index_ignoreRefs env this (enumerate 0 refs) v = Some outcome"
        by (simp add: UCStateSymbol_index_def index_call_State)
      from index_ignoreRefs_links [OF this, of this] q2 Normal show ?thesis by simp
    qed
  qed
qed

lemma state_index_returns_fields:
  assumes ext: "extendsType (w_heap w this) = None"
    and sup: "super (w_heap w this) = None"
    and csup: "super (w_heap w ctx) = Some context_super"
    and found: "findSuperSymbol (w_heap w) context_super (id_name (w_heap w this)) None
           = Some (Inr (Some overridden))"
    and st: "sym_class (w_heap w overridden) = UCStateSymbol"
    and s1: "keeps_store (UCFieldSymbol_index env)"
    and s2: "keeps_store (child_index env)"
    and ch: "chain (w_heap w) (children (w_heap w this)) = Some cs"
    and ns: "\<forall>c\<in>set cs. sym_class (w_heap w c) \<noteq> UCStateSymbol"
    and ig: "\<forall>r\<in>set (case ignoreRefs (w_heap w this) of None \<Rightarrow> [] | Some refs \<Rightarrow> refs).
               findSuperSymbol
                 ((w_heap w)(this := (w_heap w this)
                     \<lparr>overriddenState := Some overridden, super := Some overridden\<rparr>))
                 this (ref_name r) None \<noteq> None"
  shows "\<exists>outcome. UCStateSymbol_index env this ctx w = Some outcome
           \<and> overriddenState (w_heap (state_of outcome) this) = Some overridden
           \<and> (\<forall>x. lookup_fields (w_heap (state_of outcome) x)
                  = lookup_fields (((w_heap w)(this := (w_heap w this)
                       \<lparr>overriddenState := Some overridden, super := Some overridden\<rparr>)) x))"
proof -
  let ?h1 = "(w_heap w)(this := (w_heap w this)
                \<lparr>overriddenState := Some overridden, super := Some overridden\<rparr>)"
  let ?w1 = "(indexReference (getHash env (w_heap w overridden))
          \<lparr>ref_oid = w_oid w, location_uri = doc_uri (w_document w),
           location_range = id_range (w_heap w this), ref_symbol = None\<rparr>
          (w\<lparr>w_oid := Suc (w_oid w)\<rparr>))\<lparr>w_heap := ?h1\<rparr>"
  let ?w0 = "UCFieldSymbol_index env this ctx ?w1"
  have step: "UCStateSymbol_index_override env this ctx w = Some (Normal ?w1)"
    using sup csup found st by (rule override_step)
  have h0: "w_heap ?w0 = ?h1" using s1 by (simp add: keeps_store_def)
  have e0: "UCStructSymbol_index_extends env this ctx ?w0 = Some (Normal ?w0)"
    using ext by (simp add: UCStructSymbol_index_extends_def h0)
  have "chain ?h1 (children (w_heap w this)) = Some cs"
    using ch by (rule chain_next_cong) simp
  then have c0: "chain (w_heap ?w0) (children (w_heap ?w0 this)) = Some cs"
    by (simp add: h0)
  have n0: "\<forall>c\<in>set cs. sym_class (w_heap ?w0 c) \<noteq> UCStateSymbol"
    using ns by (simp add: h0)
  from children_loop_returns [OF c0 n0 s2, of this]
  obtain v' where loop: "index_call env (ChildrenLoop this (children (w_heap ?w0 this))) ?w0
                           = Some (Normal v')"
    and hv: "w_heap v' = ?h1"
    using h0 by auto
  have str: "index_call env (StructIndex this ctx) ?w1 = Some (Normal v')"
    using e0 loop by (simp add: index_call_Struct)
  have "\<exists>outcome. UCStateSymbol_index env this ctx w = Some outcome
           \<and> (\<forall>x. lookup_fields (w_heap (state_of outcome) x) = lookup_fields (?h1 x))"
  proof (cases "ignoreRefs (w_heap w this)")
    case None
    then have "ignoreRefs (w_heap v' this) = None" by (simp add: hv)
    with step str have "UCStateSymbol_index env this ctx w = Some (Normal v')"
      by (simp add: UCStateSymbol_index_def index_call_State)
    with hv show ?thesis by simp
  next
    case (Some refs)
    then have i: "ignoreRefs (w_heap v' this) = Some refs" by (simp add: hv)
    have "\<exists>outcome. index_ignoreRefs env this (enumerate 0 refs) v' = Some outcome"
    proof (rule index_ignoreRefs_returns [where h = ?h1])
      show "lookup_fields (w_heap v' x) = lookup_fields (?h1 x)" for x by (simp add: hv)
      show "\<forall>r\<in>set (enumerate 0 refs). findSuperSymbol ?h1 this (ref_name (snd r)) None \<noteq> None"
        using ig Some by (auto simp: in_set_enumerate_eq)
    qed
    then obtain outcome where o: "index_ignoreRefs env this (enumerate 0 refs) v' = Some outcome"
      by blast
    with step str i have "UCStateSymbol_index env this ctx w = Some outcome"
      by (simp add: UCStateSymbol_index_def index_call_State)
    moreover have "lookup_fields (w_heap (state_of outcome) x) = lookup_fields (?h1 x)" for x
      using index_ignoreRefs_fields [OF o, of x] by (simp add: hv)
    ultimately show ?thesis by blast
  qed
  then obtain outcome where run: "UCStateSymbol_index env this ctx w = Some outcome"
    and fl: "\<forall>x. lookup_fields (w_heap (state_of outcome) x) = lookup_fields (?h1 x)"
    by blast
  have "super (w_heap ?w1 this) = Some overridden" "overriddenState (w_heap ?w1 this) = Some overridden"
    by simp_all
  from state_index_links [OF run step this keeps_store_links [OF s1] keeps_store_links [OF s2]]
  have "overriddenState (w_heap (state_of outcome) this) = Some overridden" by simp
  with run fl show ?thesis by blast
qed

lemma extends_step_sets_super:
  assumes "extendsType (w_heap w this) = Some (ObjectType ident rng kind None None)"
    and "resolve_reference env (w_heap w) ctx ident kind = Some (Inr (Some s))"
    and "super (w_heap w this) = None"
  shows "UCStructSymbol_index_extends env this ctx w =
           Some (Normal ((setReference env s ident rng w)
             \<lparr>w_heap := (w_heap w)(this := (w_heap w this)
                 \<lparr>extendsType := Some (ObjectType ident rng kind (Some s) None),
                  super := Some s\<rparr>)\<rparr>))"
  using assms
  by (simp add: UCStructSymbol_index_extends_def Let_def set_extendsType_def setReference_heap)

lemma children_loop_links_state:
  assumes s1: "keeps_store (UCFieldSymbol_index env)"
    and s2: "keeps_store (child_index env)"
  shows "chain (w_heap v) child = Some ys \<Longrightarrow> this \<in> set ys \<Longrightarrow>
    \<forall>c\<in>set ys. c \<noteq> this \<longrightarrow> sym_class (w_heap v c) \<noteq> UCStateSymbol \<Longrightarrow>
    sym_class (w_heap v this) = UCStateSymbol \<Longrightarrow>
    extendsType (w_heap v this) = None \<Longrightarrow>
    super (w_heap v this) = None \<Longrightarrow>
    super (w_heap v ctx) = Some context_super \<Longrightarrow>
    findSuperSymbol (w_heap v) context_super (id_name (w_heap v this)) None
      = Some (Inr (Some overridden)) \<Longrightarrow>
    sym_class (w_heap v overridden) = UCStateSymbol \<Longrightarrow>
    chain (w_heap v) (children (w_heap v this)) = Some cs \<Longrightarrow>
    \<forall>c\<in>set cs. sym_class (w_heap v c) \<noteq> UCStateSymbol \<Longrightarrow>
    \<forall>r\<in>set (case ignoreRefs (w_heap v this) of None \<Rightarrow> [] | Some refs \<Rightarrow> refs).
       findSuperSymbol
         ((w_heap v)(this := (w_heap v this)
             \<lparr>overriddenState := Some overridden, super := Some overridden\<rparr>))
         this (ref_name r) None \<noteq> None \<Longrightarrow>
    \<exists>v'. index_call env (ChildrenLoop ctx child) v = Some (Normal v')
        \<and> overriddenState (w_heap v' this) = Some overridden
        \<and> (\<forall>x. lookup_fields (w_heap v' x)
               = lookup_fields (((w_heap v)(this := (w_heap v this)
                    \<lparr>overriddenState := Some overridden, super := Some overridden\<rparr>)) x))"
proof (induction ys arbitrary: child v)
  case Nil
  then show ?case by simp
next
  case (Cons a ys)
  from Cons.prems(1) obtain child: "child = Some a"
    and rest: "chain (w_heap v) (nextSym (w_heap v a)) = Some ys"
    by (cases child) (auto simp: chain_None chain_Some split: Option.bind_splits)
  from chain_distinct [OF Cons.prems(1)] have d: "a \<notin> set ys" by simp
  let ?h1 = "(w_heap v)(this := (w_heap v this)
                \<lparr>overriddenState := Some overridden, super := Some overridden\<rparr>)"
  show ?case
  proof (cases "a = this")
    case False
    let ?v1 = "child_index env a ctx v"
    have h1: "w_heap ?v1 = w_heap v" using s2 by (simp add: keeps_store_def)
    from False Cons.prems(3) have "sym_class (w_heap v a) \<noteq> UCStateSymbol" by simp
    then have one: "index_call env (ChildIndex a ctx) v = Some (Normal ?v1)"
      by (simp add: index_call_Child)
    from False Cons.prems(2) have "this \<in> set ys" by simp
    from Cons.IH [of ?v1 "nextSym (w_heap v a)", unfolded h1, OF rest this] Cons.prems(3-12)
    obtain v' where "index_call env (ChildrenLoop ctx (nextSym (w_heap v a))) ?v1 = Some (Normal v')"
      and "overriddenState (w_heap v' this) = Some overridden"
      and "\<forall>x. lookup_fields (w_heap v' x) = lookup_fields (?h1 x)"
      by auto
    with child one h1 show ?thesis by (simp add: index_call_Children_Some)
  next
    case True
    from state_index_returns_fields [OF Cons.prems(5-9) s1 s2 Cons.prems(10-12)]
    obtain outcome where run: "UCStateSymbol_index env this ctx v = Some outcome"
      and ov: "overriddenState (w_heap (state_of outcome) this) = Some overridden"
      and fl: "\<forall>x. lookup_fields (w_heap (state_of outcome) x) = lookup_fields (?h1 x)"
      by blast
    have one: "index_call env (ChildIndex a ctx) v = Some outcome"
      using True Cons.prems(4) run by (simp add: index_call_Child UCStateSymbol_index_def)
    have nx: "nextSym (w_heap (state_of outcome) x) = nextSym (w_heap v x)" for x
      using fl [rule_format, of x] by (cases "x = this") (simp_all add: lookup_fields_def)
    have sc: "sym_class (w_heap (state_of outcome) x) = sym_class (w_heap v x)" for x
      using fl [rule_format, of x] by (cases "x = this") (simp_all add: lookup_fields_def)
    have c2: "chain (w_heap (state_of outcome)) (nextSym (w_heap v a)) = Some ys"
      using rest by (rule chain_next_cong) (simp add: nx)
    have n2: "\<forall>c\<in>set ys. sym_class (w_heap (state_of outcome) c) \<noteq> UCStateSymbol"
      using Cons.prems(3) d True by (auto simp: sc)
    from children_loop_returns [OF c2 n2 s2, of ctx]
    obtain v' where loop: "index_call env (ChildrenLoop ctx (nextSym (w_heap v a))) (state_of outcome)
                             = Some (Normal v')"
      and hv: "w_heap v' = w_heap (state_of outcome)"
      by blast
    from child one loop nx [of a]
    have "index_call env (ChildrenLoop ctx child) v = Some (Normal v')"
      by (simp add: index_call_Children_Some)
    with hv ov fl show ?thesis by simp
  qed
qed


lemma class_index_links_state:
  fixes w0 :: World and ctx context_super :: sid and cn :: Name and cr :: Range and h1 :: heap
  defines "h1 \<equiv> (w_heap w0)(ctx := (w_heap w0 ctx)
      \<lparr>extendsType := Some (ObjectType cn cr (Some TK_Class) (Some context_super) None),
       super := Some context_super\<rparr>)"
  assumes s1: "keeps_store (UCFieldSymbol_index env)"
    and s2: "keeps_store (child_index env)"
    and cls: "extendsType (w_heap w0 ctx) = Some (ObjectType cn cr (Some TK_Class) None None)"
    and nsup: "super (w_heap w0 ctx) = None"
    and tbl: "SymbolsTable_findSymbol env cn True = Some context_super"
    and ys: "chain h1 (children (h1 ctx)) = Some ys" "this \<in> set ys"
      "\<forall>c\<in>set ys. c \<noteq> this \<longrightarrow> sym_class (h1 c) \<noteq> UCStateSymbol"
      "sym_class (h1 this) = UCStateSymbol"
    and st: "extendsType (h1 this) = None" "super (h1 this) = None"
      "findSuperSymbol h1 context_super (id_name (h1 this)) None = Some (Inr (Some overridden))"
      "sym_class (h1 overridden) = UCStateSymbol"
      "chain h1 (children (h1 this)) = Some cs"
      "\<forall>c\<in>set cs. sym_class (h1 c) \<noteq> UCStateSymbol"
      "\<forall>r\<in>set (case ignoreRefs (h1 this) of None \<Rightarrow> [] | Some refs \<Rightarrow> refs).
         findSuperSymbol
           (h1(this := (h1 this)\<lparr>overriddenState := Some overridden, super := Some overridden\<rparr>))
           this (ref_name r) None \<noteq> None"
  shows "\<exists>w'. UCStructSymbol_index env ctx cx w0 = Some (Normal w')
           \<and> super (w_heap w' ctx) = Some context_super
           \<and> super (w_heap w' this) = Some overridden
           \<and> overriddenState (w_heap w' this) = Some overridden"
proof -
  let ?W0 = "UCFieldSymbol_index env ctx cx w0"
  have h0: "w_heap ?W0 = w_heap w0" using s1 by (simp add: keeps_store_def)
  have r: "resolve_reference env (w_heap ?W0) cx cn (Some TK_Class) = Some (Inr (Some context_super))"
    by (simp add: resolve_reference_def tbl)
  let ?W1 = "(setReference env context_super cn cr ?W0)\<lparr>w_heap := h1\<rparr>"
  have e: "UCStructSymbol_index_extends env ctx cx ?W0 = Some (Normal ?W1)"
    using extends_step_sets_super [of ?W0 ctx cn cr "Some TK_Class" env cx context_super] cls nsup r
    by (simp add: h0 h1_def)
  have w1: "w_heap ?W1 = h1" by simp
  have cs: "super (h1 ctx) = Some context_super" by (simp add: h1_def)
  from children_loop_links_state [OF s1 s2, of ?W1 "children (h1 ctx)" ys this ctx context_super
      overridden cs, unfolded w1, OF ys st(1,2) cs st(3-7)]
  obtain v' where loop: "index_call env (ChildrenLoop ctx (children (h1 ctx))) ?W1 = Some (Normal v')"
    and ov: "overriddenState (w_heap v' this) = Some overridden"
    and fl: "\<forall>x. lookup_fields (w_heap v' x)
               = lookup_fields ((h1(this := (h1 this)
                    \<lparr>overriddenState := Some overridden, super := Some overridden\<rparr>)) x)"
    by blast
  have run: "UCStructSymbol_index env ctx cx w0 = Some (Normal v')"
    unfolding UCStructSymbol_index_def index_call_Struct e using loop by simp
  from cs st(2) have ne: "ctx \<noteq> this" by auto
  from fl [rule_format, of this] have "super (w_heap v' this) = Some overridden"
    by (simp add: lookup_fields_def)
  moreover from fl [rule_format, of ctx] ne cs have "super (w_heap v' ctx) = Some context_super"
    by (simp add: lookup_fields_def)
  ultimately show ?thesis using run ov by blast
qed


text \<open>
  C3, as the code has it. Let \<open>this\<close> be a state without an extends clause, whose
  \<^verbatim>\<open>super\<close> is not set (the builder leaves it unset, and for such a state only this
  method sets it), in a context (its class) whose \<^verbatim>\<open>super\<close> is set, and let
  \<^verbatim>\<open>findSuperSymbol\<close>, started at the context's super with the name of the state,
  find a symbol that is a state.

  \<^item> The first part of \<^verbatim>\<open>UCStateSymbol.index\<close> returns with \<^verbatim>\<open>super\<close> and
    \<^verbatim>\<open>overriddenState\<close> set to the state found, and with a reference record at the
    state's identifier recorded for it, in the global index and in the document's map.
  \<^item> Whenever the whole of \<^verbatim>\<open>UCStateSymbol.index\<close> ends, by returning or by throwing,
    the two links are the state found; for this the code outside the sources is taken
    to leave the two links alone.
  \<^item> The whole of \<^verbatim>\<open>UCStateSymbol.index\<close> does end, with the two links set, when the
    code outside the sources leaves the object store alone, the members of the state
    are finitely many and none of them is a state, and the lookups of the names of
    its \<^verbatim>\<open>ignores\<close> clause end.
  \<^item> Then indexing the class does it as well: let the state \<open>w\<close> in which the state
    symbol is indexed be the one that \<^verbatim>\<open>UCStructSymbol.index\<close> of the class reaches from
    \<open>w0\<close> when it has resolved the extends clause of the class (a reference of kind
    \<open>Class\<close> that the global symbols table resolves), and let the state symbol be the only
    state among the children of the class. Then \<^verbatim>\<open>UCStructSymbol.index\<close> of the class
    returns from \<open>w0\<close>, with the \<^verbatim>\<open>super\<close> of the class resolved and the two links of
    the state set.
\<close>

theorem state_override_link:
  assumes "extendsType (w_heap w this) = None"
    and "super (w_heap w this) = None"
    and "super (w_heap w ctx) = Some context_super"
    and "findSuperSymbol (w_heap w) context_super (id_name (w_heap w this)) None
           = Some (Inr (Some overridden))"
    and "sym_class (w_heap w overridden) = UCStateSymbol"
    and "keeps_links (UCFieldSymbol_index env) this"
    and "keeps_links (child_index env) this"
  shows "(\<exists>w1 ref. UCStateSymbol_index_override env this ctx w = Some (Normal w1)
            \<and> super (w_heap w1 this) = Some overridden
            \<and> overriddenState (w_heap w1 this) = Some overridden
            \<and> location_uri ref = doc_uri (w_document w)
            \<and> location_range ref = id_range (w_heap w this)
            \<and> ref \<in> getIndexedReferences (w_index w1) (getHash env (w_heap w overridden))
            \<and> ref \<in> recorded (indexReferencesMade (w_document w1))
                       (getHash env (w_heap w overridden)))
       \<and> (\<forall>outcome. UCStateSymbol_index env this ctx w = Some outcome
             \<longrightarrow> super (w_heap (state_of outcome) this) = Some overridden
               \<and> overriddenState (w_heap (state_of outcome) this) = Some overridden)
       \<and> (keeps_store (UCFieldSymbol_index env) \<and> keeps_store (child_index env)
          \<and> (\<exists>cs. chain (w_heap w) (children (w_heap w this)) = Some cs
                  \<and> (\<forall>c\<in>set cs. sym_class (w_heap w c) \<noteq> UCStateSymbol))
          \<and> (\<forall>r\<in>set (case ignoreRefs (w_heap w this) of None \<Rightarrow> [] | Some refs \<Rightarrow> refs).
               findSuperSymbol
                 ((w_heap w)(this := (w_heap w this)
                     \<lparr>overriddenState := Some overridden, super := Some overridden\<rparr>))
                 this (ref_name r) None \<noteq> None)
          \<longrightarrow> (\<exists>outcome. UCStateSymbol_index env this ctx w = Some outcome
                 \<and> super (w_heap (state_of outcome) this) = Some overridden
                 \<and> overriddenState (w_heap (state_of outcome) this) = Some overridden)
            \<and> (\<forall>w0 cn cr cx.
                 sym_class (w_heap w this) = UCStateSymbol
                 \<and> (\<exists>ys. chain (w_heap w) (children (w_heap w ctx)) = Some ys \<and> this \<in> set ys
                        \<and> (\<forall>c\<in>set ys. c \<noteq> this \<longrightarrow> sym_class (w_heap w c) \<noteq> UCStateSymbol))
                 \<and> extendsType (w_heap w0 ctx) = Some (ObjectType cn cr (Some TK_Class) None None)
                 \<and> super (w_heap w0 ctx) = None
                 \<and> SymbolsTable_findSymbol env cn True = Some context_super
                 \<and> w_heap w = (w_heap w0)(ctx := (w_heap w0 ctx)
                      \<lparr>extendsType :=
                         Some (ObjectType cn cr (Some TK_Class) (Some context_super) None),
                       super := Some context_super\<rparr>)
                 \<longrightarrow> (\<exists>w'. UCStructSymbol_index env ctx cx w0 = Some (Normal w')
                        \<and> super (w_heap w' ctx) = Some context_super
                        \<and> super (w_heap w' this) = Some overridden
                        \<and> overriddenState (w_heap w' this) = Some overridden)))"
proof -
  let ?ref = "\<lparr>ref_oid = w_oid w, location_uri = doc_uri (w_document w),
               location_range = id_range (w_heap w this), ref_symbol = None\<rparr>"
  let ?key = "getHash env (w_heap w overridden)"
  let ?wi = "indexReference ?key ?ref (w\<lparr>w_oid := Suc (w_oid w)\<rparr>)"
  let ?w1 = "?wi\<lparr>w_heap := (w_heap w)(this := (w_heap w this)
            \<lparr>overriddenState := Some overridden, super := Some overridden\<rparr>)\<rparr>"
  have step: "UCStateSymbol_index_override env this ctx w = Some (Normal ?w1)"
    using assms(2-5) by (rule override_step)
  have l: "super (w_heap ?w1 this) = Some overridden"
    "overriddenState (w_heap ?w1 this) = Some overridden"
    by simp_all
  have r: "?ref \<in> getIndexedReferences (w_index ?w1) ?key"
    "?ref \<in> recorded (indexReferencesMade (w_document ?w1)) ?key"
    using indexReference_recorded [of ?ref ?key "w\<lparr>w_oid := Suc (w_oid w)\<rparr>"] by simp_all
  have first: "\<exists>w1 ref. UCStateSymbol_index_override env this ctx w = Some (Normal w1)
            \<and> super (w_heap w1 this) = Some overridden
            \<and> overriddenState (w_heap w1 this) = Some overridden
            \<and> location_uri ref = doc_uri (w_document w)
            \<and> location_range ref = id_range (w_heap w this)
            \<and> ref \<in> getIndexedReferences (w_index w1) ?key
            \<and> ref \<in> recorded (indexReferencesMade (w_document w1)) ?key"
    by (rule exI [of _ ?w1], rule exI [of _ ?ref]) (use step l r in simp)
  have links: "super (w_heap (state_of outcome) this) = Some overridden
        \<and> overriddenState (w_heap (state_of outcome) this) = Some overridden"
    if "UCStateSymbol_index env this ctx w = Some outcome" for outcome
    using that step l assms(6,7) by (rule state_index_links)
  have total: "(\<exists>outcome. UCStateSymbol_index env this ctx w = Some outcome
                 \<and> super (w_heap (state_of outcome) this) = Some overridden
                 \<and> overriddenState (w_heap (state_of outcome) this) = Some overridden)
            \<and> (\<forall>w0 cn cr cx.
                 sym_class (w_heap w this) = UCStateSymbol
                 \<and> (\<exists>ys. chain (w_heap w) (children (w_heap w ctx)) = Some ys \<and> this \<in> set ys
                        \<and> (\<forall>c\<in>set ys. c \<noteq> this \<longrightarrow> sym_class (w_heap w c) \<noteq> UCStateSymbol))
                 \<and> extendsType (w_heap w0 ctx) = Some (ObjectType cn cr (Some TK_Class) None None)
                 \<and> super (w_heap w0 ctx) = None
                 \<and> SymbolsTable_findSymbol env cn True = Some context_super
                 \<and> w_heap w = (w_heap w0)(ctx := (w_heap w0 ctx)
                      \<lparr>extendsType :=
                         Some (ObjectType cn cr (Some TK_Class) (Some context_super) None),
                       super := Some context_super\<rparr>)
                 \<longrightarrow> (\<exists>w'. UCStructSymbol_index env ctx cx w0 = Some (Normal w')
                        \<and> super (w_heap w' ctx) = Some context_super
                        \<and> super (w_heap w' this) = Some overridden
                        \<and> overriddenState (w_heap w' this) = Some overridden))"
    if s: "keeps_store (UCFieldSymbol_index env)" "keeps_store (child_index env)"
      and m: "chain (w_heap w) (children (w_heap w this)) = Some cs"
        "\<forall>c\<in>set cs. sym_class (w_heap w c) \<noteq> UCStateSymbol"
        "\<forall>r\<in>set (case ignoreRefs (w_heap w this) of None \<Rightarrow> [] | Some refs \<Rightarrow> refs).
               findSuperSymbol
                 ((w_heap w)(this := (w_heap w this)
                     \<lparr>overriddenState := Some overridden, super := Some overridden\<rparr>))
                 this (ref_name r) None \<noteq> None" for cs
  proof
    from state_index_returns_fields [OF assms(1-5) s m] links
    show "\<exists>outcome. UCStateSymbol_index env this ctx w = Some outcome
                 \<and> super (w_heap (state_of outcome) this) = Some overridden
                 \<and> overriddenState (w_heap (state_of outcome) this) = Some overridden"
      by blast
  next
    show "\<forall>w0 cn cr cx.
                 sym_class (w_heap w this) = UCStateSymbol
                 \<and> (\<exists>ys. chain (w_heap w) (children (w_heap w ctx)) = Some ys \<and> this \<in> set ys
                        \<and> (\<forall>c\<in>set ys. c \<noteq> this \<longrightarrow> sym_class (w_heap w c) \<noteq> UCStateSymbol))
                 \<and> extendsType (w_heap w0 ctx) = Some (ObjectType cn cr (Some TK_Class) None None)
                 \<and> super (w_heap w0 ctx) = None
                 \<and> SymbolsTable_findSymbol env cn True = Some context_super
                 \<and> w_heap w = (w_heap w0)(ctx := (w_heap w0 ctx)
                      \<lparr>extendsType :=
                         Some (ObjectType cn cr (Some TK_Class) (Some context_super) None),
                       super := Some context_super\<rparr>)
                 \<longrightarrow> (\<exists>w'. UCStructSymbol_index env ctx cx w0 = Some (Normal w')
                        \<and> super (w_heap w' ctx) = Some context_super
                        \<and> super (w_heap w' this) = Some overridden
                        \<and> overriddenState (w_heap w' this) = Some overridden)"
    proof (intro allI impI, elim conjE exE)
      fix w0 :: World and cn cr cx ys
      assume sc: "sym_class (w_heap w this) = UCStateSymbol"
        and ys: "chain (w_heap w) (children (w_heap w ctx)) = Some ys" "this \<in> set ys"
          "\<forall>c\<in>set ys. c \<noteq> this \<longrightarrow> sym_class (w_heap w c) \<noteq> UCStateSymbol"
        and c: "extendsType (w_heap w0 ctx) = Some (ObjectType cn cr (Some TK_Class) None None)"
          "super (w_heap w0 ctx) = None" "SymbolsTable_findSymbol env cn True = Some context_super"
        and h: "w_heap w = (w_heap w0)(ctx := (w_heap w0 ctx)
                      \<lparr>extendsType :=
                         Some (ObjectType cn cr (Some TK_Class) (Some context_super) None),
                       super := Some context_super\<rparr>)"
      show "\<exists>w'. UCStructSymbol_index env ctx cx w0 = Some (Normal w')
                        \<and> super (w_heap w' ctx) = Some context_super
                        \<and> super (w_heap w' this) = Some overridden
                        \<and> overriddenState (w_heap w' this) = Some overridden"
        by (rule class_index_links_state [OF s c, folded h, OF ys sc assms(1,2,4,5) m])
    qed
  qed
  from first links total show ?thesis by blast
qed


lemma state_index_plain:
  assumes "UCStateSymbol_index_override env this ctx w = Some (Normal w1)"
    and "UCFieldSymbol_index env this ctx w1 = w1"
    and "extendsType (w_heap w1 this) = None"
    and "children (w_heap w1 this) = None"
    and "ignoreRefs (w_heap w1 this) = None"
  shows "UCStateSymbol_index env this ctx w = Some (Normal w1)"
  using assms
  by (simp add: UCStateSymbol_index_def index_call_State index_call_Struct
      UCStructSymbol_index_extends_def index_call_Children_None)

lemma plain_env_keeps:
  "keeps_links (UCFieldSymbol_index plain_env) this" "keeps_links (child_index plain_env) this"
  "keeps_store (UCFieldSymbol_index plain_env)" "keeps_store (child_index plain_env)"
  by (simp_all add: keeps_links_def keeps_store_def plain_env_def)

lemma member_heap_facts:
  "extendsType (member_heap 21) = None" "super (member_heap 21) = None"
  "super (member_heap 20) = Some 10" "super (member_heap 10) = None" "super (member_heap 11) = None"
  "sym_class (member_heap 11) = UCStateSymbol" "sym_class (member_heap 10) = UCClassSymbol"
  "sym_class (member_heap 20) = UCClassSymbol" "sym_class (member_heap 21) = UCStateSymbol"
  "sym_class (member_heap 22) = UCMethodSymbol"
  "id_name (member_heap 21) = Name 31 ''Idle''"
  "outer (member_heap 21) = Some 20" "outer (member_heap 11) = Some 10"
  "children (member_heap 11) = None"
  "ignoreRefs (member_heap 21)
     = Some [SymbolReference (Name 35 ''Touch'') (Range (Position 2 12) (Position 2 17)) None,
             SymbolReference (Name 36 ''Bump'') (Range (Position 2 19) (Position 2 23)) None]"
  by (simp_all add: member_heap_def link_heap_def new_symbol_def)

lemma member_heap_chains:
  "chain member_heap (children (member_heap 10)) = Some [11, 13]"
  "chain member_heap (children (member_heap 20)) = Some [21]"
  "chain member_heap (children (member_heap 21)) = Some [22]"
  "chain member_heap (children (member_heap 11)) = Some []"
  by (simp_all add: member_heap_def link_heap_def blank_heap_def new_symbol_def chain_Some chain_None)

lemma member_heap_names:
  "id_name (member_heap 11) = Name 31 ''Idle''" "id_name (member_heap 13) = Name 32 ''Sleeping''"
  "id_name (member_heap 22) = Name 35 ''Touch''"
  by (simp_all add: member_heap_def link_heap_def new_symbol_def)

lemma member_heap_find_Idle:
  "findSuperSymbol member_heap 10 (Name 31 ''Idle'') None = Some (Inr (Some 11))"
proof (rule findSuperSymbol_local)
  show "instanceof_UCStructSymbol (sym_class (member_heap 10))"
    by (simp add: member_heap_facts instanceof_UCStructSymbol_def)
  show "getSymbol member_heap 10 (Name 31 ''Idle'') None = Some (Some 11)"
    by (simp add: getSymbol_find [OF member_heap_chains(1)] kind_excludes_def member_heap_names)
qed

text \<open>The lookups of the two ignored names, from the state \<open>Idle\<close> of \<open>Ammo\<close> once it is linked.\<close>

lemma member_heap_ignores:
  fixes h1
  defines "h1 \<equiv> member_heap(21 := (member_heap 21)\<lparr>overriddenState := Some 11, super := Some 11\<rparr>)"
  shows "findSuperSymbol h1 21 (Name 35 ''Touch'') None = Some (Inr (Some 22))"
    and "findSuperSymbol h1 21 (Name 36 ''Bump'') None = Some (Inr None)"
proof -
  have eq: "lookup_fields (h1 x) = lookup_fields (if x = 21 then (member_heap 21)\<lparr>super := Some 11\<rparr>
                                                   else member_heap x)" for x
    by (simp add: h1_def lookup_fields_def)
  have cls: "instanceof_UCStructSymbol (sym_class (h1 21))" "instanceof_UCStructSymbol (sym_class (h1 11))"
    "instanceof_UCStructSymbol (sym_class (h1 10))" "instanceof_UCStructSymbol (sym_class (h1 20))"
    "sym_class (h1 21) = UCStateSymbol" "sym_class (h1 11) = UCStateSymbol"
    "sym_class (h1 10) \<noteq> UCStateSymbol" "sym_class (h1 20) \<noteq> UCStateSymbol"
    by (simp_all add: h1_def member_heap_facts instanceof_UCStructSymbol_def)
  have lk: "super (h1 21) = Some 11" "super (h1 11) = None" "super (h1 10) = None"
    "super (h1 20) = Some 10" "outer (h1 21) = Some 20" "outer (h1 11) = Some 10"
    by (simp_all add: h1_def member_heap_facts)
  have nx: "chain h1 start = Some cs" if "chain member_heap start = Some cs" for start cs
    using that by (rule chain_next_cong) (simp add: h1_def)
  have ch: "chain h1 (children (h1 10)) = Some [11, 13]" "chain h1 (children (h1 20)) = Some [21]"
    "chain h1 (children (h1 21)) = Some [22]" "chain h1 (children (h1 11)) = Some []"
    using member_heap_chains [THEN nx] by (simp_all add: h1_def)
  have nm: "id_name (h1 11) = Name 31 ''Idle''" "id_name (h1 13) = Name 32 ''Sleeping''"
    "id_name (h1 22) = Name 35 ''Touch''" "id_name (h1 21) = Name 31 ''Idle''"
    by (simp_all add: h1_def member_heap_names member_heap_facts)
  have g: "getSymbol h1 21 (Name 35 ''Touch'') None = Some (Some 22)"
    "getSymbol h1 21 (Name 36 ''Bump'') None = Some None"
    "getSymbol h1 11 (Name 36 ''Bump'') None = Some None"
    "getSymbol h1 10 (Name 36 ''Bump'') None = Some None"
    "getSymbol h1 20 (Name 36 ''Bump'') None = Some None"
    by (simp_all add: getSymbol_find [OF ch(1)] getSymbol_find [OF ch(2)] getSymbol_find [OF ch(3)]
        getSymbol_find [OF ch(4)] kind_excludes_def nm)
  show "findSuperSymbol h1 21 (Name 35 ''Touch'') None = Some (Inr (Some 22))"
    using cls(1) g(1) by (rule findSuperSymbol_local)
  have b10: "findSuperSymbol h1 10 (Name 36 ''Bump'') None = Some (Inr None)"
    using cls(3) cls(7) g(4) lk(3) by (rule findSuperSymbol_absent)
  have b20: "findSuperSymbol h1 20 (Name 36 ''Bump'') None = Some (Inr None)"
    using cls(4) cls(8) g(5) lk(4) b10 by (rule findSuperSymbol_inherited_absent)
  have b11: "findSuperSymbol h1 11 (Name 36 ''Bump'') None = Some (Inr None)"
    by (subst findSuperSymbol.simps) (simp add: cls g lk b10 instanceof_UCStructSymbol_def)
  show "findSuperSymbol h1 21 (Name 36 ''Bump'') None = Some (Inr None)"
    by (subst findSuperSymbol.simps) (simp add: cls g lk b11 b20 instanceof_UCStructSymbol_def)
qed


lemma extends_step_resolved_before:
  assumes "extendsType (w_heap w this) = Some (ObjectType ident rng kind (Some s) None)"
    and "super (w_heap w this) = Some p"
  shows "UCStructSymbol_index_extends env this ctx w = Some (Normal w)"
proof -
  have "(w_heap w)(this := (w_heap w this)
           \<lparr>extendsType := Some (ObjectType ident rng kind (Some s) None)\<rparr>) = w_heap w"
    using assms(1) by (simp add: fun_eq_iff)
  then show ?thesis
    using assms by (simp add: UCStructSymbol_index_extends_def Let_def set_extendsType_def)
qed

lemma unlinked_heap_facts:
  "extendsType (unlinked_heap 20)
     = Some (ObjectType (Name 30 ''Pickup'') (Range (Position 0 19) (Position 0 25))
               (Some TK_Class) None None)"
  "super (unlinked_heap 20) = None"
  by (simp_all add: unlinked_heap_def link_heap_def new_symbol_def)

lemma unlinked_heap_resolved:
  "unlinked_heap(20 := (unlinked_heap 20)
      \<lparr>extendsType := Some (ObjectType (Name 30 ''Pickup'') (Range (Position 0 19) (Position 0 25))
                              (Some TK_Class) (Some 10) None),
       super := Some 10\<rparr>) = link_heap"
proof -
  have "link_heap 20 = (new_symbol UCClassSymbol (Name 33 ''Ammo'') (Range (Position 0 6) (Position 0 10)) 1)
              \<lparr>children := Some 21, super := Some 10,
               extendsType := Some (ObjectType (Name 30 ''Pickup'')
                                     (Range (Position 0 19) (Position 0 25)) (Some TK_Class)
                                     (Some 10) None)\<rparr>"
    by (simp add: link_heap_def)
  then show ?thesis by (simp add: unlinked_heap_def fun_eq_iff)
qed

lemma Ammo_indexed:
  "\<exists>w'. UCStructSymbol_index plain_env 20 20 (world_of unlinked_heap) = Some (Normal w')
        \<and> w_heap w' = link_heap(21 := (link_heap 21)\<lparr>overriddenState := Some 11, super := Some 11\<rparr>)
        \<and> getIndexedReferences (w_index w') ''Idle''
              = {\<lparr>ref_oid = 1, location_uri = ''Ammo.uc'',
                  location_range = Range (Position 1 6) (Position 1 10), ref_symbol = None\<rparr>}"
proof -
  let ?W0 = "world_of unlinked_heap"
  let ?rng = "Range (Position 0 19) (Position 0 25)"
  let ?W1 = "(setReference plain_env 10 (Name 30 ''Pickup'') ?rng ?W0)\<lparr>w_heap := link_heap\<rparr>"
  let ?W2 = "(indexReference (getHash plain_env (w_heap ?W1 11))
          \<lparr>ref_oid = w_oid ?W1, location_uri = doc_uri (w_document ?W1),
           location_range = id_range (w_heap ?W1 21), ref_symbol = None\<rparr>
          (?W1\<lparr>w_oid := Suc (w_oid ?W1)\<rparr>))
        \<lparr>w_heap := (w_heap ?W1)(21 := (w_heap ?W1 21)
            \<lparr>overriddenState := Some 11, super := Some 11\<rparr>)\<rparr>"
  have h0: "w_heap ?W0 = unlinked_heap" by (simp add: world_of_def)
  have r: "resolve_reference plain_env (w_heap ?W0) 20 (Name 30 ''Pickup'') (Some TK_Class)
          = Some (Inr (Some 10))"
    by (simp add: resolve_reference_def plain_env_def)
  have e: "UCStructSymbol_index_extends plain_env 20 20 ?W0 = Some (Normal ?W1)"
    using extends_step_sets_super [of ?W0 20, OF _ r, unfolded h0, OF unlinked_heap_facts]
    by (simp add: unlinked_heap_resolved)
  have h1: "w_heap ?W1 = link_heap" by simp
  have a: "super (w_heap ?W1 21) = None" "super (w_heap ?W1 20) = Some 10"
    "sym_class (w_heap ?W1 11) = UCStateSymbol" "id_name (w_heap ?W1 21) = Name 31 ''Idle''"
    "id_range (w_heap ?W1 21) = Range (Position 1 6) (Position 1 10)"
    "extendsType (w_heap ?W1 21) = None" "children (w_heap ?W1 21) = None"
    "ignoreRefs (w_heap ?W1 21) = None" "nextSym (w_heap ?W1 21) = None"
    "sym_class (w_heap ?W1 21) = UCStateSymbol" "children (w_heap ?W1 20) = Some 21"
    unfolding h1 by (simp_all add: link_heap_def new_symbol_def)
  have f: "findSuperSymbol (w_heap ?W1) 10 (id_name (w_heap ?W1 21)) None = Some (Inr (Some 11))"
    unfolding a(4) unfolding h1 by (rule link_heap_find_Idle)
  note st = override_step [OF a(1) a(2) f a(3), of plain_env]
  have run: "UCStateSymbol_index plain_env 21 20 ?W1 = Some (Normal ?W2)"
  proof (rule state_index_plain [OF st])
    show "UCFieldSymbol_index plain_env 21 20 ?W2 = ?W2" by (simp add: plain_env_def)
    show "extendsType (w_heap ?W2 21) = None" using a(6) by simp
    show "children (w_heap ?W2 21) = None" using a(7) by simp
    show "ignoreRefs (w_heap ?W2 21) = None" using a(8) by simp
  qed
  have n2: "nextSym (w_heap ?W2 21) = None" using a(9) by simp
  have f0: "UCFieldSymbol_index plain_env 20 20 ?W0 = ?W0" by (simp add: plain_env_def)
  have loop: "index_call plain_env (ChildrenLoop 20 (Some 21)) ?W1 = Some (Normal ?W2)"
    unfolding index_call_Children_Some index_call_Child
    using a(10) run [unfolded UCStateSymbol_index_def] n2
    by (simp add: index_call_Children_None)
  have all: "UCStructSymbol_index plain_env 20 20 ?W0 = Some (Normal ?W2)"
    unfolding UCStructSymbol_index_def index_call_Struct f0 e
    using a(11) loop by simp
  have k: "getHash plain_env (w_heap ?W1 11) = ''Idle''"
    by (simp add: plain_env_def link_heap_def new_symbol_def)
  have k0: "id_name (unlinked_heap 10) = Name 30 ''Pickup''"
    by (simp add: unlinked_heap_def link_heap_def new_symbol_def)
  have i: "getIndexedReferences (w_index ?W2) ''Idle''
              = {\<lparr>ref_oid = 1, location_uri = ''Ammo.uc'',
                  location_range = Range (Position 1 6) (Position 1 10), ref_symbol = None\<rparr>}"
    unfolding k a(5)
    by (simp add: indexReference_def addIndexedReference_def getIndexedReferences_def world_of_def
        Ammo_document_def setReference_def new_reference_def plain_env_def k0)
  have "w_heap ?W2 = link_heap(21 := (link_heap 21)\<lparr>overriddenState := Some 11, super := Some 11\<rparr>)"
    by simp
  with all i show ?thesis by blast
qed


lemma member_state_indexed:
  "\<exists>w'. UCStateSymbol_index plain_env 21 20 (world_of member_heap) = Some (Normal w')
        \<and> ignoreRefs (w_heap w' 21)
            = Some [SymbolReference (Name 35 ''Touch'') (Range (Position 2 12) (Position 2 17)) (Some 22),
                    SymbolReference (Name 36 ''Bump'') (Range (Position 2 19) (Position 2 23)) None]
        \<and> getIndexedReferences (w_index w') ''Idle''
            = {\<lparr>ref_oid = 0, location_uri = ''Ammo.uc'',
                location_range = Range (Position 1 6) (Position 1 10), ref_symbol = None\<rparr>}
        \<and> getIndexedReferences (w_index w') ''Touch''
            = {\<lparr>ref_oid = 1, location_uri = ''Classes/Ammo.uc'',
                location_range = Range (Position 2 12) (Position 2 17),
                ref_symbol = Some (Name 35 ''Touch'')\<rparr>}"
proof -
  let ?W = "world_of member_heap"
  define h1 where "h1 = member_heap(21 := (member_heap 21)\<lparr>overriddenState := Some 11, super := Some 11\<rparr>)"
  define W1 where "W1 = (indexReference (getHash plain_env (w_heap ?W 11))
          \<lparr>ref_oid = w_oid ?W, location_uri = doc_uri (w_document ?W),
           location_range = id_range (w_heap ?W 21), ref_symbol = None\<rparr>
          (?W\<lparr>w_oid := Suc (w_oid ?W)\<rparr>))
        \<lparr>w_heap := (w_heap ?W)(21 := (w_heap ?W 21)
            \<lparr>overriddenState := Some 11, super := Some 11\<rparr>)\<rparr>"
  define W2 where "W2 = UCSymbolReference_setReference plain_env 21 0 22 W1"
  have h: "w_heap ?W = member_heap" by (simp add: world_of_def)
  have f: "findSuperSymbol (w_heap ?W) 10 (id_name (w_heap ?W 21)) None = Some (Inr (Some 11))"
    unfolding h member_heap_facts by (rule member_heap_find_Idle)
  have st: "UCStateSymbol_index_override plain_env 21 20 ?W = Some (Normal W1)"
    unfolding W1_def by (rule override_step [OF _ _ f]) (simp_all add: h member_heap_facts)
  have h1: "w_heap W1 = h1" by (simp add: W1_def h1_def h)
  have m: "extendsType (h1 21) = None" "children (h1 21) = Some 22"
    "sym_class (h1 22) = UCMethodSymbol" "nextSym (h1 22) = None"
    "ignoreRefs (h1 21)
     = Some [SymbolReference (Name 35 ''Touch'') (Range (Position 2 12) (Position 2 17)) None,
             SymbolReference (Name 36 ''Bump'') (Range (Position 2 19) (Position 2 23)) None]"
    by (simp_all add: h1_def member_heap_def link_heap_def new_symbol_def)
  have f0: "UCFieldSymbol_index plain_env c x v = v" "child_index plain_env c x v = v" for c x v
    by (simp_all add: plain_env_def)
  have e: "UCStructSymbol_index_extends plain_env 21 20 W1 = Some (Normal W1)"
    by (simp add: UCStructSymbol_index_extends_def h1 m)
  have loop: "index_call plain_env (ChildrenLoop 21 (Some 22)) W1 = Some (Normal W1)"
    by (simp add: index_call_Children_Some index_call_Child h1 m f0 index_call_Children_None)
  have str: "index_call plain_env (StructIndex 21 20) W1 = Some (Normal W1)"
    by (simp add: index_call_Struct f0 e h1 m loop)
  have fl: "lookup_fields (w_heap W2 x) = lookup_fields (h1 x)" for x
    unfolding W2_def setReference_fields h1 ..
  have l1: "findSuperSymbol (w_heap W1) 21 (Name 35 ''Touch'') None = Some (Inr (Some 22))"
    unfolding h1 h1_def by (rule member_heap_ignores)
  have l2: "findSuperSymbol (w_heap W2) 21 (Name 36 ''Bump'') None = Some (Inr None)"
    unfolding findSuperSymbol_fields [of "w_heap W2" h1, OF fl] h1_def by (rule member_heap_ignores)
  have ig: "index_ignoreRefs plain_env 21
              (enumerate 0 [SymbolReference (Name 35 ''Touch'') (Range (Position 2 12) (Position 2 17)) None,
                            SymbolReference (Name 36 ''Bump'') (Range (Position 2 19) (Position 2 23)) None])
              W1 = Some (Normal W2)"
    using l1 l2 [unfolded W2_def] by (simp add: W2_def)
  have i5: "ignoreRefs (w_heap W1 21)
     = Some [SymbolReference (Name 35 ''Touch'') (Range (Position 2 12) (Position 2 17)) None,
             SymbolReference (Name 36 ''Bump'') (Range (Position 2 19) (Position 2 23)) None]"
    by (simp add: h1 m)
  have run: "UCStateSymbol_index plain_env 21 20 ?W = Some (Normal W2)"
    unfolding UCStateSymbol_index_def index_call_State st completion.case option.case str
      bind.bind_lunit i5 ig ..
  have k: "getHash plain_env (member_heap 11) = ''Idle''" "getHash plain_env (h1 22) = ''Touch''"
    "getHash plain_env (member_heap 22) = ''Touch''"
    "id_range (member_heap 21) = Range (Position 1 6) (Position 1 10)"
    by (simp_all add: h1_def plain_env_def member_heap_def link_heap_def new_symbol_def)
  have w2: "W2 = setReference plain_env 22 (Name 35 ''Touch'') (Range (Position 2 12) (Position 2 17))
                    (set_ignoreRef 21 0 22 W1)"
    by (simp add: W2_def UCSymbolReference_setReference_def h1 m)
  have hs: "w_heap (set_ignoreRef 21 0 22 W1) 22 = h1 22"
    by (simp add: set_ignoreRef_def h1)
  have r2: "ignoreRefs (w_heap W2 21)
            = Some [SymbolReference (Name 35 ''Touch'') (Range (Position 2 12) (Position 2 17)) (Some 22),
                    SymbolReference (Name 36 ''Bump'') (Range (Position 2 19) (Position 2 23)) None]"
    unfolding w2 setReference_heap by (simp add: set_ignoreRef_def h1 m)
  have fp: "filePath plain_env d = ''Classes/'' @ doc_uri d" for d
    by (simp add: plain_env_def)
  have i2: "getIndexedReferences (w_index W2) ''Idle''
            = {\<lparr>ref_oid = 0, location_uri = ''Ammo.uc'',
                location_range = Range (Position 1 6) (Position 1 10), ref_symbol = None\<rparr>}"
    "getIndexedReferences (w_index W2) ''Touch''
            = {\<lparr>ref_oid = 1, location_uri = ''Classes/Ammo.uc'',
                location_range = Range (Position 2 12) (Position 2 17),
                ref_symbol = Some (Name 35 ''Touch'')\<rparr>}"
    unfolding w2 setReference_def new_reference_def
    by (simp_all add: hs k h W1_def indexReference_def addIndexedReference_def getIndexedReferences_def
        set_ignoreRef_def world_of_def Ammo_document_def fp)
  from run r2 i2 show ?thesis by blast
qed


lemma fresh_heap_facts:
  "extendsType (fresh_heap 20)
     = Some (ObjectType (Name 30 ''Pickup'') (Range (Position 0 19) (Position 0 25))
               (Some TK_Class) None None)"
  "super (fresh_heap 20) = None"
  by (simp_all add: fresh_heap_def)

lemma fresh_heap_resolved:
  "member_heap = fresh_heap(20 := (fresh_heap 20)
      \<lparr>extendsType := Some (ObjectType (Name 30 ''Pickup'') (Range (Position 0 19) (Position 0 25))
                              (Some TK_Class) (Some 10) None),
       super := Some 10\<rparr>)"
proof -
  have "member_heap 20 = (new_symbol UCClassSymbol (Name 33 ''Ammo'') (Range (Position 0 6) (Position 0 10)) 1)
              \<lparr>children := Some 21, super := Some 10,
               extendsType := Some (ObjectType (Name 30 ''Pickup'')
                                     (Range (Position 0 19) (Position 0 25)) (Some TK_Class)
                                     (Some 10) None)\<rparr>"
    by (simp add: member_heap_def link_heap_def)
  then show ?thesis by (simp add: fresh_heap_def fun_eq_iff)
qed

theorem state_override_link_witness:
  "extendsType (w_heap (world_of member_heap) 21) = None
   \<and> super (w_heap (world_of member_heap) 21) = None
   \<and> super (w_heap (world_of member_heap) 20) = Some 10
   \<and> findSuperSymbol (w_heap (world_of member_heap)) 10 (id_name (w_heap (world_of member_heap) 21)) None
       = Some (Inr (Some 11))
   \<and> sym_class (w_heap (world_of member_heap) 11) = UCStateSymbol
   \<and> keeps_links (UCFieldSymbol_index plain_env) 21
   \<and> keeps_links (child_index plain_env) 21
   \<and> keeps_store (UCFieldSymbol_index plain_env)
   \<and> keeps_store (child_index plain_env)
   \<and> chain (w_heap (world_of member_heap)) (children (w_heap (world_of member_heap) 21)) = Some [22]
   \<and> sym_class (w_heap (world_of member_heap) 22) = UCMethodSymbol
   \<and> ignoreRefs (w_heap (world_of member_heap) 21)
       = Some [SymbolReference (Name 35 ''Touch'') (Range (Position 2 12) (Position 2 17)) None,
               SymbolReference (Name 36 ''Bump'') (Range (Position 2 19) (Position 2 23)) None]
   \<and> findSuperSymbol
         (member_heap(21 := (member_heap 21)\<lparr>overriddenState := Some 11, super := Some 11\<rparr>))
         21 (Name 35 ''Touch'') None = Some (Inr (Some 22))
   \<and> findSuperSymbol
         (member_heap(21 := (member_heap 21)\<lparr>overriddenState := Some 11, super := Some 11\<rparr>))
         21 (Name 36 ''Bump'') None = Some (Inr None)
   \<and> (\<exists>w'. UCStateSymbol_index plain_env 21 20 (world_of member_heap) = Some (Normal w')
          \<and> super (w_heap w' 21) = Some 11 \<and> overriddenState (w_heap w' 21) = Some 11
          \<and> getIndexedReferences (w_index w') ''Idle''
              = {\<lparr>ref_oid = 0, location_uri = ''Ammo.uc'',
                  location_range = Range (Position 1 6) (Position 1 10), ref_symbol = None\<rparr>})
   \<and> sym_class (w_heap (world_of member_heap) 21) = UCStateSymbol
   \<and> chain (w_heap (world_of member_heap)) (children (w_heap (world_of member_heap) 20)) = Some [21]
   \<and> extendsType (w_heap (world_of fresh_heap) 20)
       = Some (ObjectType (Name 30 ''Pickup'') (Range (Position 0 19) (Position 0 25))
                 (Some TK_Class) None None)
   \<and> super (w_heap (world_of fresh_heap) 20) = None
   \<and> SymbolsTable_findSymbol plain_env (Name 30 ''Pickup'') True = Some 10
   \<and> w_heap (world_of member_heap)
       = (w_heap (world_of fresh_heap))(20 := (w_heap (world_of fresh_heap) 20)
           \<lparr>extendsType := Some (ObjectType (Name 30 ''Pickup'') (Range (Position 0 19) (Position 0 25))
                                   (Some TK_Class) (Some 10) None),
            super := Some 10\<rparr>)
   \<and> (\<exists>w'. UCStructSymbol_index plain_env 20 20 (world_of fresh_heap) = Some (Normal w')
          \<and> super (w_heap w' 20) = Some 10
          \<and> super (w_heap w' 21) = Some 11 \<and> overriddenState (w_heap w' 21) = Some 11)
   \<and> (\<exists>w'. UCStructSymbol_index plain_env 20 20 (world_of unlinked_heap) = Some (Normal w')
          \<and> super (w_heap w' 20) = Some 10
          \<and> super (w_heap w' 21) = Some 11 \<and> overriddenState (w_heap w' 21) = Some 11
          \<and> getIndexedReferences (w_index w') ''Idle''
              = {\<lparr>ref_oid = 1, location_uri = ''Ammo.uc'',
                  location_range = Range (Position 1 6) (Position 1 10), ref_symbol = None\<rparr>})"
proof -
  let ?w = "world_of member_heap"
  let ?fresh = "world_of fresh_heap"
  have h: "w_heap ?w = member_heap" by (simp add: world_of_def)
  have h0: "w_heap ?fresh = fresh_heap" by (simp add: world_of_def)
  have a: "extendsType (w_heap ?w 21) = None" "super (w_heap ?w 21) = None"
    "super (w_heap ?w 20) = Some 10" "sym_class (w_heap ?w 11) = UCStateSymbol"
    "sym_class (w_heap ?w 22) = UCMethodSymbol"
    "ignoreRefs (w_heap ?w 21)
       = Some [SymbolReference (Name 35 ''Touch'') (Range (Position 2 12) (Position 2 17)) None,
               SymbolReference (Name 36 ''Bump'') (Range (Position 2 19) (Position 2 23)) None]"
    "sym_class (w_heap ?w 21) = UCStateSymbol"
    unfolding h by (simp_all add: member_heap_facts)
  have f: "findSuperSymbol (w_heap ?w) 10 (id_name (w_heap ?w 21)) None = Some (Inr (Some 11))"
    unfolding h member_heap_facts by (rule member_heap_find_Idle)
  have c: "chain (w_heap ?w) (children (w_heap ?w 21)) = Some [22]"
    "chain (w_heap ?w) (children (w_heap ?w 20)) = Some [21]"
    unfolding h by (rule member_heap_chains)+
  have b: "extendsType (w_heap ?fresh 20)
       = Some (ObjectType (Name 30 ''Pickup'') (Range (Position 0 19) (Position 0 25))
                 (Some TK_Class) None None)"
    "super (w_heap ?fresh 20) = None"
    unfolding h0 by (rule fresh_heap_facts)+
  have t: "SymbolsTable_findSymbol plain_env (Name 30 ''Pickup'') True = Some 10"
    by (simp add: plain_env_def)
  have e: "w_heap ?w = (w_heap ?fresh)(20 := (w_heap ?fresh 20)
           \<lparr>extendsType := Some (ObjectType (Name 30 ''Pickup'') (Range (Position 0 19) (Position 0 25))
                                   (Some TK_Class) (Some 10) None),
            super := Some 10\<rparr>)"
    unfolding h h0 by (rule fresh_heap_resolved)
  note g = member_heap_ignores
  note main = state_override_link [OF a(1) a(2) a(3) f a(4) plain_env_keeps(1,2)]
  have cond: "keeps_store (UCFieldSymbol_index plain_env) \<and> keeps_store (child_index plain_env)
          \<and> (\<exists>cs. chain (w_heap ?w) (children (w_heap ?w 21)) = Some cs
                  \<and> (\<forall>c\<in>set cs. sym_class (w_heap ?w c) \<noteq> UCStateSymbol))
          \<and> (\<forall>r\<in>set (case ignoreRefs (w_heap ?w 21) of None \<Rightarrow> [] | Some refs \<Rightarrow> refs).
               findSuperSymbol
                 ((w_heap ?w)(21 := (w_heap ?w 21)
                     \<lparr>overriddenState := Some 11, super := Some 11\<rparr>))
                 21 (ref_name r) None \<noteq> None)"
    using plain_env_keeps(3,4) c(1) a(5) g unfolding a(6) by (simp add: h)
  from main cond obtain outcome where run: "UCStateSymbol_index plain_env 21 20 ?w = Some outcome"
    and l: "super (w_heap (state_of outcome) 21) = Some 11"
      "overriddenState (w_heap (state_of outcome) 21) = Some 11"
    by blast
  have ccond: "sym_class (w_heap ?w 21) = UCStateSymbol
                 \<and> (\<exists>ys. chain (w_heap ?w) (children (w_heap ?w 20)) = Some ys \<and> 21 \<in> set ys
                        \<and> (\<forall>c\<in>set ys. c \<noteq> 21 \<longrightarrow> sym_class (w_heap ?w c) \<noteq> UCStateSymbol))
                 \<and> extendsType (w_heap ?fresh 20)
                     = Some (ObjectType (Name 30 ''Pickup'') (Range (Position 0 19) (Position 0 25))
                               (Some TK_Class) None None)
                 \<and> super (w_heap ?fresh 20) = None
                 \<and> SymbolsTable_findSymbol plain_env (Name 30 ''Pickup'') True = Some 10
                 \<and> w_heap ?w = (w_heap ?fresh)(20 := (w_heap ?fresh 20)
                      \<lparr>extendsType :=
                         Some (ObjectType (Name 30 ''Pickup'') (Range (Position 0 19) (Position 0 25))
                                 (Some TK_Class) (Some 10) None),
                       super := Some 10\<rparr>)"
    using a(7) c(2) b t e by simp
  from main cond
  have "\<forall>w0 cn cr cx.
                 sym_class (w_heap ?w 21) = UCStateSymbol
                 \<and> (\<exists>ys. chain (w_heap ?w) (children (w_heap ?w 20)) = Some ys \<and> 21 \<in> set ys
                        \<and> (\<forall>c\<in>set ys. c \<noteq> 21 \<longrightarrow> sym_class (w_heap ?w c) \<noteq> UCStateSymbol))
                 \<and> extendsType (w_heap w0 20) = Some (ObjectType cn cr (Some TK_Class) None None)
                 \<and> super (w_heap w0 20) = None
                 \<and> SymbolsTable_findSymbol plain_env cn True = Some 10
                 \<and> w_heap ?w = (w_heap w0)(20 := (w_heap w0 20)
                      \<lparr>extendsType := Some (ObjectType cn cr (Some TK_Class) (Some 10) None),
                       super := Some 10\<rparr>)
                 \<longrightarrow> (\<exists>w'. UCStructSymbol_index plain_env 20 cx w0 = Some (Normal w')
                        \<and> super (w_heap w' 20) = Some 10
                        \<and> super (w_heap w' 21) = Some 11
                        \<and> overriddenState (w_heap w' 21) = Some 11)"
    by blast
  from this [rule_format, of ?fresh "Name 30 ''Pickup''" "Range (Position 0 19) (Position 0 25)" 20, OF ccond]
  have three: "\<exists>w'. UCStructSymbol_index plain_env 20 20 ?fresh = Some (Normal w')
          \<and> super (w_heap w' 20) = Some 10
          \<and> super (w_heap w' 21) = Some 11 \<and> overriddenState (w_heap w' 21) = Some 11" .
  from member_state_indexed obtain w' where w': "UCStateSymbol_index plain_env 21 20 ?w = Some (Normal w')"
    and i: "getIndexedReferences (w_index w') ''Idle''
              = {\<lparr>ref_oid = 0, location_uri = ''Ammo.uc'',
                  location_range = Range (Position 1 6) (Position 1 10), ref_symbol = None\<rparr>}"
    by blast
  from run w' l have "super (w_heap w' 21) = Some 11" "overriddenState (w_heap w' 21) = Some 11"
    by auto
  with w' i have one: "\<exists>w'. UCStateSymbol_index plain_env 21 20 ?w = Some (Normal w')
          \<and> super (w_heap w' 21) = Some 11 \<and> overriddenState (w_heap w' 21) = Some 11
          \<and> getIndexedReferences (w_index w') ''Idle''
              = {\<lparr>ref_oid = 0, location_uri = ''Ammo.uc'',
                  location_range = Range (Position 1 6) (Position 1 10), ref_symbol = None\<rparr>}"
    by blast
  from Ammo_indexed obtain u' where u': "UCStructSymbol_index plain_env 20 20 (world_of unlinked_heap)
                                           = Some (Normal u')"
    and hu: "w_heap u' = link_heap(21 := (link_heap 21)\<lparr>overriddenState := Some 11, super := Some 11\<rparr>)"
    and iu: "getIndexedReferences (w_index u') ''Idle''
              = {\<lparr>ref_oid = 1, location_uri = ''Ammo.uc'',
                  location_range = Range (Position 1 6) (Position 1 10), ref_symbol = None\<rparr>}"
    by blast
  have "super (w_heap u' 20) = Some 10" "super (w_heap u' 21) = Some 11"
    "overriddenState (w_heap u' 21) = Some 11"
    unfolding hu by (simp_all add: link_heap_facts)
  with u' iu have two: "\<exists>w'. UCStructSymbol_index plain_env 20 20 (world_of unlinked_heap) = Some (Normal w')
          \<and> super (w_heap w' 20) = Some 10
          \<and> super (w_heap w' 21) = Some 11 \<and> overriddenState (w_heap w' 21) = Some 11
          \<and> getIndexedReferences (w_index w') ''Idle''
              = {\<lparr>ref_oid = 1, location_uri = ''Ammo.uc'',
                  location_range = Range (Position 1 6) (Position 1 10), ref_symbol = None\<rparr>}"
    by blast
  show ?thesis
    apply (intro conjI)
    using a f plain_env_keeps c g one two three b t e by blast+
qed

lemma override_step_other:
  assumes "super (w_heap w this) = None"
    and "super (w_heap w ctx) = Some context_super"
    and "findSuperSymbol (w_heap w) context_super (id_name (w_heap w this)) None
           = Some (Inr (Some found))"
    and "sym_class (w_heap w found) \<noteq> UCStateSymbol"
  shows "UCStateSymbol_index_override env this ctx w = Some (Normal w)"
  using assms by (simp add: UCStateSymbol_index_override_def)

lemma shadowed_heap_facts:
  "sym_class (shadowed_heap 31) = UCStateSymbol"
  "id_name (shadowed_heap 31) = Name 31 ''Idle''"
  "id_name (shadowed_heap 21) = Name 31 ''Idle''"
  "sym_class (shadowed_heap 21) = UCStateSymbol"
  "super (shadowed_heap 20) = Some 10"
  "super (shadowed_heap 10) = Some 30"
  "super (shadowed_heap 21) = None"
  "extendsType (shadowed_heap 21) = None"
  "children (shadowed_heap 21) = None"
  "ignoreRefs (shadowed_heap 21) = None"
  "sym_class (shadowed_heap 14) = UCPropertySymbol"
  "sym_class (shadowed_heap 10) = UCClassSymbol"
  by (simp_all add: shadowed_heap_def link_heap_def new_symbol_def)

lemma shadowed_heap_chains:
  "chain shadowed_heap (children (shadowed_heap 10)) = Some [14]"
  "chain shadowed_heap (children (shadowed_heap 30)) = Some [31]"
  by (simp_all add: shadowed_heap_def link_heap_def blank_heap_def new_symbol_def chain_Some chain_None)

lemma shadowed_heap_find_Idle:
  "findSuperSymbol shadowed_heap 10 (Name 31 ''Idle'') None = Some (Inr (Some 14))"
proof (rule findSuperSymbol_local)
  show "instanceof_UCStructSymbol (sym_class (shadowed_heap 10))"
    by (simp add: shadowed_heap_facts instanceof_UCStructSymbol_def)
  show "getSymbol shadowed_heap 10 (Name 31 ''Idle'') None = Some (Some 14)"
    by (simp add: getSymbol_find [OF shadowed_heap_chains(1)] kind_excludes_def)
       (simp add: shadowed_heap_def link_heap_def new_symbol_def)
qed

text \<open>
  The super class hierarchy of \<open>Ammo\<close> holds the state \<open>Idle\<close> of \<open>Inventory\<close>, but the
  lookup of the name finds the property \<open>Idle\<close> of \<open>Pickup\<close> first: indexing the state
  \<open>Idle\<close> of \<open>Ammo\<close>, or the class \<open>Ammo\<close>, sets no link and records no reference.
\<close>

theorem state_override_shadowed:
  "sym_class (shadowed_heap 21) = UCStateSymbol
   \<and> extendsType (shadowed_heap 21) = None \<and> super (shadowed_heap 21) = None
   \<and> chain shadowed_heap (children (shadowed_heap 20)) = Some [21]
   \<and> super (shadowed_heap 20) = Some 10 \<and> super (shadowed_heap 10) = Some 30
   \<and> chain shadowed_heap (children (shadowed_heap 30)) = Some [31]
   \<and> sym_class (shadowed_heap 31) = UCStateSymbol
   \<and> id_name (shadowed_heap 31) = id_name (shadowed_heap 21)
   \<and> UCStateSymbol_index plain_env 21 20 (world_of shadowed_heap)
       = Some (Normal (world_of shadowed_heap))
   \<and> UCStructSymbol_index plain_env 20 20 (world_of shadowed_heap)
       = Some (Normal (world_of shadowed_heap))
   \<and> super (w_heap (world_of shadowed_heap) 21) = None
   \<and> overriddenState (w_heap (world_of shadowed_heap) 21) = None
   \<and> w_index (world_of shadowed_heap) = Map.empty"
proof -
  let ?w = "world_of shadowed_heap"
  have h: "w_heap ?w = shadowed_heap" by (simp add: world_of_def)
  have st: "UCStateSymbol_index_override plain_env 21 20 ?w = Some (Normal ?w)"
    by (rule override_step_other [where found = 14 and context_super = 10])
       (simp_all add: h shadowed_heap_facts shadowed_heap_find_Idle)
  have one: "UCStateSymbol_index plain_env 21 20 ?w = Some (Normal ?w)"
    by (rule state_index_plain [OF st]) (simp_all add: h shadowed_heap_facts plain_env_def)
  have c: "extendsType (shadowed_heap 20)
             = Some (ObjectType (Name 30 ''Pickup'') (Range (Position 0 19) (Position 0 25))
                       (Some TK_Class) (Some 10) None)"
    "children (shadowed_heap 20) = Some 21" "nextSym (shadowed_heap 21) = None"
    by (simp_all add: shadowed_heap_def link_heap_def new_symbol_def)
  have e: "UCStructSymbol_index_extends plain_env 20 20 ?w = Some (Normal ?w)"
    by (rule extends_step_resolved_before [where p = 10]) (simp_all add: h c shadowed_heap_facts)
  have f0: "UCFieldSymbol_index plain_env 20 20 ?w = ?w" by (simp add: plain_env_def)
  have loop: "index_call plain_env (ChildrenLoop 20 (Some 21)) ?w = Some (Normal ?w)"
    using one [unfolded UCStateSymbol_index_def]
    by (simp add: index_call_Children_Some index_call_Child h shadowed_heap_facts c
        index_call_Children_None)
  have two: "UCStructSymbol_index plain_env 20 20 ?w = Some (Normal ?w)"
    unfolding UCStructSymbol_index_def index_call_Struct f0 e
    using loop by (simp add: h c)
  have ch: "chain shadowed_heap (children (shadowed_heap 20)) = Some [21]"
    by (simp add: shadowed_heap_def link_heap_def blank_heap_def new_symbol_def chain_Some chain_None)
  have "overriddenState (shadowed_heap 21) = None"
    by (simp add: shadowed_heap_def link_heap_def new_symbol_def)
  moreover have "w_index ?w = Map.empty" by (simp add: world_of_def)
  ultimately show ?thesis
    using one two ch shadowed_heap_facts shadowed_heap_chains(2) h by simp
qed

text \<open>
  C8. When the part of \<^verbatim>\<open>UCStructSymbol.index\<close> on the extends type ends, a
  \<^verbatim>\<open>super\<close> that was set before is unchanged; one that was not set is the referent of
  the extends type (if there is an extends type and its indexing did not throw). The
  \<^verbatim>\<open>overriddenState\<close> is unchanged.
\<close>

theorem extends_keeps_super:
  assumes "UCStructSymbol_index_extends env this ctx w = Some outcome"
  shows "super (w_heap (state_of outcome) this) =
           (case super (w_heap w this) of
              Some p \<Rightarrow> Some p
            | None \<Rightarrow>
                (case outcome of
                   Normal w' \<Rightarrow> (case extendsType (w_heap w' this) of
                                    None \<Rightarrow> None
                                  | Some t \<Rightarrow> getReference t)
                 | Throw e w' \<Rightarrow> None))
         \<and> overriddenState (w_heap (state_of outcome) this) = overriddenState (w_heap w this)"
  using extends_step_links [OF assms] by simp

lemma extends_step_resolved:
  assumes "extendsType (w_heap w this) = Some (ObjectType ident rng kind None None)"
    and "resolve_reference env (w_heap w) ctx ident kind = Some (Inr (Some s))"
  shows "\<exists>w'. UCStructSymbol_index_extends env this ctx w = Some (Normal w')
            \<and> extendsType (w_heap w' this) = Some (ObjectType ident rng kind (Some s) None)"
  using assms
  by (simp add: UCStructSymbol_index_extends_def Let_def set_extendsType_def)

lemma linked_heap_facts:
  "extendsType (linked_heap 21)
     = Some (ObjectType (Name 32 ''Sleeping'') (Range (Position 1 19) (Position 1 27))
               (Some TK_State) None None)"
  "super (linked_heap 21) = Some 11"
  "overriddenState (linked_heap 21) = Some 11"
  "sym_class (linked_heap 20) = UCClassSymbol"
  "sym_class (linked_heap 10) = UCClassSymbol"
  "super (linked_heap 20) = Some 10"
  "id_name (linked_heap 13) = Name 32 ''Sleeping''"
  by (simp_all add: linked_heap_def extends_heap_def link_heap_def new_symbol_def)

lemma linked_heap_chains:
  "chain linked_heap (children (linked_heap 10)) = Some [11, 13]"
  "chain linked_heap (children (linked_heap 20)) = Some [21]"
  by (simp_all add: linked_heap_def extends_heap_def link_heap_def blank_heap_def new_symbol_def
      chain_Some chain_None)

lemma linked_heap_find_Sleeping:
  "findSuperSymbol linked_heap 20 (Name 32 ''Sleeping'') None = Some (Inr (Some 13))"
proof (rule findSuperSymbol_inherited [where parent = 10])
  show "instanceof_UCStructSymbol (sym_class (linked_heap 20))"
    by (simp add: linked_heap_facts instanceof_UCStructSymbol_def)
  show "getSymbol linked_heap 20 (Name 32 ''Sleeping'') None = Some None"
    by (simp add: getSymbol_find [OF linked_heap_chains(2)])
       (simp add: linked_heap_def extends_heap_def link_heap_def new_symbol_def)
  show "super (linked_heap 20) = Some 10" by (simp add: linked_heap_facts)
  show "findSuperSymbol linked_heap 10 (Name 32 ''Sleeping'') None = Some (Inr (Some 13))"
  proof (rule findSuperSymbol_local)
    show "instanceof_UCStructSymbol (sym_class (linked_heap 10))"
      by (simp add: linked_heap_facts instanceof_UCStructSymbol_def)
    show "getSymbol linked_heap 10 (Name 32 ''Sleeping'') None = Some (Some 13)"
      by (simp add: getSymbol_find [OF linked_heap_chains(1)] kind_excludes_def)
         (simp add: linked_heap_def extends_heap_def link_heap_def new_symbol_def)
  qed
qed

lemma extends_heap_facts:
  "super (extends_heap 21) = None" "super (extends_heap 20) = Some 10"
  "sym_class (extends_heap 11) = UCStateSymbol" "id_name (extends_heap 21) = Name 31 ''Idle''"
  "sym_class (extends_heap 10) = UCClassSymbol"
  by (simp_all add: extends_heap_def link_heap_def new_symbol_def)

lemma extends_heap_chain: "chain extends_heap (children (extends_heap 10)) = Some [11, 13]"
  by (simp add: extends_heap_def link_heap_def blank_heap_def new_symbol_def chain_Some chain_None)

lemma extends_heap_find_Idle:
  "findSuperSymbol extends_heap 10 (Name 31 ''Idle'') None = Some (Inr (Some 11))"
proof (rule findSuperSymbol_local)
  show "instanceof_UCStructSymbol (sym_class (extends_heap 10))"
    by (simp add: extends_heap_facts instanceof_UCStructSymbol_def)
  show "getSymbol extends_heap 10 (Name 31 ''Idle'') None = Some (Some 11)"
    by (simp add: getSymbol_find [OF extends_heap_chain] kind_excludes_def)
       (simp add: extends_heap_def link_heap_def new_symbol_def)
qed

lemma override_gives_linked_heap:
  "\<exists>w1. UCStateSymbol_index_override plain_env 21 20 (world_of extends_heap) = Some (Normal w1)
        \<and> w_heap w1 = linked_heap"
proof -
  let ?w = "world_of extends_heap"
  have h: "w_heap ?w = extends_heap" by (simp add: world_of_def)
  have "UCStateSymbol_index_override plain_env 21 20 ?w =
     Some (Normal
       ((indexReference (getHash plain_env (w_heap ?w 11))
          \<lparr>ref_oid = w_oid ?w, location_uri = doc_uri (w_document ?w),
           location_range = id_range (w_heap ?w 21), ref_symbol = None\<rparr>
          (?w\<lparr>w_oid := Suc (w_oid ?w)\<rparr>))
        \<lparr>w_heap := (w_heap ?w)(21 := (w_heap ?w 21)
            \<lparr>overriddenState := Some 11, super := Some 11\<rparr>)\<rparr>))"
    by (rule override_step [where context_super = 10])
       (simp_all add: h extends_heap_facts extends_heap_find_Idle)
  then show ?thesis by (simp add: h linked_heap_def)
qed

theorem extends_keeps_super_witness:
  "(\<exists>w1. UCStateSymbol_index_override plain_env 21 20 (world_of extends_heap) = Some (Normal w1)
        \<and> w_heap w1 = linked_heap)
   \<and> (\<exists>w'. UCStructSymbol_index_extends plain_env 21 20 (world_of linked_heap) = Some (Normal w')
        \<and> super (w_heap (world_of linked_heap) 21) = Some 11
        \<and> extendsType (w_heap w' 21)
            = Some (ObjectType (Name 32 ''Sleeping'') (Range (Position 1 19) (Position 1 27))
                      (Some TK_State) (Some 13) None)
        \<and> super (w_heap w' 21) = Some 11 \<and> overriddenState (w_heap w' 21) = Some 11)
   \<and> (\<exists>w'. UCStructSymbol_index_extends plain_env 20 20 (world_of unlinked_heap) = Some (Normal w')
        \<and> super (w_heap (world_of unlinked_heap) 20) = None
        \<and> super (w_heap w' 20) = Some 10)"
proof -
  let ?w = "world_of linked_heap"
  have h: "w_heap ?w = linked_heap" by (simp add: world_of_def)
  have "resolve_reference plain_env (w_heap ?w) 20 (Name 32 ''Sleeping'') (Some TK_State)
          = Some (Inr (Some 13))"
    by (simp add: resolve_reference_def h linked_heap_find_Sleeping)
  from extends_step_resolved [of ?w 21, OF _ this, unfolded h, OF linked_heap_facts(1)]
  obtain w' where run: "UCStructSymbol_index_extends plain_env 21 20 ?w = Some (Normal w')"
    and et: "extendsType (w_heap w' 21)
            = Some (ObjectType (Name 32 ''Sleeping'') (Range (Position 1 19) (Position 1 27))
                      (Some TK_State) (Some 13) None)"
    by (auto simp: h)
  from extends_keeps_super [OF run]
  have "super (w_heap w' 21) = Some 11 \<and> overriddenState (w_heap w' 21) = Some 11"
    by (simp add: h linked_heap_facts)
  with run et have first: "\<exists>w'. UCStructSymbol_index_extends plain_env 21 20 ?w = Some (Normal w')
        \<and> super (w_heap ?w 21) = Some 11
        \<and> extendsType (w_heap w' 21)
            = Some (ObjectType (Name 32 ''Sleeping'') (Range (Position 1 19) (Position 1 27))
                      (Some TK_State) (Some 13) None)
        \<and> super (w_heap w' 21) = Some 11 \<and> overriddenState (w_heap w' 21) = Some 11"
    by (auto simp: h linked_heap_facts)
  let ?u = "world_of unlinked_heap"
  have hu: "w_heap ?u = unlinked_heap" by (simp add: world_of_def)
  have "resolve_reference plain_env (w_heap ?u) 20 (Name 30 ''Pickup'') (Some TK_Class)
          = Some (Inr (Some 10))"
    by (simp add: resolve_reference_def plain_env_def)
  from extends_step_resolved [of ?u 20, OF _ this, unfolded hu, OF unlinked_heap_facts(1)]
  obtain u' where runu: "UCStructSymbol_index_extends plain_env 20 20 ?u = Some (Normal u')"
    and etu: "extendsType (w_heap u' 20)
            = Some (ObjectType (Name 30 ''Pickup'') (Range (Position 0 19) (Position 0 25))
                      (Some TK_Class) (Some 10) None)"
    by (auto simp: hu)
  from extends_keeps_super [OF runu]
  have "super (w_heap u' 20) = Some 10"
    by (simp add: hu unlinked_heap_facts etu)
  with runu have "\<exists>w'. UCStructSymbol_index_extends plain_env 20 20 ?u = Some (Normal w')
        \<and> super (w_heap ?u 20) = None \<and> super (w_heap w' 20) = Some 10"
    by (auto simp: hu unlinked_heap_facts)
  with first override_gives_linked_heap show ?thesis by blast
qed

end
